(* ===== verification/Prelude.thy ===== *)
theory Prelude
  imports Complex_Main "HOL-Library.Word" "HOL-Library.Product_Lexorder"
begin

text \<open>
  Shared vocabulary of the development: the result type of contract code, the
  sequencing combinators in which every handler is written, machine integers,
  and the generic lemmas that carry the component proofs.

  A contract action either runs to the end or is aborted as a whole (the chain
  rolls the transaction back), so a handler returns a value of a sum type whose
  left side says what aborted it.  \<open>ensure\<close> is \<open>eosio_assert\<close> followed by the rest
  of the handler, \<open>rbind\<close> sequences a fallible call and the rest.
\<close>

named_theorems res_simps \<open>success and failure of the result combinators\<close>
named_theorems frame_simps \<open>what an operation leaves unchanged\<close>
named_theorems acct_simps \<open>account name constants as numbers\<close>
named_theorems run_simps \<open>definitions unfolded to run a handler on a concrete state\<close>

subsection \<open>Results\<close>

type_synonym name = "64 word"
type_synonym u64 = "64 word"
type_synonym u32 = "32 word"
type_synonym u16 = "16 word"
type_synonym u8 = "8 word"

datatype error =
    Eosio_assert string        \<comment> \<open>a failed \<open>eosio_assert\<close>, with its message\<close>
  | Missing_authority name     \<comment> \<open>\<open>require_auth\<close> without the authority of the account\<close>
  | Wasm_trap string           \<comment> \<open>an exception or trap of the WebAssembly interpreter\<close>
  | Chain_error string         \<comment> \<open>an exception thrown by the chain library\<close>

type_synonym 'a result = "error + 'a"

definition ensure :: "bool \<Rightarrow> string \<Rightarrow> 'a result \<Rightarrow> 'a result" where
  "ensure b msg k = (if b then k else Inl (Eosio_assert msg))"

definition rbind :: "'a result \<Rightarrow> ('a \<Rightarrow> 'b result) \<Rightarrow> 'b result" where
  "rbind r f = (case r of Inl e \<Rightarrow> Inl e | Inr x \<Rightarrow> f x)"

lemma ensure_Inr [res_simps, simp]: "ensure b msg k = Inr y \<longleftrightarrow> b \<and> k = Inr y"
  by (simp add: ensure_def)

lemma ensure_True [res_simps, simp]: "b \<Longrightarrow> ensure b msg k = k"
  by (simp add: ensure_def)

lemma ensure_False [res_simps, simp]: "\<not> b \<Longrightarrow> ensure b msg k = Inl (Eosio_assert msg)"
  by (simp add: ensure_def)

lemma ensure_Inl [res_simps]:
  "ensure b msg k = Inl e \<longleftrightarrow> (\<not> b \<and> e = Eosio_assert msg) \<or> (b \<and> k = Inl e)"
  by (auto simp: ensure_def)

lemma rbind_Inr [res_simps, simp]: "rbind r f = Inr y \<longleftrightarrow> (\<exists>x. r = Inr x \<and> f x = Inr y)"
  by (auto simp: rbind_def split: sum.splits)

lemma rbind_simps [res_simps, simp]:
  "rbind (Inr x) f = f x"
  "rbind (Inl e) f = Inl e"
  by (simp_all add: rbind_def)

text \<open>The successful runs of a conditional handler, branch by branch.\<close>

lemma if_Inr: "(if b then r else s) = Inr y \<longleftrightarrow> (b \<and> r = Inr y) \<or> (\<not> b \<and> s = Inr y)"
  by simp

subsection \<open>Signed 64-bit integers\<close>

text \<open>
  \<open>int64_t\<close> values are integers; the arithmetic of the compiled contract wraps
  modulo \<open>2^64\<close> and is written with \<open>i64\<close>.  Unsigned values are words.
\<close>

definition i64 :: "int \<Rightarrow> int" where
  "i64 x = (x + 9223372036854775808) mod 18446744073709551616 - 9223372036854775808"

definition in_i64 :: "int \<Rightarrow> bool" where
  "in_i64 x \<longleftrightarrow> - 9223372036854775808 \<le> x \<and> x < 9223372036854775808"

lemma i64_id [simp]: "in_i64 x \<Longrightarrow> i64 x = x"
  by (simp add: in_i64_def i64_def)

lemma in_i64_i64 [simp]: "in_i64 (i64 x)"
proof -
  have "0 \<le> (x + 9223372036854775808) mod 18446744073709551616"
    and "(x + 9223372036854775808) mod 18446744073709551616 < 18446744073709551616"
    by simp_all
  then show ?thesis unfolding in_i64_def i64_def by linarith
qed

lemma i64_bounds:
  assumes "- 9223372036854775808 \<le> x" and "x < 9223372036854775808"
  shows "i64 x = x"
  using assms by (simp add: in_i64_def)

lemma i64_under:
  assumes "x < - 9223372036854775808" "- 27670116110564327424 \<le> x"
  shows "i64 x = x + 18446744073709551616"
proof -
  have "i64 (x + 18446744073709551616) = x + 18446744073709551616" using assms by (intro i64_bounds) simp_all
  moreover have "i64 (x + 18446744073709551616) = i64 x"
  proof -
    have "x + 18446744073709551616 + 9223372036854775808 = x + 9223372036854775808 + 18446744073709551616" by simp
    then show ?thesis unfolding i64_def by (simp only: mod_add_self2)
  qed
  ultimately show ?thesis by simp
qed

lemma i64_over:
  assumes "9223372036854775808 \<le> x" "x < 27670116110564327424"
  shows "i64 x = x - 18446744073709551616"
proof -
  have "i64 (x - 18446744073709551616) = x - 18446744073709551616" using assms by (intro i64_bounds) simp_all
  moreover have "i64 x = i64 (x - 18446744073709551616)"
  proof -
    have "x + 9223372036854775808 = x - 18446744073709551616 + 9223372036854775808 + 18446744073709551616" by simp
    then show ?thesis unfolding i64_def by (simp only: mod_add_self2)
  qed
  ultimately show ?thesis by simp
qed

text \<open>C++ integer division truncates towards zero.\<close>

definition tdiv :: "int \<Rightarrow> int \<Rightarrow> int" where
  "tdiv a b = sgn a * sgn b * (\<bar>a\<bar> div \<bar>b\<bar>)"

lemma tdiv_nonneg: "0 \<le> a \<Longrightarrow> 0 < b \<Longrightarrow> tdiv a b = a div b"
  by (cases "a = 0") (simp_all add: tdiv_def)

lemma tdiv_bounds:
  assumes "0 \<le> a" and "0 < b"
  shows "0 \<le> tdiv a b" and "tdiv a b \<le> a"
proof -
  have d: "tdiv a b = a div b" using assms by (rule tdiv_nonneg)
  show "0 \<le> tdiv a b" using assms d by (simp add: pos_imp_zdiv_nonneg_iff)
  have "a div b \<le> a div 1" using assms by (intro zdiv_mono2) auto
  then show "tdiv a b \<le> a" using d by simp
qed

text \<open>A division by zero traps.\<close>

definition sdiv :: "int \<Rightarrow> int \<Rightarrow> int result" where
  "sdiv a b = (if b = 0 then Inl (Wasm_trap ''integer divide by zero'') else Inr (i64 (tdiv a b)))"

definition udiv :: "u64 \<Rightarrow> u64 \<Rightarrow> u64 result" where
  "udiv a b = (if b = 0 then Inl (Wasm_trap ''integer divide by zero'') else Inr (a div b))"

definition umod :: "u64 \<Rightarrow> u64 \<Rightarrow> u64 result" where
  "umod a b = (if b = 0 then Inl (Wasm_trap ''integer divide by zero'') else Inr (a mod b))"

lemma div_mod_Inr [res_simps, simp]:
  "sdiv x y = Inr z \<longleftrightarrow> y \<noteq> 0 \<and> z = i64 (tdiv x y)"
  "udiv a b = Inr r \<longleftrightarrow> b \<noteq> 0 \<and> r = a div b"
  "umod a b = Inr r \<longleftrightarrow> b \<noteq> 0 \<and> r = a mod b"
  by (auto simp: sdiv_def udiv_def umod_def)

subsection \<open>Unsigned words\<close>

declare of_int_uint [simp del]

lemma unat_sub_le: "b \<le> a \<Longrightarrow> unat (a - b :: 'a::len word) = unat a - unat b"
  by (rule unat_sub)

lemma unat_add_no_wrap:
  "unat a + unat b < 2 ^ LENGTH('a) \<Longrightarrow> unat (a + b :: 'a::len word) = unat a + unat b"
  by (simp add: unat_word_ariths)

lemma uint_u64_bounds: "0 \<le> uint (x :: u64)" "uint (x :: u64) < 18446744073709551616"
  using uint_lt2p [of x] by simp_all

lemma uint_of_int_u64: "0 \<le> x \<Longrightarrow> x < 2 ^ 64 \<Longrightarrow> uint (word_of_int x :: u64) = x"
  by (simp add: unsigned_of_int take_bit_int_eq_self)

end
