(* ===== verification/Names.thy ===== *)
theory Names
  imports Prelude
begin

unbundle bit_operations_syntax

text \<open>
  Account names (\<open>src/contracts/eosiolib/types.hpp\<close>): the base-32 encoding of a
  string into 64 bits, its inverse, the suffix of a dotted name, and the account
  constants the contracts mention through the \<open>N(...)\<close> macro.  The main lemma is
  the round trip \<open>string_to_name (to_string n) = n\<close> for every 64-bit value, which
  the cross-contract memo protocol relies on.
\<close>

subsection \<open>Encoding\<close>

definition char_to_symbol :: "char \<Rightarrow> u64" where
  "char_to_symbol c =
     (let k = of_char c :: nat in
      if 97 \<le> k \<and> k \<le> 122 then of_nat (k - 97 + 6)
      else if 49 \<le> k \<and> k \<le> 53 then of_nat (k - 49 + 1)
      else 0)"

text \<open>A C string ends at its first NUL character.\<close>

definition c_str :: "string \<Rightarrow> string" where
  "c_str s = takeWhile (\<lambda>c. c \<noteq> CHR 0x00) s"

definition name_char :: "string \<Rightarrow> nat \<Rightarrow> u64" where
  "name_char s i =
     (let c = (if i < length s \<and> i \<le> 12 then char_to_symbol (s ! i) else 0) in
      if i < 12 then push_bit (64 - 5 * (i + 1)) (c AND 0x1f) else c AND 0x0f)"

definition string_to_name :: "string \<Rightarrow> name" where
  "string_to_name str = foldl (\<lambda>value i. value OR name_char (c_str str) i) 0 [0..<13]"

subsection \<open>Decoding\<close>

definition charmap :: string where
  "charmap = ''.12345abcdefghijklmnopqrstuvwxyz''"

definition to_string_step :: "string \<times> u64 \<Rightarrow> nat \<Rightarrow> string \<times> u64" where
  "to_string_step st i =
     (let (str, tmp) = st in
      (str[12 - i := charmap ! unat (tmp AND (if i = 0 then 0x0f else 0x1f))],
       drop_bit (if i = 0 then 4 else 5) tmp))"

definition trim_right_dots :: "string \<Rightarrow> string" where
  "trim_right_dots str =
     (if list_all (\<lambda>c. c = CHR ''.'') str then str
      else rev (dropWhile (\<lambda>c. c = CHR ''.'') (rev str)))"

definition to_string :: "name \<Rightarrow> string" where
  "to_string n = trim_right_dots (fst (foldl to_string_step (replicate 13 (CHR ''.''), n) [0..<13]))"

subsection \<open>The suffix of a dotted name\<close>

definition suffix_step :: "u64 \<Rightarrow> nat \<times> nat \<Rightarrow> nat \<Rightarrow> nat \<times> nat" where
  "suffix_step n st remaining_bits =
     (let (after_last_dot, tmp) = st in
      if drop_bit remaining_bits n AND 0x1f = 0 then (after_last_dot, remaining_bits)
      else (tmp, tmp))"

definition name_suffix :: "name \<Rightarrow> name" where
  "name_suffix n =
     (let (dot0, tmp) = foldl (suffix_step n) (0, 0) [59, 54, 49, 44, 39, 34, 29, 24, 19, 14, 9, 4];
          thirteenth = n AND 0x0f;
          dot = (if thirteenth \<noteq> 0 then tmp else dot0) in
      if dot = 0 then n
      else let mask = push_bit dot 1 - 16; shift = 64 - dot in
           push_bit shift (n AND mask) + push_bit (shift - 1) thirteenth)"

subsection \<open>Account constants\<close>

definition system_account :: name where "system_account = string_to_name ''eosio''"
definition token_account :: name where "token_account = string_to_name ''eosio.token''"
definition hdd_lock_account :: name where "hdd_lock_account = string_to_name ''hddlock12345''"
definition hdd_deposit_account :: name where "hdd_deposit_account = string_to_name ''hdddeposit12''"
definition hdd_pool_account :: name where "hdd_pool_account = string_to_name ''hddpool12345''"
definition pool_sys :: name where "pool_sys = string_to_name ''pool.sys''"
definition store_sys :: name where "store_sys = string_to_name ''store.sys''"
definition channel_sys :: name where "channel_sys = string_to_name ''channel.sys''"
definition forfeit_sys :: name where "forfeit_sys = string_to_name ''forfeit.sys''"
definition fund_sys :: name where "fund_sys = string_to_name ''fund.sys''"
definition node_sys :: name where "node_sys = string_to_name ''node.sys''"
definition gas_sys :: name where "gas_sys = string_to_name ''gas.sys''"
definition null_sys :: name where "null_sys = string_to_name ''null.sys''"
definition ytapro_map :: name where "ytapro_map = string_to_name ''ytapro.map''"
definition yottaforfeit :: name where "yottaforfeit = string_to_name ''yottaforfeit''"
definition hddbasefound :: name where "hddbasefound = string_to_name ''hddbasefound''"
definition ecologyfound :: name where "ecologyfound = string_to_name ''ecologyfound''"
definition hddsubsidyeu :: name where "hddsubsidyeu = string_to_name ''hddsubsidyeu''"
definition hddpoolexchg :: name where "hddpoolexchg = string_to_name ''hddpoolexchg''"
definition hddpooladmin :: name where "hddpooladmin = string_to_name ''hddpooladmin''"
definition hddpooladml1 :: name where "hddpooladml1 = string_to_name ''hddpooladml1''"
definition hddpooladml2 :: name where "hddpooladml2 = string_to_name ''hddpooladml2''"
definition lockadminusr :: name where "lockadminusr = string_to_name ''lockadminusr''"
definition eosio_stake :: name where "eosio_stake = string_to_name ''eosio.stake''"
definition eosio_null :: name where "eosio_null = string_to_name ''eosio.null''"
definition scopea :: name where "scopea = string_to_name ''scopea''"
definition scopeb :: name where "scopeb = string_to_name ''scopeb''"

text \<open>The constants as numbers, so that the simplifier decides their equality.\<close>

lemmas name_eval = string_to_name_def c_str_def name_char_def char_to_symbol_def upt_rec Let_def

lemma acct_values [acct_simps]:
  "system_account = 6138663577826885632"
  "token_account = 6138663591592764928"
  "hdd_lock_account = 7661496124436432976"
  "hdd_deposit_account = 7661350115268248096"
  "hdd_pool_account = 7661566699875911760"
  "pool_sys = 12477522263618355200"
  "store_sys = 14297087148325601280"
  "channel_sys = 4849595776605073408"
  "forfeit_sys = 6714503360013643776"
  "fund_sys = 6820297444199235584"
  "node_sys = 11318285164221562880"
  "gas_sys = 7039139940000595968"
  "null_sys = 11430998300208136192"
  "ytapro_map = 17747942655753797632"
  "yottaforfeit = 17668627591421664656"
  "hddbasefound = 7661312777828869776"
  "ecologyfound = 5920291994917578384"
  "hddsubsidyeu = 7661622555610944928"
  "hddpoolexchg = 7661566700041149120"
  "hddpooladmin = 7661566699963718960"
  "hddpooladml1 = 7661566699963720208"
  "hddpooladml2 = 7661566699963720224"
  "lockadminusr = 10164909297014583664"
  "eosio_stake = 6138663591134630912"
  "eosio_null = 6138663588472832000"
  "scopea = 13990807278970732544"
  "scopeb = 13990807296150601728"
  by (simp_all add: name_eval system_account_def token_account_def hdd_lock_account_def
      hdd_deposit_account_def hdd_pool_account_def pool_sys_def store_sys_def channel_sys_def
      forfeit_sys_def fund_sys_def node_sys_def gas_sys_def null_sys_def ytapro_map_def
      yottaforfeit_def hddbasefound_def ecologyfound_def hddsubsidyeu_def hddpoolexchg_def
      hddpooladmin_def hddpooladml1_def hddpooladml2_def lockadminusr_def eosio_stake_def eosio_null_def scopea_def
      scopeb_def)

subsection \<open>Round trip\<close>

text \<open>The 13 symbols of a name, most significant first.\<close>

definition name_sym :: "name \<Rightarrow> nat \<Rightarrow> u64" where
  "name_sym n i = (if i < 12 then drop_bit (59 - 5 * i) n AND 0x1f else n AND 0x0f)"

lemma char_to_symbol_charmap: "k < 32 \<Longrightarrow> char_to_symbol (charmap ! k) = of_nat k"
proof -
  have *: "map char_to_symbol charmap = map of_nat [0..<32]"
    by (simp add: charmap_def char_to_symbol_def upt_conv_Cons)
  have "length charmap = 32" by (simp add: charmap_def)
  then show "k < 32 \<Longrightarrow> char_to_symbol (charmap ! k) = of_nat k"
    using arg_cong [OF *, of "\<lambda>xs. xs ! k"] by simp
qed

lemma charmap_nonzero: "k < 32 \<Longrightarrow> charmap ! k \<noteq> CHR 0x00"
proof -
  have "\<forall>c\<in>set charmap. c \<noteq> CHR 0x00" and l: "length charmap = 32" by (simp_all add: charmap_def)
  then show "k < 32 \<Longrightarrow> charmap ! k \<noteq> CHR 0x00" using nth_mem [of k charmap] by metis
qed

lemma and_mask_less:
  "unat ((x :: u64) AND 0x1f) < 32" "unat ((x :: u64) AND 0x0f) < 16"
proof -
  have a: "x AND 0x1f = take_bit 5 x" "x AND 0x0f = take_bit 4 x"
    by (simp_all add: take_bit_eq_mask mask_eq_exp_minus_1)
  have "take_bit 5 (unat x) < 2 ^ 5" "take_bit 4 (unat x) < 2 ^ 4" by (rule take_bit_nat_less_exp)+
  then show "unat (x AND 0x1f) < 32" "unat (x AND 0x0f) < 16"
    unfolding a by (simp_all add: unsigned_take_bit_eq)
qed

lemma upt13: "[0..<13] = [0, 1, 2, 3, 4, 5, 6, 7, 8, 9, 10, 11, 12 :: nat]"
  by (simp add: upt_rec)

lemma replicate13: "replicate 13 c = [c, c, c, c, c, c, c, c, c, c, c, c, c]"
  by (simp add: numeral_eq_Suc)

lemma to_string_raw:
  "fst (foldl to_string_step (replicate 13 (CHR ''.''), n) [0..<13])
     = map (\<lambda>i. charmap ! unat (name_sym n i)) [0..<13]"
  unfolding upt13 replicate13
  by (simp add: to_string_step_def Let_def name_sym_def)

lemma name_sym_less: "unat (name_sym n i) < 32"
  using and_mask_less(1) [of "drop_bit (59 - 5 * i) n"] and_mask_less(2) [of n]
  by (simp add: name_sym_def)

lemma trim_right_dots_decomp: "\<exists>k. xs = trim_right_dots xs @ replicate k (CHR ''.'')"
proof (cases "list_all (\<lambda>c. c = CHR ''.'') xs")
  case True
  then have "xs = trim_right_dots xs @ replicate 0 (CHR ''.'')" by (simp add: trim_right_dots_def)
  then show ?thesis by blast
next
  case False
  define d where "d = takeWhile (\<lambda>c. c = CHR ''.'') (rev xs)"
  have "rev xs = d @ dropWhile (\<lambda>c. c = CHR ''.'') (rev xs)" by (simp add: d_def)
  then have "xs = rev (dropWhile (\<lambda>c. c = CHR ''.'') (rev xs)) @ rev d"
    by (metis rev_append rev_rev_ident)
  moreover have "rev d = replicate (length d) (CHR ''.'')"
    unfolding d_def by (rule replicate_length_same [symmetric, THEN trans]) (auto dest: set_takeWhileD)
  ultimately show ?thesis using False by (auto simp: trim_right_dots_def)
qed

lemma name_char_pad: "name_char (s @ replicate k (CHR ''.'')) i = name_char s i"
  by (auto simp: name_char_def nth_append char_to_symbol_def Let_def)

lemma name_char_map:
  assumes "i < 13" and "length s = 13" and "s ! i = charmap ! unat (name_sym n i)"
  shows "name_char s i = (if i < 12 then push_bit (59 - 5 * i) (name_sym n i) else name_sym n i)"
  using assms name_sym_less [of n i]
  by (auto simp: name_char_def char_to_symbol_charmap name_sym_def Let_def ac_simps)

lemma name_sym_take_bit:
  "name_sym n i = (if i < 12 then take_bit 5 (drop_bit (59 - 5 * i) n) else take_bit 4 n)"
  by (simp add: name_sym_def take_bit_eq_mask mask_eq_exp_minus_1)

lemma name_of_syms:
  "foldl (\<lambda>v i. v OR (if i < 12 then push_bit (59 - 5 * i) (name_sym n i) else name_sym n i)) 0 [0..<13]
     = n"
proof (rule bit_word_eqI)
  fix j assume "j < LENGTH(64)"
  then have j: "j < 64" by simp
  have e: "\<And>k. k \<le> j \<Longrightarrow> k + (j - k) = j" by simp
  have cover: "59 \<le> j \<or> 54 \<le> j \<and> j < 59 \<or> 49 \<le> j \<and> j < 54 \<or> 44 \<le> j \<and> j < 49 \<or>
      39 \<le> j \<and> j < 44 \<or> 34 \<le> j \<and> j < 39 \<or> 29 \<le> j \<and> j < 34 \<or> 24 \<le> j \<and> j < 29 \<or>
      19 \<le> j \<and> j < 24 \<or> 14 \<le> j \<and> j < 19 \<or> 9 \<le> j \<and> j < 14 \<or> 4 \<le> j \<and> j < 9 \<or> j < 4"
    unfolding not_le [symmetric] by blast
  show "bit (foldl (\<lambda>v i. v OR (if i < 12 then push_bit (59 - 5 * i) (name_sym n i) else name_sym n i)) 0 [0..<13]) j
      = bit n j"
  proof (cases "bit n j")
    case True
    show ?thesis unfolding upt13
      apply (simp add: name_sym_take_bit bit_simps e less_diff_conv2 True j cong: conj_cong)
      using cover by blast
  next
    case False
    then show ?thesis unfolding upt13
      by (simp add: name_sym_take_bit bit_simps e less_diff_conv2 j cong: conj_cong)
  qed
qed

lemma name_round_trip: "string_to_name (to_string n) = n"
proof -
  define raw where "raw = map (\<lambda>i. charmap ! unat (name_sym n i)) [0..<13]"
  obtain k where k: "raw = to_string n @ replicate k (CHR ''.'')"
    using trim_right_dots_decomp [of raw] unfolding to_string_def to_string_raw raw_def by blast
  have "\<forall>c\<in>set raw. c \<noteq> CHR 0x00" unfolding raw_def using charmap_nonzero name_sym_less by auto
  then have "c_str (to_string n) = to_string n"
    unfolding c_str_def k by (simp add: takeWhile_eq_all_conv)
  then have "string_to_name (to_string n) = foldl (\<lambda>v i. v OR name_char raw i) 0 [0..<13]"
    by (simp add: string_to_name_def k name_char_pad)
  also have "\<dots> = foldl (\<lambda>v i. v OR (if i < 12 then push_bit (59 - 5 * i) (name_sym n i) else name_sym n i)) 0 [0..<13]"
    by (rule foldl_cong) (auto simp: name_char_map raw_def nth_append)
  finally show ?thesis by (simp only: name_of_syms)
qed

lemma set_to_string: "set (to_string n) \<subseteq> set charmap"
proof -
  define raw where "raw = map (\<lambda>i. charmap ! unat (name_sym n i)) [0..<13]"
  obtain k where k: "raw = to_string n @ replicate k (CHR ''.'')"
    using trim_right_dots_decomp [of raw] unfolding to_string_def to_string_raw raw_def by blast
  have l: "length charmap = 32" by (simp add: charmap_def)
  have "set raw \<subseteq> set charmap"
    unfolding raw_def using name_sym_less by (auto simp: l intro: nth_mem)
  then show ?thesis unfolding k by simp
qed

text \<open>A printed name has no separator of the memo format.\<close>

lemma to_string_no_colon: "CHR '':'' \<notin> set (to_string n)"
  using set_to_string [of n] by (auto simp: charmap_def)

end
