(* ===== verification/Asset.thy ===== *)
theory Asset
  imports Names
begin

unbundle bit_operations_syntax

text \<open>
  Symbols and token amounts (\<open>src/contracts/eosiolib/symbol.hpp\<close>, \<open>asset.hpp\<close>).

  An \<open>asset\<close> is a signed 64-bit amount with a symbol.  Each operator of the
  source is one definition; an operator that calls \<open>eosio_assert\<close> returns a
  result.  The lemmas give the successful runs of each operator, that its result
  is again within \<open>max_amount\<close>, and that for amounts in range the addition and
  subtraction never wrap, so that a checked sum is the mathematical one.
\<close>

subsection \<open>Symbols\<close>

definition symbol_char :: "string \<Rightarrow> nat \<Rightarrow> u64" where
  "symbol_char s i =
     (let k = of_char (s ! i) :: nat in
      if k < 65 \<or> 90 < k then 0 else push_bit (8 * (1 + i)) (of_nat k))"

definition string_to_symbol :: "u8 \<Rightarrow> string \<Rightarrow> u64" where
  "string_to_symbol p str =
     foldl (\<lambda>v i. v OR symbol_char (c_str str) i) 0 [0..<length (c_str str)] OR ucast p"

definition CORE_SYMBOL :: u64 where
  "CORE_SYMBOL = string_to_symbol 4 ''YTA''"

definition low_byte :: "u64 \<Rightarrow> nat" where
  "low_byte sy = unat (sy AND 0xff)"

text \<open>
  The loops of \<open>is_valid_symbol\<close>, with the number of rounds left: the characters,
  and after the first zero byte the rest, which has to be zero.
\<close>

fun symbol_rest_zero :: "nat \<Rightarrow> u64 \<Rightarrow> bool" where
  "symbol_rest_zero 0 sy = True"
| "symbol_rest_zero (Suc n) sy =
     (let sy' = drop_bit 8 sy in
      if low_byte sy' \<noteq> 0 then False else symbol_rest_zero n sy')"

fun symbol_chars_valid :: "nat \<Rightarrow> u64 \<Rightarrow> bool" where
  "symbol_chars_valid 0 sy = True"
| "symbol_chars_valid (Suc n) sy =
     (if \<not> (65 \<le> low_byte sy \<and> low_byte sy \<le> 90) then False
      else let sy' = drop_bit 8 sy in
           if low_byte sy' = 0 then symbol_rest_zero (Suc n) sy'
           else symbol_chars_valid n sy')"

definition is_valid_symbol :: "u64 \<Rightarrow> bool" where
  "is_valid_symbol sy = symbol_chars_valid 7 (drop_bit 8 sy)"

fun symbol_len_loop :: "nat \<Rightarrow> u64 \<Rightarrow> nat \<Rightarrow> nat" where
  "symbol_len_loop 0 sy len = len"
| "symbol_len_loop (Suc n) sy len =
     (if low_byte sy \<noteq> 0 \<and> len \<le> 7 then symbol_len_loop n (drop_bit 8 sy) (Suc len) else len)"

definition symbol_name_length :: "u64 \<Rightarrow> nat" where
  "symbol_name_length sy = symbol_len_loop 8 (drop_bit 8 sy) 0"

definition sym_precision :: "u64 \<Rightarrow> u64" where
  "sym_precision sy = sy AND 0xff"

definition sym_name :: "u64 \<Rightarrow> u64" where
  "sym_name sy = drop_bit 8 sy"

subsection \<open>Amounts\<close>

record asset =
  amount :: int
  symbol :: u64

definition max_amount :: int where
  "max_amount = 4611686018427387903"

definition is_amount_within_range :: "asset \<Rightarrow> bool" where
  "is_amount_within_range a \<longleftrightarrow> - max_amount \<le> amount a \<and> amount a \<le> max_amount"

definition asset_is_valid :: "asset \<Rightarrow> bool" where
  "asset_is_valid a \<longleftrightarrow> is_amount_within_range a \<and> is_valid_symbol (symbol a)"

definition mk_asset :: "int \<Rightarrow> u64 \<Rightarrow> asset result" where
  "mk_asset a s =
     (let r = \<lparr>amount = a, symbol = s\<rparr> in
      ensure (is_amount_within_range r) ''magnitude of asset amount must be less than 2^62'' (
      ensure (is_valid_symbol s) ''invalid symbol name'' (
      Inr r)))"

definition set_amount :: "asset \<Rightarrow> int \<Rightarrow> asset result" where
  "set_amount r a =
     (let r' = r\<lparr>amount := a\<rparr> in
      ensure (is_amount_within_range r') ''magnitude of asset amount must be less than 2^62'' (Inr r'))"

definition asset_neg :: "asset \<Rightarrow> asset" where
  "asset_neg r = r\<lparr>amount := i64 (- amount r)\<rparr>"

definition asset_sub :: "asset \<Rightarrow> asset \<Rightarrow> asset result" where
  "asset_sub r a =
     ensure (symbol a = symbol r) ''attempt to subtract asset with different symbol'' (
     let x = i64 (amount r - amount a) in
     ensure (- max_amount \<le> x) ''subtraction underflow'' (
     ensure (x \<le> max_amount) ''subtraction overflow'' (
     Inr (r\<lparr>amount := x\<rparr>))))"

definition asset_add :: "asset \<Rightarrow> asset \<Rightarrow> asset result" where
  "asset_add r a =
     ensure (symbol a = symbol r) ''attempt to add asset with different symbol'' (
     let x = i64 (amount r + amount a) in
     ensure (- max_amount \<le> x) ''addition underflow'' (
     ensure (x \<le> max_amount) ''addition overflow'' (
     Inr (r\<lparr>amount := x\<rparr>))))"

text \<open>The product is formed in 128 bits and cannot wrap.\<close>

definition asset_mul :: "asset \<Rightarrow> int \<Rightarrow> asset result" where
  "asset_mul r a =
     (let x = amount r * a in
      ensure (x \<le> max_amount) ''multiplication overflow'' (
      ensure (x \<ge> - max_amount) ''multiplication underflow'' (
      Inr (r\<lparr>amount := x\<rparr>))))"

definition asset_div :: "asset \<Rightarrow> int \<Rightarrow> asset result" where
  "asset_div r a =
     ensure (a \<noteq> 0) ''divide by zero'' (
     ensure (\<not> (amount r = - 9223372036854775808 \<and> a = - 1)) ''signed division overflow'' (
     Inr (r\<lparr>amount := tdiv (amount r) a\<rparr>)))"

text \<open>The comparison operators share their check of the symbols.\<close>

definition asset_cmp :: "(int \<Rightarrow> int \<Rightarrow> bool) \<Rightarrow> asset \<Rightarrow> asset \<Rightarrow> bool result" where
  "asset_cmp rel a b =
     ensure (symbol a = symbol b) ''comparison of assets with different symbols is not allowed'' (
     Inr (rel (amount a) (amount b)))"

subsection \<open>Successful runs\<close>

lemma mk_asset_Inr [res_simps, simp]:
  "mk_asset a s = Inr r \<longleftrightarrow> - max_amount \<le> a \<and> a \<le> max_amount \<and> is_valid_symbol s \<and> r = \<lparr>amount = a, symbol = s\<rparr>"
  by (auto simp: mk_asset_def is_amount_within_range_def)

lemma asset_add_Inr [res_simps, simp]:
  "asset_add r a = Inr x \<longleftrightarrow>
     symbol a = symbol r \<and> x = r\<lparr>amount := i64 (amount r + amount a)\<rparr> \<and> is_amount_within_range x"
  by (auto simp: asset_add_def is_amount_within_range_def Let_def)

lemma asset_sub_Inr [res_simps, simp]:
  "asset_sub r a = Inr x \<longleftrightarrow>
     symbol a = symbol r \<and> x = r\<lparr>amount := i64 (amount r - amount a)\<rparr> \<and> is_amount_within_range x"
  by (auto simp: asset_sub_def is_amount_within_range_def Let_def)

lemma asset_cmp_Inr [res_simps, simp]:
  "asset_cmp rel a b = Inr x \<longleftrightarrow> symbol a = symbol b \<and> x = rel (amount a) (amount b)"
  by (auto simp: asset_cmp_def)

text \<open>The sum or difference of two amounts in range does not leave 64 bits.\<close>

lemma i64_add_in_range:
  assumes "- max_amount \<le> a" "a \<le> max_amount" "- max_amount \<le> b" "b \<le> max_amount"
  shows "i64 (a + b) = a + b" "i64 (a - b) = a - b"
  using assms by (simp_all add: in_i64_def max_amount_def)

lemma is_amount_within_range_simps [simp]:
  "is_amount_within_range (a\<lparr>amount := x\<rparr>) \<longleftrightarrow> - max_amount \<le> x \<and> x \<le> max_amount"
  "is_amount_within_range \<lparr>amount = x, symbol = s\<rparr> \<longleftrightarrow> - max_amount \<le> x \<and> x \<le> max_amount"
  by (simp_all add: is_amount_within_range_def)

text \<open>
  An addition that succeeds on a non-negative amount in range and any non-negative
  64-bit operand is exact: a sum that left 64 bits would come back negative beyond
  \<open>- max_amount\<close> and be refused.
\<close>

lemma i64_add_exact:
  assumes "- max_amount \<le> a" "a \<le> max_amount" "in_i64 b" "- max_amount \<le> i64 (a + b)" "i64 (a + b) \<le> max_amount"
  shows "i64 (a + b) = a + b"
proof (cases "in_i64 (a + b)")
  case False
  then consider "a + b \<ge> 9223372036854775808" | "a + b < - 9223372036854775808"
    by (auto simp: in_i64_def)
  then show ?thesis
  proof cases
    case 1
    then have "i64 (a + b) = a + b - 18446744073709551616"
      using assms(1-3) by (simp add: i64_def in_i64_def max_amount_def mod_pos_geq mod_pos_pos_trivial)
    then show ?thesis using assms 1 by (simp add: max_amount_def in_i64_def)
  next
    case 2
    then have "(a + b + 9223372036854775808 + 18446744073709551616) mod 18446744073709551616
        = a + b + 9223372036854775808 + 18446744073709551616"
      using assms(1-3) by (intro mod_pos_pos_trivial) (simp_all add: in_i64_def max_amount_def)
    then have "(a + b + 9223372036854775808) mod 18446744073709551616
        = a + b + 9223372036854775808 + 18446744073709551616"
      by (simp only: mod_add_self2)
    then have "i64 (a + b) = a + b + 18446744073709551616" by (simp add: i64_def)
    then show ?thesis using assms 2 by (simp add: max_amount_def in_i64_def)
  qed
qed simp

lemma CORE_SYMBOL_value: "CORE_SYMBOL = 1096046852"
  by (simp add: CORE_SYMBOL_def string_to_symbol_def symbol_char_def c_str_def upt_rec Let_def)

lemma CORE_SYMBOL_valid [simp]: "is_valid_symbol CORE_SYMBOL"
  unfolding CORE_SYMBOL_value by code_simp

end
