(* ===== verification/Tables.thy ===== *)
theory Tables
  imports Prelude
begin

text \<open>
  The persistent tables of the contracts
  (\<open>src/contracts/eosiolib/multi_index.hpp\<close>, \<open>singleton.hpp\<close>).

  A \<open>multi_index\<close> is a list of rows in ascending order of the primary key, the
  order in which its iterators visit them.  A table with several scopes has the
  pair of scope and primary key as its key.  \<open>fetch\<close> is \<open>get\<close> with its error
  message, \<open>map_of\<close> is \<open>find\<close>, \<open>emplace\<close> fails on a key that is already there,
  \<open>tput\<close> is \<open>modify\<close> once the updater has run and \<open>tdel\<close> is \<open>erase\<close>.

  Contracts are proved against the interface of these operations: the locale
  \<open>table_ops\<close> states what a lookup returns after an update, \<open>table_sum\<close> how a sum
  over the rows changes, and both are interpreted on the list implementation.
\<close>

subsection \<open>Operations\<close>

type_synonym ('k, 'v) table = "('k \<times> 'v) list"

fun tput :: "'k::linorder \<Rightarrow> 'v \<Rightarrow> ('k, 'v) table \<Rightarrow> ('k, 'v) table" where
  "tput k v [] = [(k, v)]"
| "tput k v ((k', v') # t) =
     (if k < k' then (k, v) # (k', v') # t
      else if k = k' then (k, v) # t
      else (k', v') # tput k v t)"

definition tdel :: "'k \<Rightarrow> ('k, 'v) table \<Rightarrow> ('k, 'v) table" where
  "tdel k t = filter (\<lambda>r. fst r \<noteq> k) t"

definition fetch :: "('k, 'v) table \<Rightarrow> 'k \<Rightarrow> string \<Rightarrow> ('v \<Rightarrow> 'a result) \<Rightarrow> 'a result" where
  "fetch t k msg rest =
     (case map_of t k of None \<Rightarrow> Inl (Eosio_assert msg) | Some v \<Rightarrow> rest v)"

definition emplace :: "'k::linorder \<Rightarrow> 'v \<Rightarrow> ('k, 'v) table \<Rightarrow> ('k, 'v) table result" where
  "emplace k v t =
     (if map_of t k = None then Inr (tput k v t)
      else Inl (Chain_error ''could not insert object, most likely a uniqueness constraint was violated''))"

definition has_key :: "('k, 'v) table \<Rightarrow> 'k \<Rightarrow> bool" where
  "has_key t k \<longleftrightarrow> map_of t k \<noteq> None"

text \<open>A singleton is an optional value.\<close>

definition sget :: "'v option \<Rightarrow> ('v \<Rightarrow> 'a result) \<Rightarrow> 'a result" where
  "sget s rest = (case s of None \<Rightarrow> Inl (Eosio_assert ''singleton does not exist'') | Some v \<Rightarrow> rest v)"

definition get_or_default :: "'v option \<Rightarrow> 'v \<Rightarrow> 'v" where
  "get_or_default s d = (case s of None \<Rightarrow> d | Some v \<Rightarrow> v)"

text \<open>Rows in strictly ascending key order, and sums over the rows.\<close>

definition twf :: "('k::linorder, 'v) table \<Rightarrow> bool" where
  "twf t \<longleftrightarrow> sorted_wrt (<) (map fst t)"

definition tsum :: "('k \<Rightarrow> 'v \<Rightarrow> int) \<Rightarrow> ('k, 'v) table \<Rightarrow> int" where
  "tsum f t = (\<Sum>(k, v)\<leftarrow>t. f k v)"

definition row_val :: "('k \<Rightarrow> 'v \<Rightarrow> int) \<Rightarrow> 'k \<Rightarrow> 'v option \<Rightarrow> int" where
  "row_val f k r = (case r of None \<Rightarrow> 0 | Some v \<Rightarrow> f k v)"

subsection \<open>Successful runs\<close>

lemma fetch_Inr [res_simps, simp]:
  "fetch t k msg rest = Inr y \<longleftrightarrow> (\<exists>v. map_of t k = Some v \<and> rest v = Inr y)"
  by (simp add: fetch_def split: option.splits)

lemma fetch_Some [simp]: "map_of t k = Some v \<Longrightarrow> fetch t k msg rest = rest v"
  by (simp add: fetch_def)

lemma fetch_None [simp]: "map_of t k = None \<Longrightarrow> fetch t k msg rest = Inl (Eosio_assert msg)"
  by (simp add: fetch_def)

lemma emplace_Inr [res_simps, simp]: "emplace k v t = Inr t' \<longleftrightarrow> map_of t k = None \<and> t' = tput k v t"
  by (auto simp: emplace_def)

lemma emplace_new: "map_of t k = None \<Longrightarrow> emplace k v t = Inr (tput k v t)"
  by (simp add: emplace_def)

lemma sget_Inr [res_simps, simp]: "sget s rest = Inr y \<longleftrightarrow> (\<exists>v. s = Some v \<and> rest v = Inr y)"
  by (simp add: sget_def split: option.splits)

lemma sget_simps [simp]:
  "sget (Some v) rest = rest v"
  "sget None rest = Inl (Eosio_assert ''singleton does not exist'')"
  by (simp_all add: sget_def)

lemma get_or_default_simps [simp]: "get_or_default (Some v) d = v" "get_or_default None d = d"
  by (simp_all add: get_or_default_def)

lemma row_val_simps [simp]: "row_val f k (Some v) = f k v" "row_val f k None = 0"
  by (simp_all add: row_val_def)

subsection \<open>The interface\<close>

locale table_ops =
  fixes find :: "'t \<Rightarrow> 'k \<Rightarrow> 'v option"
    and put :: "'k \<Rightarrow> 'v \<Rightarrow> 't \<Rightarrow> 't"
    and del :: "'k \<Rightarrow> 't \<Rightarrow> 't"
    and wf :: "'t \<Rightarrow> bool"
  assumes find_put: "find (put k v t) = (find t)(k \<mapsto> v)"
    and find_del: "find (del k t) = (find t)(k := None)"
    and wf_put: "wf t \<Longrightarrow> wf (put k v t)"
    and wf_del: "wf t \<Longrightarrow> wf (del k t)"
begin

lemma find_put_same: "find (put k v t) k = Some v"
  by (simp add: find_put)

lemma find_put_other: "k' \<noteq> k \<Longrightarrow> find (put k v t) k' = find t k'"
  by (simp add: find_put)

lemma find_put_put: "find (put k v (put k w t)) = find (put k v t)"
  by (simp add: find_put)

lemma find_del_put: "find t k = None \<Longrightarrow> find (del k (put k v t)) = find t"
  by (auto simp: find_put find_del)

end

locale table_sum = table_ops find put del wf
  for find :: "'t \<Rightarrow> 'k \<Rightarrow> 'v option" and put del wf +
  fixes total :: "('k \<Rightarrow> 'v \<Rightarrow> int) \<Rightarrow> 't \<Rightarrow> int"
  assumes total_put: "wf t \<Longrightarrow> total f (put k v t) = total f t - row_val f k (find t k) + f k v"
    and total_del: "wf t \<Longrightarrow> total f (del k t) = total f t - row_val f k (find t k)"
    and total_cong: "wf t \<Longrightarrow> (\<And>k v. find t k = Some v \<Longrightarrow> f k v = g k v) \<Longrightarrow> total f t = total g t"
    and total_nonneg: "wf t \<Longrightarrow> (\<And>k v. find t k = Some v \<Longrightarrow> 0 \<le> f k v) \<Longrightarrow> 0 \<le> total f t"
begin

text \<open>Moving an amount from one row to another keeps the total.\<close>

lemma total_move:
  assumes "wf t" and "find t a = Some v" and "b \<noteq> a"
    and "f a v' = f a v - x" and "f b w' = row_val f b (find t b) + x"
  shows "total f (put b w' (put a v' t)) = total f t"
  using assms by (simp add: total_put wf_put find_put)

lemma total_put_same:
  assumes "wf t" and "find t k = Some v" and "f k v' = f k v"
  shows "total f (put k v' t) = total f t"
  using assms by (simp add: total_put)

text \<open>A row of a table of non-negative values is at most the total.\<close>

lemma row_le_total:
  assumes wf: "wf t" and k: "find t k = Some v" and nn: "\<And>k v. find t k = Some v \<Longrightarrow> 0 \<le> f k v"
  shows "f k v \<le> total f t"
proof -
  have "0 \<le> total f (del k t)"
    using wf by (intro total_nonneg wf_del) (auto simp: find_del nn split: if_splits)
  then show ?thesis using wf k by (simp add: total_del)
qed

end

subsection \<open>The list implementation\<close>

lemma map_of_tput [simp]: "map_of (tput k v t) = (map_of t)(k \<mapsto> v)"
  by (induction k v t rule: tput.induct) (auto simp: fun_eq_iff)

lemma map_of_tdel [simp]: "map_of (tdel k t) = (map_of t)(k := None)"
  by (induction t) (auto simp: tdel_def fun_eq_iff)

lemma fst_tput: "fst ` set (tput k v t) = insert k (fst ` set t)"
  by (induction k v t rule: tput.induct) auto

lemma twf_tput [simp]: "twf t \<Longrightarrow> twf (tput k v t)"
proof (induction k v t rule: tput.induct)
  case (2 k v k' v' t)
  then show ?case using fst_tput [of k v t] by (auto simp: twf_def)
qed (simp add: twf_def)

lemma twf_tdel [simp]: "twf t \<Longrightarrow> twf (tdel k t)"
  by (induction t) (auto simp: twf_def tdel_def)

lemma twf_Nil [simp]: "twf []"
  by (simp add: twf_def)

lemma twf_Cons: "twf ((k, v) # t) \<longleftrightarrow> twf t \<and> (\<forall>k'\<in>fst ` set t. k < k')"
  by (auto simp: twf_def)

lemma twf_distinct: "twf t \<Longrightarrow> distinct (map fst t)"
  by (simp add: twf_def strict_sorted_iff)

lemma map_of_ge_None: "\<forall>k'\<in>fst ` set t. k < k' \<Longrightarrow> map_of t (k :: 'k::linorder) = None"
  by (metis less_irrefl map_of_eq_None_iff)

lemma tsum_simps [simp]: "tsum f [] = 0" "tsum f ((k, v) # t) = f k v + tsum f t"
  by (simp_all add: tsum_def)

lemma tsum_tput: "twf t \<Longrightarrow> tsum f (tput k v t) = tsum f t - row_val f k (map_of t k) + f k v"
proof (induction k v t rule: tput.induct)
  case (2 k v k' v' t)
  have "k < k' \<Longrightarrow> map_of t k = None"
    using 2 by (intro map_of_ge_None) (auto simp: twf_Cons)
  then show ?case using 2 by (auto simp: twf_Cons)
qed simp

lemma tsum_tdel: "twf t \<Longrightarrow> tsum f (tdel k t) = tsum f t - row_val f k (map_of t k)"
proof (induction t)
  case (Cons r t)
  obtain k' v where r: "r = (k', v)" by (cases r)
  have "map_of t k' = None" using Cons.prems r by (intro map_of_ge_None) (simp add: twf_Cons)
  then show ?case using Cons r by (auto simp: twf_Cons tdel_def)
qed (simp add: tdel_def)

lemma tsum_cong:
  assumes "twf t" and "\<And>k v. map_of t k = Some v \<Longrightarrow> f k v = g k v"
  shows "tsum f t = tsum g t"
proof -
  have "\<forall>(k, v)\<in>set t. f k v = g k v"
    using assms(2) twf_distinct [OF assms(1)] by (auto simp: map_of_eq_Some_iff)
  then show ?thesis by (induction t) auto
qed

lemma tsum_nonneg:
  assumes "twf t" and "\<And>k v. map_of t k = Some v \<Longrightarrow> 0 \<le> f k v"
  shows "0 \<le> tsum f t"
proof -
  have "\<forall>(k, v)\<in>set t. 0 \<le> f k v"
    using assms(2) twf_distinct [OF assms(1)] by (auto simp: map_of_eq_Some_iff)
  then show ?thesis by (induction t) auto
qed

lemma length_tput: "twf t \<Longrightarrow> length (tput k v t) = (if map_of t k = None then Suc (length t) else length t)"
proof (induction k v t rule: tput.induct)
  case (2 k v k' v' t)
  have "k < k' \<Longrightarrow> map_of t k = None" using 2 by (intro map_of_ge_None) (auto simp: twf_Cons)
  then show ?case using 2 by (auto simp: twf_Cons)
qed simp

lemma twf_ext: "twf t \<Longrightarrow> twf t' \<Longrightarrow> map_of t = map_of t' \<Longrightarrow> t = t'"
proof (induction t arbitrary: t')
  case Nil
  then show ?case by (cases t') (auto simp: fun_eq_iff split: if_splits)
next
  case (Cons r t)
  obtain k v where r: "r = (k, v)" by (cases r)
  have "map_of t' k = Some v" using Cons.prems(3) r by (metis map_of_Cons_code(2))
  then obtain k' v' t'' where t': "t' = (k', v') # t''" by (cases t') auto
  note w = Cons.prems(1,2) [unfolded r t' twf_Cons]
  have eq: "\<And>x. (if k = x then Some v else map_of t x) = (if k' = x then Some v' else map_of t'' x)"
    using Cons.prems(3) unfolding r t' by (metis map_of_Cons_code(2))
  have n: "map_of t k = None" "map_of t'' k' = None" using w by (auto intro: map_of_ge_None)
  have kk: "k = k'"
  proof (rule ccontr)
    assume ne: "k \<noteq> k'"
    have "map_of t'' k = Some v" "map_of t k' = Some v'" using eq [of k] eq [of k'] ne by auto
    then have "k \<in> fst ` set t''" "k' \<in> fst ` set t" by (force dest: map_of_SomeD)+
    then show False using w by fastforce
  qed
  then have "v = v'" using eq [of k] by simp
  moreover have "map_of t = map_of t''"
    using eq n kk by (metis fun_upd_triv map_of_Cons_code(2) option.distinct(1) ext)
  ultimately show ?case using Cons.IH w r t' kk by blast
qed

lemma tput_triv: "twf t \<Longrightarrow> map_of t k = Some v \<Longrightarrow> tput k v t = t"
  by (rule twf_ext) auto

lemma tsum_le_length:
  assumes "twf t" and "\<And>k v. map_of t k = Some v \<Longrightarrow> f k v \<le> c"
  shows "tsum f t \<le> c * int (length t)"
proof -
  have "\<forall>(k, v)\<in>set t. f k v \<le> c"
    using assms(2) twf_distinct [OF assms(1)] by (auto simp: map_of_eq_Some_iff)
  then show ?thesis by (induction t) (auto simp: algebra_simps)
qed

lemma card_dom_twf: "twf t \<Longrightarrow> card (dom (map_of t)) = length t"
  using twf_distinct [of t] by (simp add: dom_map_of_conv_image_fst distinct_card [of "map fst t", simplified])

interpretation tbl: table_sum map_of tput tdel twf tsum
  by unfold_locales (auto simp: tsum_tput tsum_tdel intro: tsum_cong tsum_nonneg)

end
