(* ===== verification/Float64.thy ===== *)
theory Float64
  imports Prelude "HOL-Library.Log_Nat"
begin

text \<open>
  The \<open>double\<close> arithmetic of the contracts.  Compiled contract code runs on a
  software implementation of IEEE 754 binary64 with rounding to nearest, ties to
  even.  A value is either an exact rational or one of the special values; every
  operation computes exactly and rounds once.  The sign of a zero is not
  kept, so that a division by zero gives the infinity of the sign of the dividend;
  the storage contracts divide only by converted integers and by constants, which
  are never a negative zero.

  The conversions from \<open>double\<close> to a 64-bit integer are those of
  \<open>libraries/chain/wasm_interface.cpp\<close>, which abort execution out of range.
\<close>

datatype f64 = Fin rat | PInf | NInf | NaN

subsection \<open>Rounding to 53 significant bits\<close>

text \<open>Round a rational to the nearest integer, ties to even.\<close>

definition rne :: "rat \<Rightarrow> int" where
  "rne y = (let f = \<lfloor>y\<rfloor>; r = y - of_int f
            in if r < 1/2 then f else if 1/2 < r then f + 1 else if even f then f else f + 1)"

text \<open>The binary exponent of a positive rational: \<open>2^e \<le> x < 2^(e+1)\<close>.\<close>

definition expo :: "rat \<Rightarrow> int" where
  "expo x = (if 1 \<le> x then bitlen \<lfloor>x\<rfloor> - 1 else - bitlen (\<lceil>1 / x\<rceil> - 1))"

text \<open>The distance of neighbouring doubles at the magnitude of \<open>x\<close>; the least one is \<open>2^-1074\<close>.\<close>

definition ulp :: "rat \<Rightarrow> rat" where
  "ulp x = 2 powi (max (expo \<bar>x\<bar> - 52) (- 1074))"

definition rnd :: "rat \<Rightarrow> rat" where
  "rnd x = (if x = 0 then 0 else of_int (rne (x / ulp x)) * ulp x)"

definition f64_of_rat :: "rat \<Rightarrow> f64" where
  "f64_of_rat x = (let r = rnd x in
     if 2 ^ 1024 \<le> r then PInf else if r \<le> - (2 ^ 1024) then NInf else Fin r)"

definition f64_of_int :: "int \<Rightarrow> f64" where
  "f64_of_int n = f64_of_rat (of_int n)"

subsection \<open>Arithmetic\<close>

fun fneg :: "f64 \<Rightarrow> f64" where
  "fneg (Fin a) = Fin (- a)"
| "fneg PInf = NInf"
| "fneg NInf = PInf"
| "fneg NaN = NaN"

fun fadd :: "f64 \<Rightarrow> f64 \<Rightarrow> f64" where
  "fadd (Fin a) (Fin b) = f64_of_rat (a + b)"
| "fadd NaN _ = NaN"
| "fadd _ NaN = NaN"
| "fadd PInf NInf = NaN"
| "fadd NInf PInf = NaN"
| "fadd PInf _ = PInf"
| "fadd _ PInf = PInf"
| "fadd NInf _ = NInf"
| "fadd _ NInf = NInf"

definition fsub :: "f64 \<Rightarrow> f64 \<Rightarrow> f64" where
  "fsub a b = fadd a (fneg b)"

text \<open>Infinity with the sign of the product of two signs; zero times infinity is not a number.\<close>

definition inf_of_sgn :: "rat \<Rightarrow> f64" where
  "inf_of_sgn s = (if 0 < s then PInf else if s < 0 then NInf else NaN)"

fun fsgn :: "f64 \<Rightarrow> rat" where
  "fsgn (Fin a) = sgn a"
| "fsgn PInf = 1"
| "fsgn NInf = - 1"
| "fsgn NaN = 0"

fun fmul :: "f64 \<Rightarrow> f64 \<Rightarrow> f64" where
  "fmul (Fin a) (Fin b) = f64_of_rat (a * b)"
| "fmul NaN _ = NaN"
| "fmul _ NaN = NaN"
| "fmul a b = inf_of_sgn (fsgn a * fsgn b)"

fun fdiv :: "f64 \<Rightarrow> f64 \<Rightarrow> f64" where
  "fdiv (Fin a) (Fin b) = (if b = 0 then inf_of_sgn a else f64_of_rat (a / b))"
| "fdiv NaN _ = NaN"
| "fdiv _ NaN = NaN"
| "fdiv (Fin a) _ = Fin 0"
| "fdiv PInf (Fin b) = (if b < 0 then NInf else PInf)"
| "fdiv NInf (Fin b) = (if b < 0 then PInf else NInf)"
| "fdiv _ _ = NaN"

text \<open>Comparisons; every comparison with NaN is false.\<close>

fun flt :: "f64 \<Rightarrow> f64 \<Rightarrow> bool" where
  "flt (Fin a) (Fin b) = (a < b)"
| "flt NaN _ = False"
| "flt _ NaN = False"
| "flt NInf b = (b \<noteq> NInf)"
| "flt (Fin a) b = (b = PInf)"
| "flt PInf _ = False"

definition fle :: "f64 \<Rightarrow> f64 \<Rightarrow> bool" where
  "fle a b = (flt a b \<or> (a = b \<and> a \<noteq> NaN))"

subsection \<open>Conversion to integers\<close>

text \<open>Truncation towards zero.\<close>

definition rtrunc :: "rat \<Rightarrow> int" where
  "rtrunc x = (if 0 \<le> x then \<lfloor>x\<rfloor> else \<lceil>x\<rceil>)"

definition f64_trunc_i64s :: "f64 \<Rightarrow> int result" where
  "f64_trunc_i64s af =
     (if fle (Fin 9223372036854775808) af \<or> flt af (Fin (- 9223372036854775808))
      then Inl (Wasm_trap ''Error, f64.convert_s/i64 overflow'')
      else case af of Fin a \<Rightarrow> Inr (rtrunc a)
           | _ \<Rightarrow> Inl (Wasm_trap ''Error, f64.convert_s/i64 unrepresentable''))"

definition f64_trunc_i64u :: "f64 \<Rightarrow> u64 result" where
  "f64_trunc_i64u af =
     (if fle (Fin 18446744073709551616) af \<or> fle af (Fin (- 1))
      then Inl (Wasm_trap ''Error, f64.convert_u/i64 overflow'')
      else case af of Fin a \<Rightarrow> Inr (word_of_int (rtrunc a))
           | _ \<Rightarrow> Inl (Wasm_trap ''Error, f64.convert_u/i64 unrepresentable''))"

subsection \<open>Square root\<close>

text \<open>The integer part of the square root, digit by digit in base four.\<close>

function isqrt :: "int \<Rightarrow> int" where
  "isqrt n = (if n \<le> 0 then 0
     else let r = 2 * isqrt (n div 4) in if (r + 1) * (r + 1) \<le> n then r + 1 else r)"
  by pat_completeness auto
termination
  by (relation "measure nat") auto

declare isqrt.simps [simp del]

text \<open>The integer nearest to the square root of a rational, ties to even.\<close>

definition sqrt_ne :: "rat \<Rightarrow> int" where
  "sqrt_ne y = (let s = isqrt \<lfloor>y\<rfloor>; h = (of_int s + 1/2) * (of_int s + 1/2)
     in if y < h then s else if h < y then s + 1 else if even s then s else s + 1)"

fun fsqrt :: "f64 \<Rightarrow> f64" where
  "fsqrt (Fin a) = (if a < 0 then NaN else if a = 0 then Fin 0
     else let e = expo a div 2 - 52
          in Fin (of_int (sqrt_ne (a / (2 powi e * 2 powi e))) * 2 powi e))"
| "fsqrt PInf = PInf"
| "fsqrt NInf = NaN"
| "fsqrt NaN = NaN"

subsection \<open>The exponent\<close>

lemma p2_pos [simp]: "(0::rat) < 2 powi e"
  by simp

lemma p2_nat: "0 \<le> e \<Longrightarrow> (2::rat) powi e = 2 ^ nat e"
  by (simp add: power_int_def)

lemma p2_Suc: "(2::rat) powi (e + 1) = 2 * 2 powi e"
  by (simp add: power_int_add)

lemma p2_mono: "a \<le> b \<Longrightarrow> (2::rat) powi a \<le> 2 powi b"
  by (simp add: power_int_increasing)

lemma expo_bounds:
  assumes "0 < x"
  shows "2 powi expo x \<le> x" and "x < 2 powi (expo x + 1)"
proof -
  have "2 powi expo x \<le> x \<and> x < 2 powi (expo x + 1)"
  proof (cases "1 \<le> x")
    case True
    let ?f = "\<lfloor>x\<rfloor>"
    have f: "0 < ?f" using True by simp
    have b0: "0 < bitlen ?f" using f bitlen_eq_zero_iff [of ?f] bitlen_nonneg [of ?f] by linarith
    have b: "2 ^ nat (bitlen ?f - 1) \<le> ?f" "?f < 2 ^ nat (bitlen ?f)"
      using bitlen_bounds [OF f] by auto
    have e: "expo x = bitlen ?f - 1" using True by (simp add: expo_def)
    have l: "(2::rat) powi expo x = of_int (2 ^ nat (bitlen ?f - 1))"
      using b0 by (simp add: e p2_nat)
    have u: "(2::rat) powi (expo x + 1) = of_int (2 ^ nat (bitlen ?f))"
      using b0 by (simp add: e p2_nat)
    have "of_int (2 ^ nat (bitlen ?f - 1)) \<le> x" using b(1) le_floor_iff by blast
    moreover have "x < of_int (2 ^ nat (bitlen ?f))" using b(2) floor_less_iff by blast
    ultimately show ?thesis using l u by simp
  next
    case False
    let ?c = "\<lceil>1 / x\<rceil> - 1"
    have "1 < 1 / x" using False assms by simp
    then have "1 < \<lceil>1 / x\<rceil>" by (metis less_ceiling_iff of_int_1)
    then have c: "0 < ?c" by simp
    let ?k = "bitlen ?c"
    have k0: "0 < ?k" using c bitlen_eq_zero_iff [of ?c] bitlen_nonneg [of ?c] by linarith
    have b: "2 ^ nat (?k - 1) \<le> ?c" "?c < 2 ^ nat ?k"
      using bitlen_bounds [OF c] by auto
    have e: "expo x = - ?k" using False by (simp add: expo_def)
    have "of_int (2 ^ nat (?k - 1)) < 1 / x" using b(1) less_ceiling_iff [of "2 ^ nat (?k - 1)" "1 / x"] by linarith
    then have "x < 1 / of_int (2 ^ nat (?k - 1))" using assms by (simp add: field_simps)
    moreover have "1 / x \<le> of_int (2 ^ nat ?k)" using b(2) ceiling_le_iff [of "1/x" "2 ^ nat ?k"] by linarith
    then have "1 / of_int (2 ^ nat ?k) \<le> x" using assms by (simp add: field_simps)
    moreover have "(2::rat) powi expo x = 1 / of_int (2 ^ nat ?k)"
      using k0 by (simp add: e power_int_minus p2_nat divide_inverse)
    moreover have "(2::rat) powi (expo x + 1) = 1 / of_int (2 ^ nat (?k - 1))"
    proof -
      have "expo x + 1 = - (?k - 1)" using e by simp
      then have "(2::rat) powi (expo x + 1) = inverse (2 powi (?k - 1))"
        by (simp only: power_int_minus)
      then show ?thesis using k0 by (simp add: p2_nat divide_inverse)
    qed
    ultimately show ?thesis by simp
  qed
  then show "2 powi expo x \<le> x" and "x < 2 powi (expo x + 1)" by auto
qed

lemma p2_less_imp: "(2::rat) powi a < 2 powi b \<Longrightarrow> a < b"
  using p2_mono [of b a] by (meson linorder_not_less)

lemma expo_unique:
  assumes "2 powi e \<le> x" and "x < 2 powi (e + 1)"
  shows "expo x = e"
proof -
  have x: "0 < x" using assms(1) p2_pos [of e] by linarith
  have "(2::rat) powi expo x < 2 powi (e + 1)" and "(2::rat) powi e < 2 powi (expo x + 1)"
    using expo_bounds [OF x] assms by linarith+
  then have "expo x < e + 1" and "e < expo x + 1" by (blast intro: p2_less_imp)+
  then show ?thesis by simp
qed

lemma expo_mono: "0 < x \<Longrightarrow> x \<le> y \<Longrightarrow> expo x \<le> expo y"
proof -
  assume "0 < x" "x \<le> y"
  then have "(2::rat) powi expo x < 2 powi (expo y + 1)"
    using expo_bounds [of x] expo_bounds [of y] by linarith
  then have "expo x < expo y + 1" by (rule p2_less_imp)
  then show ?thesis by simp
qed

subsection \<open>Rounding to an integer\<close>

lemma rne_of_int [simp]: "rne (of_int n) = n"
  by (simp add: rne_def Let_def)

lemma rne_cases: "rne y = \<lfloor>y\<rfloor> \<or> rne y = \<lfloor>y\<rfloor> + 1"
  by (simp add: rne_def Let_def)

lemma rne_error: "\<bar>of_int (rne y) - y\<bar> \<le> 1/2"
proof -
  have "of_int \<lfloor>y\<rfloor> \<le> y" "y < of_int \<lfloor>y\<rfloor> + 1" by linarith+
  then show ?thesis unfolding rne_def Let_def abs_if by (simp split: if_splits) linarith?
qed

lemma rne_mono: "x \<le> y \<Longrightarrow> rne x \<le> rne y"
proof (rule ccontr)
  assume le: "x \<le> y" and "\<not> rne x \<le> rne y"
  then have gt: "rne y + 1 \<le> rne x" by simp
  then have "of_int (rne y) + 1 \<le> (of_int (rne x) :: rat)" by linarith
  then have "x = y" using rne_error [of x] rne_error [of y] le by linarith
  then show False using gt by simp
qed

lemma rne_le_int: "y \<le> of_int n \<Longrightarrow> rne y \<le> n"
  using rne_mono [of y "of_int n"] by simp

lemma rne_ge_int: "of_int n \<le> y \<Longrightarrow> n \<le> rne y"
  using rne_mono [of "of_int n" y] by simp

lemma rne_minus: "rne (- y) = - rne y"
proof -
  have fl: "of_int \<lfloor>y\<rfloor> \<le> y" "y < of_int \<lfloor>y\<rfloor> + 1" by linarith+
  show ?thesis
  proof (cases "y = of_int \<lfloor>y\<rfloor>")
    case True
    then have "- y = of_int (- \<lfloor>y\<rfloor>)" by simp
    then show ?thesis using True by (metis rne_of_int)
  next
    case False
    then have "\<lfloor>- y\<rfloor> = - \<lfloor>y\<rfloor> - 1" using fl by (intro floor_unique) (simp_all, linarith+)
    then show ?thesis using fl by (auto simp: rne_def Let_def)
  qed
qed

subsection \<open>Rounding to a double\<close>

lemma ulp_pos [simp]: "0 < ulp x"
  by (simp add: ulp_def)

lemma ulp_minus [simp]: "ulp (- x) = ulp x"
  by (simp add: ulp_def)

lemma rnd_0 [simp]: "rnd 0 = 0"
  by (simp add: rnd_def)

lemma rnd_minus: "rnd (- x) = - rnd x"
  by (simp add: rnd_def rne_minus)

lemma rnd_error: "\<bar>rnd x - x\<bar> \<le> ulp x / 2"
proof (cases "x = 0")
  case True then show ?thesis by (simp add: less_imp_le)
next
  case False
  let ?u = "ulp x"
  have u: "0 < ?u" by simp
  have "rnd x - x = (of_int (rne (x / ?u)) - x / ?u) * ?u"
    using False u by (simp add: rnd_def field_simps less_imp_neq [symmetric])
  then have "\<bar>rnd x - x\<bar> = \<bar>of_int (rne (x / ?u)) - x / ?u\<bar> * ?u"
    by (simp add: abs_mult less_imp_le)
  then show ?thesis using mult_right_mono [OF rne_error [of "x / ?u"], of ?u] u by simp
qed

lemma ulp_le: "2 powi (- 1022) \<le> \<bar>x\<bar> \<Longrightarrow> ulp x \<le> \<bar>x\<bar> / 2 ^ 52"
proof -
  assume a: "2 powi (- 1022) \<le> \<bar>x\<bar>"
  have x: "0 < \<bar>x\<bar>" using a p2_pos [of "-1022"] by linarith
  have "(2::rat) powi (- 1022) < 2 powi (expo \<bar>x\<bar> + 1)" using a expo_bounds(2) [OF x] by linarith
  then have "- 1022 < expo \<bar>x\<bar> + 1" by (rule p2_less_imp)
  then have "- 1022 \<le> expo \<bar>x\<bar>" by simp
  then have "ulp x = 2 powi (expo \<bar>x\<bar> - 52)" by (simp add: ulp_def)
  also have "\<dots> = 2 powi expo \<bar>x\<bar> / 2 ^ 52" by (simp add: power_int_diff)
  also have "\<dots> \<le> \<bar>x\<bar> / 2 ^ 52" using expo_bounds(1) [OF x] by (simp add: divide_right_mono)
  finally show ?thesis .
qed

lemma rnd_rel_error:
  assumes "2 powi (- 1022) \<le> \<bar>x\<bar>"
  shows "\<bar>rnd x - x\<bar> \<le> \<bar>x\<bar> / 2 ^ 53"
  using rnd_error [of x] ulp_le [OF assms] by simp

lemma rnd_nonneg: "0 \<le> x \<Longrightarrow> 0 \<le> rnd x"
proof -
  assume "0 \<le> x"
  then have "0 \<le> x / ulp x" by (simp add: divide_nonneg_pos)
  then have "0 \<le> rne (x / ulp x)" using rne_ge_int [of 0] by simp
  then show ?thesis by (simp add: rnd_def less_imp_le)
qed

lemma rnd_nonpos: "x \<le> 0 \<Longrightarrow> rnd x \<le> 0"
  using rnd_nonneg [of "- x"] by (simp add: rnd_minus)

lemma rnd_on_grid: "x = of_int m * ulp x \<Longrightarrow> rnd x = x"
proof -
  assume x: "x = of_int m * ulp x"
  have "x / ulp x = of_int m" using x ulp_pos [of x] by (metis less_irrefl nonzero_mult_div_cancel_right)
  then show ?thesis using x by (simp add: rnd_def)
qed

lemma rnd_exact_strict:
  assumes m: "\<bar>m\<bar> < 2 ^ 53" and k: "- 1074 \<le> k" and x: "x = of_int m * 2 powi k"
  shows "rnd x = x"
proof (cases "m = 0")
  case True then show ?thesis using x by simp
next
  case False
  have ax: "\<bar>x\<bar> = of_int \<bar>m\<bar> * 2 powi k" using x by (simp add: abs_mult)
  have x0: "0 < \<bar>x\<bar>" using False ax by simp
  have "(of_int \<bar>m\<bar> :: rat) < of_int (2 ^ 53)" using m of_int_less_iff by blast
  then have "\<bar>x\<bar> < 2 ^ 53 * 2 powi k" using ax by (simp add: mult_strict_right_mono)
  also have "\<dots> = 2 powi (53 + k)" by (simp add: power_int_add)
  finally have "(2::rat) powi expo \<bar>x\<bar> < 2 powi (53 + k)"
    using expo_bounds(1) [OF x0] by linarith
  then have "expo \<bar>x\<bar> < 53 + k" by (rule p2_less_imp)
  then have j: "max (expo \<bar>x\<bar> - 52) (- 1074) \<le> k" (is "?j \<le> k") using k by simp
  have "(2::rat) powi k = 2 powi (k - ?j) * 2 powi ?j"
    by (metis diff_add_cancel power_int_add zero_neq_numeral)
  then have "x = of_int (m * 2 ^ nat (k - ?j)) * ulp x"
    using x j by (simp add: ulp_def p2_nat)
  then show ?thesis by (rule rnd_on_grid)
qed

lemma rnd_exact:
  assumes m: "\<bar>m\<bar> \<le> 2 ^ 53" and k: "- 1074 \<le> k" and x: "x = of_int m * 2 powi k"
  shows "rnd x = x"
proof (cases "\<bar>m\<bar> = 2 ^ 53")
  case False then show ?thesis using m k x by (intro rnd_exact_strict [of m k]) auto
next
  case True
  define m' :: int where "m' = sgn m * 2 ^ 52"
  have "m = 2 * m'" using True by (auto simp: m'_def abs_if sgn_if split: if_splits)
  then have "x = of_int m' * 2 powi (k + 1)" using x by (simp add: p2_Suc)
  moreover have "\<bar>m'\<bar> < 2 ^ 53" by (simp add: m'_def abs_mult sgn_if)
  ultimately show ?thesis using k by (intro rnd_exact_strict [of m' "k + 1"]) auto
qed

lemma rnd_of_int: "\<bar>n\<bar> \<le> 2 ^ 53 \<Longrightarrow> rnd (of_int n) = of_int n"
  by (rule rnd_exact [of n 0]) simp_all

lemma rnd_numeral: "(numeral w :: int) \<le> 2 ^ 53 \<Longrightarrow> rnd (numeral w) = numeral w"
  using rnd_of_int [of "numeral w"] by simp

lemma rnd_p2: "- 1074 \<le> e \<Longrightarrow> rnd (2 powi e) = 2 powi e"
  by (rule rnd_exact [of 1 e]) simp_all

lemma ulp_mono: "0 < x \<Longrightarrow> x \<le> y \<Longrightarrow> ulp x \<le> ulp y"
  using expo_mono [of x y] by (auto simp: ulp_def intro!: p2_mono)

lemma grid_p2: "0 < x \<Longrightarrow> expo x \<le> e \<Longrightarrow> - 1074 \<le> e \<Longrightarrow> \<exists>n. 2 powi e = of_int n * ulp x"
proof -
  assume "0 < x" "expo x \<le> e" "- 1074 \<le> e"
  let ?j = "max (expo x - 52) (- 1074)"
  have "(2::rat) powi e = 2 powi (e - ?j) * 2 powi ?j"
    by (metis diff_add_cancel power_int_add zero_neq_numeral)
  then have "2 powi e = of_int (2 ^ nat (e - ?j)) * ulp x"
    using \<open>0 < x\<close> \<open>expo x \<le> e\<close> \<open>- 1074 \<le> e\<close> by (simp add: ulp_def p2_nat)
  then show ?thesis by blast
qed

lemma rnd_le_p2:
  assumes "0 < x" and "x \<le> 2 powi e" and "- 1074 \<le> e"
  shows "rnd x \<le> 2 powi e"
proof -
  have "(2::rat) powi expo x < 2 powi (e + 1)"
    using expo_bounds(1) [OF assms(1)] assms(2) p2_pos [of e] unfolding p2_Suc by linarith
  then have "expo x < e + 1" by (rule p2_less_imp)
  then obtain n where n: "2 powi e = of_int n * ulp x" using grid_p2 [OF assms(1)] assms(3) by force
  have "x / ulp x \<le> of_int n" using assms(2) n by (simp add: divide_le_eq)
  then have "rne (x / ulp x) \<le> n" by (rule rne_le_int)
  then have "of_int (rne (x / ulp x)) * ulp x \<le> of_int n * ulp x" by (simp add: mult_right_mono less_imp_le)
  then show ?thesis using n assms(1) by (simp add: rnd_def)
qed

lemma rnd_ge_p2:
  assumes "0 < y" and "- 1074 \<le> expo y"
  shows "2 powi expo y \<le> rnd y"
proof -
  obtain n where n: "2 powi expo y = of_int n * ulp y" using grid_p2 [OF assms(1) order_refl assms(2)] by blast
  have "of_int n \<le> y / ulp y" using expo_bounds(1) [OF assms(1)] n by (simp add: le_divide_eq)
  then have "n \<le> rne (y / ulp y)" by (rule rne_ge_int)
  then have "of_int n * ulp y \<le> of_int (rne (y / ulp y)) * ulp y" by (simp add: mult_right_mono less_imp_le)
  then show ?thesis using n assms(1) by (simp add: rnd_def)
qed

lemma rnd_mono_pos:
  assumes "0 < x" and "x \<le> y"
  shows "rnd x \<le> rnd y"
proof (cases "ulp x = ulp y")
  case True
  have "x / ulp y \<le> y / ulp y" using assms(2) by (simp add: divide_right_mono less_imp_le)
  then have "rne (x / ulp y) \<le> rne (y / ulp y)" by (rule rne_mono)
  then show ?thesis using assms True by (simp add: rnd_def mult_right_mono less_imp_le)
next
  case False
  have y: "0 < y" using assms by linarith
  have e: "expo x \<le> expo y" using expo_mono assms by blast
  have "max (expo x - 52) (- 1074) \<noteq> max (expo y - 52) (- 1074)"
    using False assms(1) y unfolding ulp_def by (metis abs_of_pos)
  then have lt: "max (expo x - 52) (- 1074) < max (expo y - 52) (- 1074)" using e by linarith
  then have ey: "- 1074 \<le> expo y" and exy: "expo x + 1 \<le> expo y" using e by auto
  have "x \<le> 2 powi expo y" using expo_bounds(2) [OF assms(1)] p2_mono [OF exy] by linarith
  then have "rnd x \<le> 2 powi expo y" using rnd_le_p2 assms(1) ey by blast
  also have "\<dots> \<le> rnd y" using rnd_ge_p2 [OF y ey] .
  finally show ?thesis .
qed

lemma rnd_mono: "x \<le> y \<Longrightarrow> rnd x \<le> rnd y"
proof -
  assume le: "x \<le> y"
  consider "0 < x" | "x \<le> 0" "0 \<le> y" | "y < 0" by linarith
  then show ?thesis
  proof cases
    case 1 then show ?thesis using rnd_mono_pos le by blast
  next
    case 2 then show ?thesis using rnd_nonpos rnd_nonneg order_trans by blast
  next
    case 3 then show ?thesis using rnd_mono_pos [of "- y" "- x"] le by (simp add: rnd_minus)
  qed
qed

lemma rnd_le_int: "x \<le> of_int n \<Longrightarrow> \<bar>n\<bar> \<le> 2 ^ 53 \<Longrightarrow> rnd x \<le> of_int n"
  using rnd_mono [of x "of_int n"] rnd_of_int [of n] by simp

lemma rnd_ge_int: "of_int n \<le> x \<Longrightarrow> \<bar>n\<bar> \<le> 2 ^ 53 \<Longrightarrow> of_int n \<le> rnd x"
  using rnd_mono [of "of_int n" x] rnd_of_int [of n] by simp

lemma f64_of_rat_Fin:
  assumes "\<bar>x\<bar> \<le> 2 ^ 1000"
  shows "f64_of_rat x = Fin (rnd x)"
proof -
  have p: "rnd (2 ^ 1000) = 2 ^ 1000" using rnd_p2 [of 1000] by simp
  have "rnd x \<le> 2 ^ 1000" using rnd_mono [of x "2 ^ 1000"] assms p by linarith
  moreover have "- (2 ^ 1000) \<le> rnd x"
    using rnd_mono [of "- (2 ^ 1000)" x] assms p rnd_minus [of "2 ^ 1000"] by linarith
  moreover have "(2::rat) ^ 1000 < 2 ^ 1024" by (intro power_strict_increasing) simp_all
  ultimately show ?thesis unfolding f64_of_rat_def Let_def by auto
qed

lemma f64_of_int_exact: "\<bar>n\<bar> \<le> 2 ^ 53 \<Longrightarrow> f64_of_int n = Fin (of_int n)"
proof -
  assume n: "\<bar>n\<bar> \<le> 2 ^ 53"
  have "\<bar>of_int n :: rat\<bar> \<le> of_int (2 ^ 53)" using n of_int_le_iff by (metis of_int_abs)
  then have "\<bar>of_int n :: rat\<bar> \<le> 2 ^ 1000" by (rule order_trans) simp
  then show ?thesis using n by (simp add: f64_of_int_def f64_of_rat_Fin rnd_of_int)
qed

lemma f64_of_numeral: "numeral k \<le> (2 :: int) ^ 53 \<Longrightarrow> f64_of_rat (numeral k) = Fin (numeral k)" "f64_of_rat 1 = Fin 1"
  using f64_of_int_exact [of "numeral k"] f64_of_int_exact [of 1] by (simp_all add: f64_of_int_def)


text \<open>Evaluation of a rounding at a fraction of two integers, with the scale given.\<close>

definition rne_div :: "int \<Rightarrow> int \<Rightarrow> int" where
  "rne_div a b = (let q = a div b; r = a mod b
     in if 2 * r < b then q else if b < 2 * r then q + 1 else if even q then q else q + 1)"

lemma rne_frac: "0 < b \<Longrightarrow> rne (of_int a / of_int b) = rne_div a b"
proof -
  assume b: "0 < b"
  have f: "\<lfloor>of_int a / of_int b :: rat\<rfloor> = a div b" by (rule floor_divide_of_int_eq)
  have "(of_int a :: rat) = of_int (a div b) * of_int b + of_int (a mod b)"
    by (metis div_mult_mod_eq of_int_add of_int_mult)
  then have r: "(of_int a / of_int b :: rat) - of_int (a div b) = of_int (a mod b) / of_int b"
    using b by (simp add: field_simps)
  have "((of_int (a mod b) / of_int b :: rat) < 1/2) = ((of_int (2 * (a mod b)) :: rat) < of_int b)"
    and "(1/2 < (of_int (a mod b) / of_int b :: rat)) = ((of_int b :: rat) < of_int (2 * (a mod b)))"
    using b by (simp_all add: field_simps)
  then have "((of_int (a mod b) / of_int b :: rat) < 1/2) = (2 * (a mod b) < b)"
    and "(1/2 < (of_int (a mod b) / of_int b :: rat)) = (b < 2 * (a mod b))"
    by (simp_all only: of_int_less_iff)
  then show ?thesis unfolding rne_def rne_div_def Let_def f r by simp
qed

lemma rnd_scaled:
  assumes "0 < x" and "- 1074 \<le> e" and "2 ^ 52 * 2 powi e \<le> x" and "x < 2 ^ 53 * 2 powi e"
  shows "rnd x = of_int (rne (x / 2 powi e)) * 2 powi e"
proof -
  have "2 powi (e + 52) \<le> x" and "x < 2 powi (e + 52 + 1)"
    using assms by (simp_all add: power_int_add mult.commute)
  then have "expo x = e + 52" by (rule expo_unique)
  then show ?thesis using assms by (simp add: rnd_def ulp_def)
qed

lemma rnd_frac_small:
  assumes "0 < n" and "0 < d" and "k \<le> 1074"
    and "2 ^ 52 * d \<le> n * 2 ^ k" and "n * 2 ^ k < 2 ^ 53 * d"
  shows "rnd (of_int n / of_int d) = of_int (rne_div (n * 2 ^ k) d) / 2 ^ k"
proof -
  let ?x = "of_int n / of_int d :: rat"
  have p: "(2::rat) powi (- int k) = 1 / 2 ^ k" by (simp add: power_int_minus divide_inverse)
  have "of_int (2 ^ 52 * d) \<le> (of_int (n * 2 ^ k) :: rat)" and "of_int (n * 2 ^ k) < (of_int (2 ^ 53 * d) :: rat)"
    using assms(4,5) of_int_le_iff of_int_less_iff by blast+
  then have "2 ^ 52 * 2 powi (- int k) \<le> ?x" and "?x < 2 ^ 53 * 2 powi (- int k)"
    using assms(2) unfolding p by (simp_all add: field_simps)
  then have "rnd ?x = of_int (rne (?x / 2 powi (- int k))) * 2 powi (- int k)"
    using assms by (intro rnd_scaled) auto
  moreover have "?x / 2 powi (- int k) = of_int (n * 2 ^ k) / of_int d" unfolding p by simp
  ultimately show ?thesis using rne_frac [OF assms(2), of "n * 2 ^ k"] p by simp
qed

lemma rnd_frac_large:
  assumes "0 < n" and "0 < d" and "2 ^ 52 * d * 2 ^ k \<le> n" and "n < 2 ^ 53 * d * 2 ^ k"
  shows "rnd (of_int n / of_int d) = of_int (rne_div n (d * 2 ^ k)) * 2 ^ k"
proof -
  let ?x = "of_int n / of_int d :: rat"
  have p: "(2::rat) powi int k = 2 ^ k" by simp
  have "of_int (2 ^ 52 * d * 2 ^ k) \<le> (of_int n :: rat)" and "of_int n < (of_int (2 ^ 53 * d * 2 ^ k) :: rat)"
    using assms(3,4) of_int_le_iff of_int_less_iff by blast+
  then have "2 ^ 52 * 2 powi int k \<le> ?x" and "?x < 2 ^ 53 * 2 powi int k"
    using assms(2) unfolding p by (simp_all add: field_simps)
  then have "rnd ?x = of_int (rne (?x / 2 powi int k)) * 2 powi int k"
    using assms by (intro rnd_scaled) auto
  moreover have "?x / 2 powi int k = of_int n / of_int (d * 2 ^ k)" unfolding p by simp
  ultimately show ?thesis using rne_frac [of "d * 2 ^ k" n] assms(2) p by simp
qed

lemma f64_tenth: "f64_of_rat (1/10) = Fin (3602879701896397 / 36028797018963968)"
  using rnd_frac_small [of 1 10 56] by (simp add: f64_of_rat_Fin rne_div_def)

subsection \<open>Absolute error and truncation\<close>

text \<open>The rounding error of a value of magnitude at most \<open>2^k\<close>.\<close>

lemma rnd_abs_error:
  assumes "\<bar>x\<bar> \<le> 2 ^ k"
  shows "\<bar>rnd x - x\<bar> \<le> 2 ^ k / 2 ^ 53"
proof (cases "x = 0 \<or> \<bar>x\<bar> = 2 ^ k")
  case True
  have "rnd (2 ^ k) = 2 ^ k" using rnd_p2 [of "int k"] by simp
  then have "rnd x = x" using True rnd_minus [of "2 ^ k"] by (auto simp: abs_if rnd_0 split: if_splits) (metis minus_equation_iff)
  then show ?thesis by simp
next
  case False
  then have lt: "\<bar>x\<bar> < 2 powi int k" and pos: "0 < \<bar>x\<bar>" using assms by auto
  have "(2::rat) powi expo \<bar>x\<bar> < 2 powi int k" using expo_bounds(1) [OF pos] lt by linarith
  then have "expo \<bar>x\<bar> < int k" by (rule p2_less_imp)
  then have "ulp x \<le> 2 powi (int k - 53)" unfolding ulp_def by (intro p2_mono) auto
  moreover have "(2::rat) powi (int k - 53) = 2 ^ k / 2 ^ 53" by (simp add: power_int_diff)
  ultimately show ?thesis using rnd_error [of x] ulp_pos [of x] by linarith
qed

lemma f64_trunc_i64s_Fin [simp]:
  "- 9223372036854775808 \<le> x \<Longrightarrow> x < 9223372036854775808 \<Longrightarrow> f64_trunc_i64s (Fin x) = Inr (rtrunc x)"
  by (auto simp: f64_trunc_i64s_def fle_def)

lemma f64_trunc_i64u_Fin [simp]:
  "- 1 < x \<Longrightarrow> x < 18446744073709551616 \<Longrightarrow> f64_trunc_i64u (Fin x) = Inr (word_of_int (rtrunc x))"
  by (auto simp: f64_trunc_i64u_def fle_def)

lemma rtrunc_bounds: "0 \<le> x \<Longrightarrow> x < of_int n + 1 \<Longrightarrow> 0 \<le> rtrunc x \<and> rtrunc x \<le> n"
  by (simp add: rtrunc_def) linarith

lemma rtrunc_of_int [simp]: "rtrunc (of_int n) = n"
  by (simp add: rtrunc_def)

lemma rtrunc_mono: "x \<le> y \<Longrightarrow> rtrunc x \<le> rtrunc y"
proof -
  assume le: "x \<le> y"
  have "\<not> 0 \<le> x \<Longrightarrow> 0 \<le> y \<Longrightarrow> \<lceil>x\<rceil> \<le> \<lfloor>y\<rfloor>" by (rule order_trans [of _ 0]) simp_all
  then show ?thesis using le by (simp add: rtrunc_def floor_mono ceiling_mono)
qed

lemma f64_of_int_nonneg:
  "0 \<le> n \<Longrightarrow> n \<le> 2 ^ 62 \<Longrightarrow> f64_of_int n = Fin (rnd (of_int n))"
proof -
  assume n: "0 \<le> n" "n \<le> 2 ^ 62"
  have "(of_int n :: rat) \<le> of_int (2 ^ 62)" using n(2) of_int_le_iff by blast
  then have "\<bar>of_int n :: rat\<bar> \<le> 2 ^ 1000" using n(1) by simp
  then show ?thesis by (simp add: f64_of_int_def f64_of_rat_Fin)
qed

subsection \<open>Correctness of the integer square root\<close>

lemma isqrt_bounds:
  "0 \<le> n \<Longrightarrow> 0 \<le> isqrt n \<and> isqrt n * isqrt n \<le> n \<and> n < (isqrt n + 1) * (isqrt n + 1)"
proof (induction n rule: isqrt.induct)
  case (1 n)
  show ?case
  proof (cases "n \<le> 0")
    case True then show ?thesis using "1.prems" by (simp add: isqrt.simps [of 0])
  next
    case False
    define q where "q = isqrt (n div 4)"
    have IH: "0 \<le> q" "q * q \<le> n div 4" "n div 4 < (q + 1) * (q + 1)"
      using "1.IH" False by (simp_all add: q_def)
    have n: "4 * (n div 4) \<le> n" "n < 4 * (n div 4) + 4" by simp_all
    have lo: "(2 * q) * (2 * q) \<le> n" using IH(2) n(1) by (simp add: algebra_simps)
    have "4 * (n div 4) + 4 \<le> 4 * ((q + 1) * (q + 1))" using IH(3) by linarith
    then have hi: "n < (2 * q + 2) * (2 * q + 2)" using n(2) by (simp add: algebra_simps)
    have r: "isqrt n = (if (2 * q + 1) * (2 * q + 1) \<le> n then 2 * q + 1 else 2 * q)"
      using False by (simp add: isqrt.simps [of n] q_def Let_def)
    have s: "2 * q + 1 + 1 = 2 * q + 2" by simp
    show ?thesis using lo hi IH(1) unfolding r by (cases "(2 * q + 1) * (2 * q + 1) \<le> n") (simp_all add: s)
  qed
qed

end
