(* ===== verification/System_Rows.thy ===== *)
theory System_Rows
  imports Asset Tables Float64
begin

text \<open>
  The rows of the tables of \<open>eosio.system\<close> (\<open>eosio.system.hpp\<close>, \<open>delegate_bandwidth.cpp\<close>,
  \<open>exchange_state.hpp\<close>, and \<open>privileged.hpp\<close> for the parameters of the chain), with the values
  that the constructors of the source give to their fields.
\<close>

text \<open>A public key is its type and its 33 bytes.\<close>

type_synonym public_key = "u32 \<times> u8 list"
type_synonym producer_key = "name \<times> public_key"

definition default_key :: public_key where
  "default_key = (0, replicate 33 0)"

subsection \<open>Voters and producers\<close>

record voter_info =
  vi_proxy :: name
  vi_producers :: "name list"
  vi_staked :: int
  vi_last_vote_weight :: f64
  vi_proxied_vote_weight :: f64
  vi_is_proxy :: bool

record producer_info =
  pi_total_votes :: f64
  pi_producer_key :: public_key
  pi_is_active :: bool
  pi_url :: string
  pi_unpaid_blocks :: u32
  pi_last_claim_time :: u64
  pi_location :: u16

record producer_info_ext =
  px_seq_num :: u16
  px_level :: u8
  px_unpaid_base_cnt :: u32
  px_unpaid_amount :: int
  px_shadow :: name

record yta_prod_info =
  yp_owner :: name
  yp_total_votes :: f64
  yp_producer_key :: public_key
  yp_is_active :: bool
  yp_location :: u16
  yp_is_in_grace :: bool
  yp_grace_start_time :: u64

record all_prods_level =
  prods_l1 :: "yta_prod_info list"
  prods_l2 :: "yta_prod_info list"

definition voter_default :: voter_info where
  "voter_default = \<lparr>vi_proxy = 0, vi_producers = [], vi_staked = 0, vi_last_vote_weight = Fin 0,
     vi_proxied_vote_weight = Fin 0, vi_is_proxy = False\<rparr>"

definition all_prods_default :: all_prods_level where
  "all_prods_default = \<lparr>prods_l1 = [], prods_l2 = []\<rparr>"

subsection \<open>Global state\<close>

record blockchain_parameters =
  max_block_net_usage :: u64
  target_block_net_usage_pct :: u32
  max_transaction_net_usage :: u32
  base_per_transaction_net_usage :: u32
  net_usage_leeway :: u32
  context_free_discount_net_usage_num :: u32
  context_free_discount_net_usage_den :: u32
  max_block_cpu_usage :: u32
  target_block_cpu_usage_pct :: u32
  max_transaction_cpu_usage :: u32
  min_transaction_cpu_usage :: u32
  max_transaction_lifetime :: u32
  deferred_trx_expiration_window :: u32
  max_transaction_delay :: u32
  max_inline_action_size :: u32
  max_inline_action_depth :: u16
  max_authority_depth :: u16

record eosio_global_state =
  gs_params :: blockchain_parameters
  max_ram_size :: u64
  total_ram_bytes_reserved :: u64
  total_ram_stake :: int
  last_producer_schedule_update :: u32
  last_pervote_bucket_fill :: u64
  pervote_bucket :: int
  perblock_bucket :: int
  total_unpaid_blocks :: u32
  total_activated_stake :: int
  thresh_activated_stake_time :: u64
  last_producer_schedule_size :: u16
  total_producer_vote_weight :: f64
  last_name_close :: u32

record eosio_global_state2 =
  perbase_bucket :: int
  total_unpaid_base_cnt :: u32
  g2_last_claim_time :: u64

record eosio_global_state3 =
  is_schedule :: bool
  min_l1 :: u8
  max_l2 :: u8

definition global_default :: "blockchain_parameters \<Rightarrow> eosio_global_state" where
  "global_default p = \<lparr>gs_params = p, max_ram_size = 68719476736, total_ram_bytes_reserved = 0, total_ram_stake = 0,
     last_producer_schedule_update = 0, last_pervote_bucket_fill = 0, pervote_bucket = 0, perblock_bucket = 0,
     total_unpaid_blocks = 0, total_activated_stake = 0, thresh_activated_stake_time = 0,
     last_producer_schedule_size = 0, total_producer_vote_weight = Fin 0, last_name_close = 0\<rparr>"

definition global2_default :: eosio_global_state2 where
  "global2_default = \<lparr>perbase_bucket = 0, total_unpaid_base_cnt = 0, g2_last_claim_time = 0\<rparr>"

definition global3_default :: eosio_global_state3 where
  "global3_default = \<lparr>is_schedule = False, min_l1 = 15, max_l2 = 0\<rparr>"

subsection \<open>Resources, bids and the market for RAM\<close>

record user_resources =
  ur_net_weight :: asset
  ur_cpu_weight :: asset
  ram_bytes :: int

record delegated_bandwidth =
  db_net_weight :: asset
  db_cpu_weight :: asset

record refund_request =
  request_time :: u32
  net_amount :: asset
  cpu_amount :: asset

record name_bid =
  high_bidder :: name
  high_bid :: int
  last_bid_time :: u64

record connector =
  cn_balance :: asset
  cn_weight :: f64

record exchange_state =
  ex_supply :: asset
  ex_base :: connector
  ex_quote :: connector

definition core_zero :: asset where
  "core_zero = \<lparr>amount = 0, symbol = CORE_SYMBOL\<rparr>"

definition user_resources_default :: user_resources where
  "user_resources_default = \<lparr>ur_net_weight = core_zero, ur_cpu_weight = core_zero, ram_bytes = 0\<rparr>"

end
