(* ===== verification/Float_Bounds.thy ===== *)
theory Float_Bounds
  imports Float64
begin

text \<open>
  Bounds for double precision computations: values of 64-bit integers, products
  and quotients of non-negative numbers, and the integer part of a scaled amount.
  The contracts compute amounts in floating point, and these lemmas are what the
  statements about them rest on.
\<close>

subsection \<open>Conversions\<close>

lemma f64_of_int_Fin: "\<bar>n\<bar> \<le> 2 ^ 64 \<Longrightarrow> f64_of_int n = Fin (rnd (of_int n))"
proof -
  assume "\<bar>n\<bar> \<le> 2 ^ 64"
  then have "\<bar>of_int n :: rat\<bar> \<le> of_int (2 ^ 64)" using of_int_le_iff by (metis of_int_abs)
  then have "\<bar>of_int n :: rat\<bar> \<le> 2 ^ 1000" by (rule order_trans) simp
  then show ?thesis by (simp add: f64_of_int_def f64_of_rat_Fin)
qed

lemma rnd_le_pow2: "x \<le> 2 ^ k \<Longrightarrow> rnd x \<le> 2 ^ k"
  using rnd_mono [of x "2 ^ k"] rnd_p2 [of "int k"] by simp

lemma rnd_ge_neg_pow2: "- (2 ^ k) \<le> x \<Longrightarrow> - (2 ^ k) \<le> rnd x"
  using rnd_le_pow2 [of "- x" k] rnd_minus [of x] by simp

lemma rnd_ge_1: "1 \<le> x \<Longrightarrow> 1 \<le> rnd x"
  using rnd_ge_int [of 1 x] by simp

lemma rnd_le_1: "x \<le> 1 \<Longrightarrow> rnd x \<le> 1"
  using rnd_le_int [of x 1] by simp

lemma rat_of_u64:
  "0 \<le> (of_int (uint (x :: u64)) :: rat)" "(of_int (uint (x :: u64)) :: rat) \<le> 2 ^ 64"
proof -
  show "0 \<le> (of_int (uint x) :: rat)" by simp
  have "uint x \<le> 2 ^ 64" using uint_u64_bounds(2) [of x] by simp
  then have "(of_int (uint x) :: rat) \<le> of_int (2 ^ 64)" using of_int_le_iff by blast
  then show "(of_int (uint x) :: rat) \<le> 2 ^ 64" by simp
qed

lemma f64_of_uint:
  "f64_of_int (uint (x :: u64)) = Fin (rnd (of_int (uint x)))"
  "0 \<le> rnd (of_int (uint (x :: u64)))" "rnd (of_int (uint (x :: u64))) \<le> 2 ^ 64"
proof -
  show "f64_of_int (uint x) = Fin (rnd (of_int (uint x)))"
    using uint_u64_bounds [of x] by (intro f64_of_int_Fin) simp
  show "0 \<le> rnd (of_int (uint x))" using rat_of_u64 by (intro rnd_nonneg)
  show "rnd (of_int (uint x)) \<le> 2 ^ 64" using rat_of_u64 by (intro rnd_le_pow2)
qed

lemma rnd_uint_pos: "x \<noteq> 0 \<Longrightarrow> 1 \<le> rnd (of_int (uint (x :: u64)))"
proof -
  assume "x \<noteq> 0"
  then have "uint x \<noteq> 0" by (simp add: uint_0_iff)
  then have "1 \<le> uint x" using uint_u64_bounds(1) [of x] by linarith
  then have "(1 :: rat) \<le> of_int (uint x)" using of_int_le_iff [of 1 "uint x"] by simp
  then show ?thesis by (rule rnd_ge_1)
qed

lemma f64_small [simp]: "f64_of_int 1 = Fin 1" "f64_of_int 20 = Fin 20" "f64_of_int 60 = Fin 60"
  "f64_of_int 100 = Fin 100" "f64_of_int 10000 = Fin 10000" "f64_of_int 100000000 = Fin 100000000"
  "f64_of_int 65536 = Fin 65536" "f64_of_int 86400000 = Fin 86400000"
  using f64_of_int_exact [of 1] f64_of_int_exact [of 20] f64_of_int_exact [of 60] f64_of_int_exact [of 100]
    f64_of_int_exact [of 10000] f64_of_int_exact [of 100000000] f64_of_int_exact [of 65536]
    f64_of_int_exact [of 86400000] by simp_all

subsection \<open>Scaling by a fraction below one\<close>

text \<open>
  The product of a non-negative amount below \<open>2^52\<close> and a constant between zero and
  one is truncated to an amount between zero and the factor.
\<close>

lemma rnd_01: "0 \<le> r \<Longrightarrow> r \<le> 1 \<Longrightarrow> 0 \<le> rnd r \<and> rnd r \<le> 1"
  using rnd_nonneg [of r] rnd_le_1 [of r] by simp

lemma f64_of_rat_01: "0 \<le> r \<Longrightarrow> r \<le> 1 \<Longrightarrow> f64_of_rat r = Fin (rnd r)"
  by (intro f64_of_rat_Fin) (simp add: order_trans [OF _ one_le_power])

lemma trunc_scaled:
  assumes a: "0 \<le> a" "a \<le> 2 ^ 53" and r: "0 \<le> r" "r \<le> 1"
  shows "\<exists>x. f64_trunc_i64s (fmul (f64_of_int a) (f64_of_rat r)) = Inr x \<and> 0 \<le> x \<and> x \<le> a"
proof -
  let ?y = "of_int a * rnd r"
  have r': "0 \<le> rnd r" "rnd r \<le> 1" using rnd_01 r by simp_all
  have A: "0 \<le> (of_int a :: rat)" "(of_int a :: rat) \<le> 2 ^ 53"
    using a of_int_le_iff [of a "2 ^ 53"] by simp_all
  have y: "0 \<le> ?y" "?y \<le> of_int a"
    using r' A mult_left_mono [of "rnd r" 1 "of_int a"] by simp_all
  have fin: "\<bar>?y\<bar> \<le> 2 ^ 1000" using y A by simp
  have lo: "0 \<le> rnd ?y" using y by (intro rnd_nonneg)
  have hi: "rnd ?y \<le> of_int a" using y a by (intro rnd_le_int) simp_all
  have "f64_trunc_i64s (fmul (f64_of_int a) (f64_of_rat r)) = Inr (rtrunc (rnd ?y))"
    using a r fin lo hi A by (simp add: f64_of_int_exact f64_of_rat_01 f64_of_rat_Fin)
  then show ?thesis using rtrunc_bounds [of "rnd ?y" a] lo hi by auto
qed

subsection \<open>Accumulated relative errors\<close>

text \<open>\<open>near k x e\<close>: the value \<open>x\<close> was computed for the exact value \<open>e\<close> with \<open>k\<close> roundings.\<close>

definition near :: "nat \<Rightarrow> rat \<Rightarrow> rat \<Rightarrow> bool" where
  "near k x e \<longleftrightarrow> e * (1 - 1 / 2 ^ 53) ^ k \<le> x \<and> x \<le> e * (1 + 1 / 2 ^ 53) ^ k"

lemma near_refl: "near 0 e e"
  by (simp add: near_def)

lemma near_mult:
  assumes "near j x e" "near k y g" "0 \<le> e" "0 \<le> g"
  shows "near (j + k) (x * y) (e * g)"
proof -
  have x: "0 \<le> x" using assms(1,3) order_trans [of 0 "e * (1 - 1 / 2 ^ 53) ^ j" x] by (simp add: near_def)
  have y: "0 \<le> y" using assms(2,4) order_trans [of 0 "g * (1 - 1 / 2 ^ 53) ^ k" y] by (simp add: near_def)
  have "(e * (1 - 1 / 2 ^ 53) ^ j) * (g * (1 - 1 / 2 ^ 53) ^ k) \<le> x * y"
    using assms x by (intro mult_mono) (simp_all add: near_def)
  moreover have "x * y \<le> (e * (1 + 1 / 2 ^ 53) ^ j) * (g * (1 + 1 / 2 ^ 53) ^ k)"
    using assms x y by (intro mult_mono) (simp_all add: near_def)
  ultimately show ?thesis by (simp add: near_def power_add mult_ac)
qed

lemma near_div:
  assumes "near k x e" "0 < c"
  shows "near k (x / c) (e / c)"
  using assms by (auto simp: near_def field_simps)

lemma near_rnd:
  assumes n: "near k x e" and e: "e = 0 \<or> 2 powi (- 100) \<le> e" and k: "k \<le> 8"
  shows "near (Suc k) (rnd x) e"
proof (cases "e = 0")
  case True
  then have "x = 0" using n by (simp add: near_def)
  then show ?thesis using True by (simp add: near_def)
next
  case False
  have e: "(2::rat) powi (- 100) \<le> e" using e False by simp
  have e0: "0 < e" using e p2_pos [of "- 100"] by linarith
  have "(1 - 1 / 2 ^ 53 :: rat) ^ 8 \<le> (1 - 1 / 2 ^ 53) ^ k" using k by (intro power_decreasing) simp_all
  then have "(1 / 2 :: rat) \<le> (1 - 1 / 2 ^ 53) ^ k" by (rule order_trans [rotated]) (simp add: power_divide)
  then have "e * (1 / 2) \<le> e * (1 - 1 / 2 ^ 53) ^ k" using e0 by (intro mult_left_mono) simp_all
  then have x2: "e / 2 \<le> x" using n by (simp add: near_def)
  have "(2::rat) powi (- 1022) \<le> 2 powi (- 101)" by (rule p2_mono) simp
  also have "\<dots> = 2 powi (- 100) / 2" using p2_Suc [of "- 101"] by simp
  also have "\<dots> \<le> e / 2" using e by simp
  finally have nx: "2 powi (- 1022) \<le> x" using x2 by linarith
  have x0: "0 < x" using x2 e0 by simp
  have "\<bar>rnd x - x\<bar> \<le> x / 2 ^ 53" using rnd_rel_error [of x] nx x0 by simp
  then have "x - x / 2 ^ 53 \<le> rnd x" "rnd x \<le> x + x / 2 ^ 53" by linarith+
  then have "x * (1 - 1 / 2 ^ 53) \<le> rnd x" "rnd x \<le> x * (1 + 1 / 2 ^ 53)"
    by (simp_all add: algebra_simps)
  moreover have "e * (1 - 1 / 2 ^ 53) ^ k * (1 - 1 / 2 ^ 53) \<le> x * (1 - 1 / 2 ^ 53)"
    using n by (intro mult_right_mono) (simp_all add: near_def)
  moreover have "x * (1 + 1 / 2 ^ 53) \<le> e * (1 + 1 / 2 ^ 53) ^ k * (1 + 1 / 2 ^ 53)"
    using n by (intro mult_right_mono) (simp_all add: near_def)
  ultimately show ?thesis unfolding near_def power_Suc2 mult.assoc [symmetric] by linarith
qed

lemma near_weaken:
  assumes "near j x e" "j \<le> k" "0 \<le> e"
  shows "near k x e"
proof -
  have "e * (1 - 1 / 2 ^ 53) ^ k \<le> e * (1 - 1 / 2 ^ 53) ^ j" using assms by (intro mult_left_mono power_decreasing) simp_all
  moreover have "e * (1 + 1 / 2 ^ 53) ^ j \<le> e * (1 + 1 / 2 ^ 53) ^ k" using assms by (intro mult_left_mono power_increasing) simp_all
  ultimately show ?thesis using assms(1) unfolding near_def by linarith
qed

lemma near_error:
  assumes "near k x e" "k \<le> 7" "0 \<le> e"
  shows "\<bar>x - e\<bar> \<le> e / 2 ^ 50"
proof -
  have n: "near 7 x e" using assms by (rule near_weaken)
  have "(1 - 1 / 2 ^ 50 :: rat) \<le> (1 - 1 / 2 ^ 53) ^ 7" "(1 + 1 / 2 ^ 53 :: rat) ^ 7 \<le> 1 + 1 / 2 ^ 50"
    by (simp_all add: power_divide)
  then have "e * (1 - 1 / 2 ^ 50) \<le> e * (1 - 1 / 2 ^ 53) ^ 7" "e * (1 + 1 / 2 ^ 53) ^ 7 \<le> e * (1 + 1 / 2 ^ 50)"
    using assms(3) by (simp_all only: mult_left_mono)
  then have "e * (1 - 1 / 2 ^ 50) \<le> x" "x \<le> e * (1 + 1 / 2 ^ 50)"
    using n unfolding near_def by linarith+
  then have "e - e / 2 ^ 50 \<le> x" "x \<le> e + e / 2 ^ 50" by (simp_all add: algebra_simps)
  then show ?thesis by (intro abs_leI) linarith+
qed

lemma near_nonneg: "near k x e \<Longrightarrow> 0 \<le> e \<Longrightarrow> 0 \<le> x"
  using order_trans [of 0 "e * (1 - 1 / 2 ^ 53) ^ k" x] by (simp add: near_def)

lemma near_rnd_int: "0 \<le> n \<Longrightarrow> near 1 (rnd (of_int n)) (of_int n)"
proof -
  assume "0 \<le> n"
  then have "n = 0 \<or> 1 \<le> n" by auto
  then have "(of_int n :: rat) = 0 \<or> 1 \<le> (of_int n :: rat)" by auto
  moreover have "(2::rat) powi (- 100) \<le> 1" using p2_mono [of "- 100" 0] by simp
  ultimately show ?thesis using near_rnd [OF near_refl [of "of_int n"]] by auto
qed

subsection \<open>Truncation of a computed value\<close>

lemma f64_trunc_i64s_Inr:
  "f64_trunc_i64s (Fin a) = Inr x \<longleftrightarrow> x = rtrunc a \<and> - 9223372036854775808 \<le> a \<and> a < 9223372036854775808"
  by (auto simp: f64_trunc_i64s_def fle_def)

lemma pos_ge_1: "0 \<le> (n :: int) \<Longrightarrow> (of_int n :: rat) = 0 \<or> 1 \<le> (of_int n :: rat)"
  by auto

lemma floor_error: "0 \<le> y \<Longrightarrow> of_int (rtrunc y) \<le> y" "0 \<le> y \<Longrightarrow> y < of_int (rtrunc y) + (1 :: rat)"
  "0 \<le> y \<Longrightarrow> 0 \<le> rtrunc y" "0 \<le> y \<Longrightarrow> rtrunc (- y) = - rtrunc y"
  using floor_correct [of y] by (auto simp: rtrunc_def ceiling_def)

lemma rat_abs_diff: "of_int d \<le> y \<Longrightarrow> y < of_int d + 1 \<Longrightarrow> \<bar>y - e\<bar> \<le> z \<Longrightarrow> \<bar>of_int d - e\<bar> \<le> 1 + (z :: rat)"
  by linarith

end
