(* ===== verification/Chain_State.thy ===== *)
theory Chain_State
  imports System_Rows Float_Bounds
begin

text \<open>
  The state the contracts work on: every persistent table of the contracts with its row type, the actions they exchange, and what an action sees
  of the transaction it runs in.

  Each contract owns one database record (\<open>token_db\<close> for \<open>eosio.token\<close>, \<open>lock_db\<close>
  for \<open>hddlock\<close>, \<open>deposit_db\<close> for \<open>hdddeposit\<close>, \<open>pool_db\<close> for \<open>hddpool\<close>,
  \<open>channel_db\<close> for \<open>channel.sys\<close>, \<open>system_db\<close> for \<open>eosio.system\<close>); the \<open>world\<close> holds them and the effects of the running action: the
  inline actions it has sent, the accounts it has notified and the deferred
  transactions it has scheduled.  A table whose scope and primary key are the same
  account has that account as its key.
\<close>

subsection \<open>eosio.token\<close>

record currency_stats =
  st_supply :: asset
  st_max_supply :: asset
  st_issuer :: name

text \<open>\<open>accounts\<close> is keyed by owner (the scope) and symbol name.\<close>

record token_db =
  accounts :: "(name \<times> u64, asset) table"
  stats :: "(u64, currency_stats) table"

subsection \<open>hddlock\<close>

record lockrule =
  lr_times :: "u64 list"
  lr_percentage :: "u8 list"
  lr_desc :: string

record acclock =
  al_quantity :: asset
  al_lockruleid :: u64
  al_user :: name
  al_from :: name
  al_memo :: string
  al_time :: u64

record lock_db =
  lockrules :: "(u64, lockrule) table"
  acclocks :: "(name \<times> u64, acclock) table"
  accbigs :: "(name, string) table"
  accfrozens :: "(name, u64) table"

subsection \<open>hdddeposit\<close>

text \<open>The tables \<open>depositpool\<close> and \<open>depositpool2\<close> have rows of the same shape.\<close>

record depositpool =
  dp_account_name :: name
  dp_pool_type :: u8
  deposit_total :: asset
  deposit_free :: asset
  deposit_his :: asset

record miner2dep =
  md_miner_type :: u8
  md_account_name :: name
  md_deposit :: asset
  md_dep_total :: asset

record deposit_db =
  depositpools :: "(name, depositpool) table"
  depositpools2 :: "(name, depositpool) table"
  storedeposits :: "(name, asset) table"
  miner2deps :: "(u64, miner2dep) table"
  gdepositrate :: "int option"

subsection \<open>hddpool\<close>

record userhdd =
  hdd_storehhdd :: int
  hdd_per_cycle_fee :: int
  hdd_space_store :: u64
  last_hddstore_time :: u64
  hdd_minerhdd :: int
  hdd_per_cycle_profit :: int
  hdd_space_profit :: u64
  last_hddprofit_time :: u64

record maccount =
  ma_owner :: name
  ma_space :: u64
  ma_hdd_per_cycle_profit :: int
  ma_hdd_balance :: int
  ma_last_hdd_time :: u64

record storepool =
  sp_pool_owner :: name
  sp_max_space :: u64
  sp_space_left :: u64

record minerinfo =
  mi_owner :: name
  mi_admin :: name
  mi_pool_id :: name
  mi_max_space :: u64
  mi_space_left :: u64

record miner =
  mn_owner :: name
  mn_admin :: name
  mn_pool_id :: name
  mn_max_space :: u64
  mn_space :: u64
  mn_last_modify_time :: u64
  mn_internal_id :: u32
  mn_internal_id2 :: u32
  mn_real_space :: u64
  mn_reserved1 :: u64
  mn_level :: u32
  mn_status :: u16

record miner2 =
  m2_minerid :: u64
  m2_next_id :: u64

record miner2ex =
  mx_next_id :: u64
  mx_max_table_count :: u64
  mx_max_miner_count :: u64

record mscore =
  ms_minerid :: u64
  ms_range :: u64

record mscore2ex =
  mscore1_s0_count :: u64
  mscore1_s1_count :: u64
  mscore2_s0_count :: u64
  mscore2_s1_count :: u64
  build_proc_id :: u64
  prev_build_range1 :: u64
  prev_build_range2 :: u64
  build_count1 :: u64
  build_count2 :: u64
  current_s :: u8

record newmparam =
  start_time :: u64
  next_day_time :: u64
  start_space :: u64
  task_space :: u64
  last_day_inc_space :: u64
  last_month_inc_space :: u64
  total_issue :: int
  total_destory :: int
  cur_issue :: int
  cur_destory :: int
  cur_reward1 :: int
  cur_reward2 :: int
  cur_reward1gas :: int
  cur_reward2gas :: int
  random_seed_ext1 :: u64
  random_seed_ext2 :: u64
  reward_day :: u32
  reward_month :: u32
  last_reward_slot :: u32
  span_reward_slot :: u32
  new_span_reward_slot :: u32
  last_build_slot :: u32
  span_build_slot :: u32
  reward_type :: u8
  is_started :: bool

record counterstat =
  total_space :: u64
  cs_reserved1 :: u64
  cs_reserved2 :: u64
  cs_reserved3 :: u64

record hdd_global_param =
  hdd_price :: u64
  yta_price :: u64
  dup_remove_ratio :: u64
  dup_remove_dist_ratio :: u64
  hdd_counter :: int

record hdd_price_guard =
  last_yta_guard_price1 :: u64
  last_ytaprice_guard_time1 :: u64
  last_yta_guard_price2 :: u64
  last_ytaprice_guard_time2 :: u64
  last_dup_remove_guard_ratio1 :: u64
  last_duprmv_ratio_guard_time1 :: u64
  last_dup_remove_guard_ratio2 :: u64
  last_duprmv_ratio_guard_time2 :: u64
  yta_price_delta_1 :: u64
  yta_price_timespan_1 :: u64
  yta_price_delta_2 :: u64
  yta_price_timespan_2 :: u64
  duprmv_ratio_delta_1 :: u64
  duprmv_ratio_timespan_1 :: u64
  duprmv_ratio_delta_2 :: u64
  duprmv_ratio_timespan_2 :: u64

record deposit_rate =
  gr_rate :: int
  gr_last_rate_time :: u64

record pool_db =
  userhdds :: "(name, userhdd) table"
  maccounts :: "(name \<times> u64, maccount) table"
  storepools :: "(name, storepool) table"
  minerinfos :: "(u64, minerinfo) table"
  miners :: "(u64, miner) table"
  miner2s :: "(u64, miner2) table"
  gminer2ex :: "miner2ex option"
  mscore1s :: "(name \<times> u64, mscore) table"
  mscore2s :: "(name \<times> u64, mscore) table"
  gmscore2ex :: "mscore2ex option"
  gnewmparam :: "newmparam option"
  gcounter :: "counterstat option"
  gparams :: "hdd_global_param option"
  paramguard :: "hdd_price_guard option"
  gusercount :: "u64 option"
  gmacccount :: "u64 option"
  gdeprate :: "deposit_rate option"
  gusdprice :: "u64 option"

subsection \<open>channel.sys and eosio.system\<close>

text \<open>\<open>cbalances\<close> is keyed by user (the scope) and balance type.\<close>

record channel_db =
  cbalances :: "(name \<times> u64, asset) table"

text \<open>
  A user's own scope of \<open>userres\<close> and \<open>refunds\<close> has one row, that of the user; \<open>delband\<close> is
  keyed by the account that delegates and the account that receives.  The last three fields
  are state of the chain that the privileged intrinsics write: its parameters, the privileged
  accounts and the proposed schedule.
\<close>

record system_db =
  voters :: "(name, voter_info) table"
  producersext :: "(name, producer_info_ext) table"
  producers :: "(name, producer_info) table"
  gsystem :: "eosio_global_state option"
  gsystemext :: "eosio_global_state2 option"
  gsystem3 :: "eosio_global_state3 option"
  gcount :: "u64 option"
  all_prods :: "all_prods_level option"
  userres :: "(name, user_resources) table"
  delband :: "(name \<times> name, delegated_bandwidth) table"
  refunds :: "(name, refund_request) table"
  namebids :: "(name, name_bid) table"
  rammarket :: "(u64, exchange_state) table"
  chain_params :: blockchain_parameters
  privileged :: "(name, bool) table"
  proposed :: "producer_key list option"

subsection \<open>Actions\<close>

text \<open>The actions of each contract with their parameters; those of \<open>hddpool\<close> in five groups.\<close>

datatype (plugins only: code) token_act =
    Create name asset
  | Issue name asset string
  | Transfer name name asset string
  | Retire asset string

datatype (plugins only: code) lock_act =
    Init
  | Addrule u64 "u64 list" "u8 list" string
  | Locktransfer u64 name name asset asset string
  | Addaccbig name string
  | Rmvaccbig name
  | Frozenuser name u64

datatype (plugins only: code) deposit_act =
    Paydeppool name asset
  | Unpaydeppool name asset
  | Paydeppool2 name asset
  | Undeppool2 name asset
  | Depstore name asset
  | Undepstore name name
  | Paydeposit name u64 asset
  | Chgdeposit name u64 bool asset
  | Mforfeit name u64 asset string u8 name
  | Dep_delminer u64
  | Setrate int
  | Mchgdepacc u64 name
  | Updatevote name
  | Incdeposit u64 asset
  | Dep_channellog u8 asset name

datatype (plugins only: code) pool_user_act =
    Getbalance name u8 name
  | Buyhdd name name int string
  | Transhdds name name int string
  | Sellhdd name int string
  | Sethfee name int name
  | Subbalance name int u8 name
  | Addhspace name u64 name
  | Subhspace name u64 name
  | Calcprofit name
  | Fixownspace name u64

datatype (plugins only: code) pool_miner_act =
    Addmprofit name u64 u64 name
  | Submprofit name u64 u64 name
  | Delminer u64 u8 name
  | Calcmbalance name u64
  | Newminer u64 name name asset
  | Addm2pool u64 name name u64
  | Regminer u64 name name name name u64 asset bool
  | Mdeactive name u64 name
  | Mactive name u64 name
  | Oldsync u64
  | Mlevel u64 u32 name
  | Mrspace u64 u64 name

datatype (plugins only: code) pool_change_act =
    Delstrpool name
  | Regstrpool name name
  | Chgpoolspace name bool u64
  | Mchgspace u64 u64
  | Mincdeposit u64 u64 asset bool
  | Mchgstrpool u64 name
  | Mchgadminacc u64 name
  | Mchgowneracc u64 name

datatype (plugins only: code) pool_param_act =
    Sethddprice u64
  | Setusdprice u64 u8
  | Setytaprice u64 u8
  | Setdrratio u64 u8
  | Setdrdratio u64
  | Addhddcnt int u8

datatype (plugins only: code) pool_reward_act =
    Onbuild u32
  | Onreward u32
  | Payrewardnew u8 asset u64 bool
  | Pool_channellog u8 asset u64 asset name
  | Channelfail u8 asset u64 asset name
  | Startnewm

datatype (plugins only: code) pool_act =
    Pool_user pool_user_act
  | Pool_miner pool_miner_act
  | Pool_change pool_change_act
  | Pool_param pool_param_act
  | Pool_reward pool_reward_act

datatype (plugins only: code) channel_act =
    Mapc name asset asset string
  | Feetoc name asset
  | Subfee name asset string
  | Channellog u8 asset name string
  | Rewardnode name asset string
  | Splitgas

datatype (plugins only: code) system_act =
    Changevotes name
  | Voteproducer name name "name list"
  | Regproducer name public_key string u16
  | Unregprod name
  | Seqproducer name name u16 u8
  | Reprodlevel
  | Setautosche bool u8 u8
  | Regproxy name bool
  | Rmvproducer name
  | Buyrambytes name name u32
  | Buyram name name asset
  | Sellram name int
  | Delegatebw name name asset asset bool
  | Undelegatebw name name asset asset
  | Refund name
  | Onblock u32 name
  | Claimrewards name
  | Rewardprods
  | Startreward
  | Setram u64
  | Setparams blockchain_parameters
  | Setpriv name u8
  | Bidname name name asset
  | Newaccount name name
  | Native_other

datatype (plugins only: code) payload =
    Tok token_act
  | Lck lock_act
  | Dep deposit_act
  | Pol pool_act
  | Chn channel_act
  | Sys system_act

text \<open>An action is addressed to a contract account and carries the accounts that authorise it.\<close>

record act =
  act_account :: name
  act_auth :: "name list"
  act_data :: payload

subsection \<open>World and context\<close>

record world =
  tok :: token_db
  lck :: lock_db
  dep :: deposit_db
  pool :: pool_db
  chn :: channel_db
  syst :: system_db
  inlines :: "act list"
  notified :: "name list"
  deferred :: "((name \<times> u64) \<times> act) list"

text \<open>
  What a running action can ask the chain: the actors that authorise it, the time
  of the block in microseconds, which accounts exist, the reference block of the
  transaction, and whether \<open>execute_inline\<close> accepts an inline action sent by a
  receiver (the check against the permission tables of the chain).  The function
  \<open>pow\<close> of the C library the contracts are linked with is a parameter too, as is the order
  in which \<open>std::sort\<close> leaves producers with as many votes, the validity of a key, whether
  the chain takes a proposed schedule, and the depth of calls the virtual machine allows.
\<close>

record ctx =
  auths :: "name list"
  current_time :: u64
  is_account :: "name \<Rightarrow> bool"
  inline_ok :: "name \<Rightarrow> act \<Rightarrow> bool"
  tapos_block_prefix :: u32
  tapos_block_num :: u32
  libm_pow :: "f64 \<Rightarrow> f64 \<Rightarrow> f64"
  sort_votes :: "yta_prod_info list \<Rightarrow> yta_prod_info list"
  key_valid :: "public_key \<Rightarrow> bool"
  takes_schedule :: "producer_key list \<Rightarrow> bool"
  call_depth :: nat

definition require_auth :: "ctx \<Rightarrow> name \<Rightarrow> 'a result \<Rightarrow> 'a result" where
  "require_auth c n rest = (if n \<in> set (auths c) then rest else Inl (Missing_authority n))"

definition require_recipient :: "name \<Rightarrow> world \<Rightarrow> world" where
  "require_recipient n w = (if n \<in> set (notified w) then w else w\<lparr>notified := notified w @ [n]\<rparr>)"

definition send :: "ctx \<Rightarrow> name \<Rightarrow> act \<Rightarrow> world \<Rightarrow> world result" where
  "send c self a w =
     (if inline_ok c self a then Inr (w\<lparr>inlines := inlines w @ [a]\<rparr>)
      else Inl (Chain_error ''inline action not authorized''))"

text \<open>\<open>action(permission_level{actor, active}, account, data).send()\<close>\<close>

definition mk_act :: "name \<Rightarrow> name \<Rightarrow> payload \<Rightarrow> act" where
  "mk_act actor account d = \<lparr>act_account = account, act_auth = [actor], act_data = d\<rparr>"

text \<open>The default configuration of a chain (\<open>libraries/chain/include/eosio/chain/config.hpp\<close>).\<close>

definition default_params :: blockchain_parameters where
  "default_params = \<lparr>
     max_block_net_usage = 1048576, target_block_net_usage_pct = 1000, max_transaction_net_usage = 524288,
     base_per_transaction_net_usage = 12, net_usage_leeway = 500, context_free_discount_net_usage_num = 20,
     context_free_discount_net_usage_den = 100, max_block_cpu_usage = 200000, target_block_cpu_usage_pct = 1000,
     max_transaction_cpu_usage = 150000, min_transaction_cpu_usage = 100, max_transaction_lifetime = 3600,
     deferred_trx_expiration_window = 600, max_transaction_delay = 3888000, max_inline_action_size = 4096,
     max_inline_action_depth = 4, max_authority_depth = 6\<rparr>"

definition empty_world :: world where
  "empty_world = \<lparr>
     tok = \<lparr>accounts = [], stats = []\<rparr>,
     lck = \<lparr>lockrules = [], acclocks = [], accbigs = [], accfrozens = []\<rparr>,
     dep = \<lparr>depositpools = [], depositpools2 = [], storedeposits = [], miner2deps = [], gdepositrate = None\<rparr>,
     pool = \<lparr>userhdds = [], maccounts = [], storepools = [], minerinfos = [], miners = [], miner2s = [],
       gminer2ex = None, mscore1s = [], mscore2s = [], gmscore2ex = None, gnewmparam = None, gcounter = None,
       gparams = None, paramguard = None, gusercount = None, gmacccount = None, gdeprate = None, gusdprice = None\<rparr>,
     chn = \<lparr>cbalances = []\<rparr>,
     syst = \<lparr>voters = [], producersext = [], producers = [], gsystem = None, gsystemext = None, gsystem3 = None, gcount = None,
       all_prods = None, userres = [], delband = [], refunds = [], namebids = [], rammarket = [], chain_params = default_params,
       privileged = [], proposed = None\<rparr>,
     inlines = [], notified = [], deferred = []\<rparr>"

subsection \<open>Successful runs\<close>

lemma require_auth_Inr [res_simps, simp]:
  "require_auth c n rest = Inr y \<longleftrightarrow> n \<in> set (auths c) \<and> rest = Inr y"
  by (simp add: require_auth_def)

lemma require_auth_ok [simp]: "n \<in> set (auths c) \<Longrightarrow> require_auth c n rest = rest"
  by (simp add: require_auth_def)

lemma require_auth_missing [simp]:
  "n \<notin> set (auths c) \<Longrightarrow> require_auth c n rest = Inl (Missing_authority n)"
  by (simp add: require_auth_def)

lemma send_Inr [res_simps, simp]:
  "send c self a w = Inr w' \<longleftrightarrow> inline_ok c self a \<and> w' = w\<lparr>inlines := inlines w @ [a]\<rparr>"
  by (auto simp: send_def)

lemma require_recipient_frame [frame_simps, simp]:
  "tok (require_recipient n w) = tok w" "lck (require_recipient n w) = lck w"
  "dep (require_recipient n w) = dep w" "pool (require_recipient n w) = pool w"
  "chn (require_recipient n w) = chn w" "syst (require_recipient n w) = syst w"
  "inlines (require_recipient n w) = inlines w" "deferred (require_recipient n w) = deferred w"
  by (simp_all add: require_recipient_def)

lemma empty_world_simps [simp]:
  "accounts (tok empty_world) = []" "stats (tok empty_world) = []"
  "lockrules (lck empty_world) = []" "acclocks (lck empty_world) = []"
  "accbigs (lck empty_world) = []" "accfrozens (lck empty_world) = []"
  "depositpools (dep empty_world) = []" "depositpools2 (dep empty_world) = []"
  "storedeposits (dep empty_world) = []" "miner2deps (dep empty_world) = []"
  "gdepositrate (dep empty_world) = None"
  "cbalances (chn empty_world) = []"
  "voters (syst empty_world) = []" "producersext (syst empty_world) = []"
  "userres (syst empty_world) = []" "delband (syst empty_world) = []" "refunds (syst empty_world) = []"
  "all_prods (syst empty_world) = None" "gsystem (syst empty_world) = None" "gsystemext (syst empty_world) = None"
  "inlines empty_world = []" "notified empty_world = []" "deferred empty_world = []"
  by (simp_all add: empty_world_def)

end
