(* ===== verification/Contract_Reads.thy ===== *)
theory Contract_Reads
  imports Chain_State
begin

unbundle bit_operations_syntax

text \<open>
  The read interface of each contract: the inline and static functions of the
  headers \<open>hddlock.hpp\<close>, \<open>hdddeposit.hpp\<close>, \<open>hddpool.hpp\<close>, \<open>eosio.token.hpp\<close>,
  \<open>channel.sys.hpp\<close> and \<open>eosio.system.hpp\<close>, through which a contract reads the
  tables of another one.  The lemmas bound what they return: the locked part of a
  grant lies between zero and the grant, and the deposit of a user is the sum of
  the totals of both deposit pools.
\<close>

subsection \<open>hddlock\<close>

definition seconds :: "ctx \<Rightarrow> u64" where
  "seconds c = current_time c div 1000000"

definition is_frozen :: "ctx \<Rightarrow> world \<Rightarrow> name \<Rightarrow> bool" where
  "is_frozen c w user =
     (case map_of (accfrozens (lck w)) user of
        None \<Rightarrow> False
      | Some time \<Rightarrow> seconds c < time)"

text \<open>
  The percentage of the last release date that has passed.  Rules are stored with
  as many percentages as dates; reading past the end of the vector is an error.
\<close>

fun released_percent :: "u64 \<Rightarrow> u64 list \<Rightarrow> u8 list \<Rightarrow> u8 \<Rightarrow> u8 result" where
  "released_percent curtime [] ps percent = Inr percent"
| "released_percent curtime (t # ts) ps percent =
     (if t > curtime then Inr percent
      else case ps of
             [] \<Rightarrow> Inl (Wasm_trap ''vector index out of range'')
           | p # ps' \<Rightarrow> released_percent curtime ts ps' p)"

definition locked_part :: "int \<Rightarrow> u8 \<Rightarrow> int result" where
  "locked_part amnt percent =
     f64_trunc_i64s (fmul (fdiv (f64_of_int amnt) (f64_of_int 100)) (f64_of_int (uint percent)))"

fun lock_loop :: "ctx \<Rightarrow> lock_db \<Rightarrow> acclock list \<Rightarrow> int \<Rightarrow> int result" where
  "lock_loop c db [] lockasset = Inr lockasset"
| "lock_loop c db (l # ls) lockasset =
     fetch (lockrules db) (al_lockruleid l) ''lockruleid not existed in rule table'' (\<lambda>rule.
     rbind (released_percent (seconds c) (lr_times rule) (lr_percentage rule) 0) (\<lambda>percent.
     ensure (percent \<le> 100) ''invalidate lock percentage'' (
     rbind (locked_part (amount (al_quantity l)) (100 - percent)) (\<lambda>x.
     lock_loop c db ls (i64 (lockasset + x))))))"

definition locks_of :: "lock_db \<Rightarrow> name \<Rightarrow> acclock list" where
  "locks_of db user = map snd (filter (\<lambda>r. fst (fst r) = user) (acclocks db))"

definition get_lock_asset :: "ctx \<Rightarrow> world \<Rightarrow> name \<Rightarrow> asset result" where
  "get_lock_asset c w user =
     rbind (mk_asset 0 CORE_SYMBOL) (\<lambda>z.
     rbind (lock_loop c (lck w) (locks_of (lck w) user) (amount z)) (\<lambda>x.
     Inr (z\<lparr>amount := x\<rparr>)))"

subsection \<open>hdddeposit\<close>

definition add_pool_amount :: "(depositpool \<Rightarrow> asset) \<Rightarrow> depositpool option \<Rightarrow> asset \<Rightarrow> asset result" where
  "add_pool_amount f r d = (case r of None \<Rightarrow> Inr d | Some p \<Rightarrow> asset_add d (f p))"

definition get_deposit :: "world \<Rightarrow> name \<Rightarrow> asset result" where
  "get_deposit w user =
     rbind (mk_asset 0 CORE_SYMBOL) (\<lambda>d0.
     rbind (add_pool_amount deposit_total (map_of (depositpools (dep w)) user) d0) (\<lambda>d1.
     add_pool_amount deposit_total (map_of (depositpools2 (dep w)) user) d1))"

definition get_depositfree :: "world \<Rightarrow> name \<Rightarrow> asset result" where
  "get_depositfree w user =
     rbind (mk_asset 0 CORE_SYMBOL) (\<lambda>d0.
     rbind (add_pool_amount deposit_free (map_of (depositpools (dep w)) user) d0) (\<lambda>d1.
     add_pool_amount deposit_free (map_of (depositpools2 (dep w)) user) d1))"

definition get_miner_deposit :: "world \<Rightarrow> u64 \<Rightarrow> asset result" where
  "get_miner_deposit w minerid =
     (case map_of (miner2deps (dep w)) minerid of
        Some m \<Rightarrow> Inr (md_deposit m)
      | None \<Rightarrow> mk_asset 0 CORE_SYMBOL)"

definition get_miner_forfeit :: "world \<Rightarrow> u64 \<Rightarrow> asset result" where
  "get_miner_forfeit w minerid =
     (case map_of (miner2deps (dep w)) minerid of
        Some m \<Rightarrow>
          if amount (md_dep_total m) > amount (md_deposit m)
          then asset_sub (md_dep_total m) (md_deposit m) else mk_asset 0 CORE_SYMBOL
      | None \<Rightarrow> mk_asset 0 CORE_SYMBOL)"

definition get_miner_depacc :: "world \<Rightarrow> u64 \<Rightarrow> name" where
  "get_miner_depacc w minerid =
     (case map_of (miner2deps (dep w)) minerid of Some m \<Rightarrow> md_account_name m | None \<Rightarrow> 0)"

definition is_old_miner :: "world \<Rightarrow> u64 \<Rightarrow> bool" where
  "is_old_miner w minerid =
     (case map_of (miner2deps (dep w)) minerid of
        None \<Rightarrow> True
      | Some m \<Rightarrow> md_miner_type m = 0)"

text \<open>The deposit a space asks for, at the current rate (in percent, 100 by default).\<close>

definition space_deposit :: "int \<Rightarrow> u64 \<Rightarrow> int result" where
  "space_deposit rate space =
     (let drate = fdiv (f64_of_int rate) (f64_of_int 100) in
      f64_trunc_i64s (fmul (fmul (fdiv (f64_of_int (uint space)) (f64_of_int 65536)) drate) (f64_of_int 10000)))"

definition is_deposit_enough :: "world \<Rightarrow> asset \<Rightarrow> u64 \<Rightarrow> bool result" where
  "is_deposit_enough w deposit max_space =
     (let rate = get_or_default (gdepositrate (dep w)) 100 in
      rbind (space_deposit rate max_space) (\<lambda>am. Inr (amount deposit \<ge> am)))"

definition calc_deposit :: "world \<Rightarrow> u64 \<Rightarrow> asset result" where
  "calc_deposit w space =
     (let rate = get_or_default (gdepositrate (dep w)) 100 in
      rbind (space_deposit rate space) (\<lambda>am. mk_asset am CORE_SYMBOL))"

subsection \<open>eosio.token, channel.sys, eosio.system\<close>

definition get_supply :: "world \<Rightarrow> u64 \<Rightarrow> asset result" where
  "get_supply w sy = fetch (stats (tok w)) sy ''get_supply : can not find symbol'' (\<lambda>st. Inr (st_supply st))"

definition get_balance :: "world \<Rightarrow> name \<Rightarrow> u64 \<Rightarrow> asset result" where
  "get_balance w owner sy =
     fetch (accounts (tok w)) (owner, sy) ''get_balance : can not find asset symbol'' Inr"

definition getfeebalance :: "world \<Rightarrow> name \<Rightarrow> asset result" where
  "getfeebalance w user =
     rbind (mk_asset 0 CORE_SYMBOL) (\<lambda>balance.
     Inr (get_or_default (map_of (cbalances (chn w)) (user, 2)) balance))"

definition isActiveVoter :: "world \<Rightarrow> name \<Rightarrow> bool" where
  "isActiveVoter w owner =
     (case map_of (voters (syst w)) owner of
        None \<Rightarrow> False
      | Some v \<Rightarrow> length (vi_producers v) \<noteq> 0)"

text \<open>The sequence number of a producer and its shadow account; number zero if there is none.\<close>

definition getProducerSeq :: "world \<Rightarrow> name \<Rightarrow> u16 \<times> name" where
  "getProducerSeq w producer =
     (case map_of (producersext (syst w)) producer of
        Some p \<Rightarrow> (px_seq_num p, px_shadow p)
      | None \<Rightarrow> (0, 0))"

definition check_bp_account :: "ctx \<Rightarrow> world \<Rightarrow> name \<Rightarrow> 'a result \<Rightarrow> 'a result" where
  "check_bp_account c w bpacc rest =
     (let (seq_num, shadow) = getProducerSeq w bpacc in
      ensure (seq_num > 0 \<and> seq_num < 22) ''invalidate bp account'' (
      require_auth c shadow rest))"

subsection \<open>hddpool\<close>

definition is_miner_exist :: "world \<Rightarrow> u64 \<Rightarrow> bool" where
  "is_miner_exist w minerid = has_key (minerinfos (pool w)) minerid"

definition get_miner_max_space :: "world \<Rightarrow> u64 \<Rightarrow> u64" where
  "get_miner_max_space w minerid =
     (case map_of (minerinfos (pool w)) minerid of Some m \<Rightarrow> mi_max_space m | None \<Rightarrow> 0)"

definition get_miner_pool_id :: "world \<Rightarrow> u64 \<Rightarrow> name" where
  "get_miner_pool_id w minerid =
     (case map_of (minerinfos (pool w)) minerid of Some m \<Rightarrow> mi_pool_id m | None \<Rightarrow> 0)"

definition get_miner_pool_owner :: "world \<Rightarrow> u64 \<Rightarrow> name" where
  "get_miner_pool_owner w minerid =
     (case map_of (minerinfos (pool w)) minerid of
        None \<Rightarrow> 0
      | Some m \<Rightarrow>
          (case map_of (storepools (pool w)) (mi_pool_id m) of
             None \<Rightarrow> 0
           | Some p \<Rightarrow> sp_pool_owner p))"

definition get_next_reward_slot :: "world \<Rightarrow> u32" where
  "get_next_reward_slot w =
     (case gnewmparam (pool w) of
        Some s \<Rightarrow> last_reward_slot s + span_reward_slot s
      | None \<Rightarrow> 0xffffffff)"

definition get_next_build_slot :: "world \<Rightarrow> u32" where
  "get_next_build_slot w =
     (case gnewmparam (pool w) of
        Some s \<Rightarrow> last_build_slot s + span_build_slot s
      | None \<Rightarrow> 0xffffffff)"

definition get_yta_price :: "world \<Rightarrow> u64" where
  "get_yta_price w = (case gparams (pool w) of Some p \<Rightarrow> yta_price p | None \<Rightarrow> 8000)"

definition get_usd_price :: "world \<Rightarrow> u64" where
  "get_usd_price w = get_or_default (gusdprice (pool w)) 64500"

subsection \<open>The locked part of a grant\<close>

text \<open>A grant of at most \<open>2^51\<close> units is never locked beyond its amount.\<close>

lemma locked_part_bounds:
  assumes a: "0 \<le> a" "a \<le> 2 ^ 51" and p: "p \<le> 100"
  shows "\<exists>x. locked_part a p = Inr x \<and> 0 \<le> x \<and> x \<le> a"
proof -
  define q where "q = rnd (of_int a / 100)"
  define P where "P = uint p"
  define y where "y = q * of_int P"
  have up: "0 \<le> P" "P \<le> 100" using p by (simp_all add: P_def word_le_def)
  have ra: "0 \<le> (of_int a :: rat)" "(of_int a :: rat) \<le> 2 ^ 51"
    using a of_int_le_iff [of a "2 ^ 51"] by simp_all
  have q0: "0 \<le> q" unfolding q_def using ra by (intro rnd_nonneg) simp
  have "\<bar>q - of_int a / 100\<bar> \<le> 2 ^ 45 / 2 ^ 53"
    unfolding q_def using ra by (intro rnd_abs_error) simp
  moreover have "(2::rat) ^ 45 / 2 ^ 53 = 1 / 256" by simp
  ultimately have q1: "q \<le> of_int a / 100 + 1 / 256" by linarith
  have y0: "0 \<le> y" unfolding y_def using q0 up by simp
  have "y \<le> q * 100" unfolding y_def using q0 up of_int_le_iff [of P 100] by (intro mult_left_mono) auto
  then have y1: "y \<le> of_int a + 100 / 256" using q1 by simp
  have "\<bar>rnd y - y\<bar> \<le> 2 ^ 52 / 2 ^ 53" using y0 y1 ra by (intro rnd_abs_error) simp
  moreover have "(2::rat) ^ 52 / 2 ^ 53 = 1 / 2" by simp
  ultimately have r1: "rnd y < of_int a + 1" using y1 by linarith
  have r0: "0 \<le> rnd y" using y0 by (rule rnd_nonneg)
  have e: "locked_part a p = f64_trunc_i64s (Fin (rnd y))"
  proof -
    have "f64_of_int a = Fin (of_int a)" using a by (intro f64_of_int_exact) simp
    moreover have "f64_of_int 100 = Fin 100" using f64_of_int_exact [of 100] by simp
    moreover have "f64_of_int P = Fin (of_int P)" using up by (intro f64_of_int_exact) simp
    moreover have "f64_of_rat (of_int a / 100) = Fin q"
      unfolding q_def using ra by (intro f64_of_rat_Fin) (simp add: order_trans)
    moreover have "f64_of_rat y = Fin (rnd y)" using y0 y1 ra by (intro f64_of_rat_Fin) simp
    ultimately show ?thesis by (simp add: locked_part_def y_def P_def [symmetric])
  qed
  have "locked_part a p = Inr (rtrunc (rnd y))"
    unfolding e using r0 r1 ra by (intro f64_trunc_i64s_Fin) simp_all
  then show ?thesis using rtrunc_bounds [OF r0 r1] by blast
qed

text \<open>Rules as \<open>addrule\<close> stores them, and grants as \<open>locktransfer\<close> stores them.\<close>

definition lockrule_ok :: "lockrule \<Rightarrow> bool" where
  "lockrule_ok r \<longleftrightarrow> 2 \<le> length (lr_times r) \<and> length (lr_times r) = length (lr_percentage r)
     \<and> list_all (\<lambda>p. p \<le> 100) (lr_percentage r)"

definition acclock_ok :: "lock_db \<Rightarrow> u64 \<Rightarrow> acclock \<Rightarrow> bool" where
  "acclock_ok db k l \<longleftrightarrow> al_lockruleid l = k \<and> has_key (lockrules db) k
     \<and> symbol (al_quantity l) = CORE_SYMBOL \<and> 0 < amount (al_quantity l) \<and> amount (al_quantity l) \<le> max_amount"

definition lock_inv :: "lock_db \<Rightarrow> bool" where
  "lock_inv db \<longleftrightarrow>
     twf (lockrules db) \<and> twf (acclocks db) \<and> twf (accbigs db) \<and> twf (accfrozens db) \<and>
     (\<forall>k r. map_of (lockrules db) k = Some r \<longrightarrow> lockrule_ok r) \<and>
     (\<forall>u k l. map_of (acclocks db) (u, k) = Some l \<longrightarrow> acclock_ok db k l)"

definition grants :: "acclock list \<Rightarrow> int" where
  "grants ls = (\<Sum>l\<leftarrow>ls. amount (al_quantity l))"

lemma released_percent_ok:
  "length ts = length ps \<Longrightarrow> list_all (\<lambda>p. p \<le> 100) ps \<Longrightarrow> p0 \<le> 100
     \<Longrightarrow> \<exists>p. released_percent ct ts ps p0 = Inr p \<and> p \<le> 100"
  by (induction ts arbitrary: ps p0) (auto split: list.splits)

lemma lock_loop_bounds:
  assumes rules: "\<And>k r. map_of (lockrules db) k = Some r \<Longrightarrow> lockrule_ok r"
  shows "\<lbrakk>\<forall>l\<in>set ls. has_key (lockrules db) (al_lockruleid l) \<and> 0 \<le> amount (al_quantity l) \<and> amount (al_quantity l) \<le> 2 ^ 51;
          0 \<le> acc; acc + grants ls \<le> max_amount\<rbrakk>
     \<Longrightarrow> \<exists>x. lock_loop c db ls acc = Inr x \<and> acc \<le> x \<and> x \<le> acc + grants ls"
proof (induction ls arbitrary: acc)
  case (Cons l ls)
  let ?a = "amount (al_quantity l)"
  obtain r where r: "map_of (lockrules db) (al_lockruleid l) = Some r"
    using Cons.prems(1) by (auto simp: has_key_def)
  obtain p where p: "released_percent (seconds c) (lr_times r) (lr_percentage r) 0 = Inr p" "p \<le> 100"
    using rules [OF r] released_percent_ok [of "lr_times r" "lr_percentage r" 0] by (auto simp: lockrule_ok_def)
  have "100 - p \<le> 100" using p(2) by (rule word_sub_le)
  then obtain x where x: "locked_part ?a (100 - p) = Inr x" "0 \<le> x" "x \<le> ?a"
    using locked_part_bounds [of ?a "100 - p"] Cons.prems(1) by auto
  have g: "0 \<le> grants ls"
    unfolding grants_def using Cons.prems(1) by (intro sum_list_nonneg) auto
  have e: "i64 (acc + x) = acc + x"
    using x g Cons.prems by (intro i64_bounds) (auto simp: grants_def max_amount_def)
  obtain y where "lock_loop c db ls (acc + x) = Inr y" "acc + x \<le> y" "y \<le> acc + x + grants ls"
    using Cons.IH [of "acc + x"] Cons.prems x by (auto simp: grants_def)
  then show ?case using r p x e by (auto simp: grants_def)
qed (auto simp: grants_def)

lemma locks_of_member:
  "lock_inv db \<Longrightarrow> l \<in> set (locks_of db u) \<Longrightarrow> \<exists>k. map_of (acclocks db) (u, k) = Some l \<and> acclock_ok db k l"
proof -
  assume inv: "lock_inv db" and l: "l \<in> set (locks_of db u)"
  then obtain k where "((u, k), l) \<in> set (acclocks db)" by (auto simp: locks_of_def)
  then have "map_of (acclocks db) (u, k) = Some l"
    using inv by (simp add: lock_inv_def twf_distinct)
  then show ?thesis using inv by (auto simp: lock_inv_def)
qed

lemma get_lock_asset_bounds:
  assumes inv: "lock_inv (lck w)" and small: "\<forall>l\<in>set (locks_of (lck w) u). amount (al_quantity l) \<le> 2 ^ 51"
    and total: "grants (locks_of (lck w) u) \<le> max_amount"
  shows "\<exists>x. get_lock_asset c w u = Inr \<lparr>amount = x, symbol = CORE_SYMBOL\<rparr>
     \<and> 0 \<le> x \<and> x \<le> grants (locks_of (lck w) u)"
proof -
  have "\<And>k r. map_of (lockrules (lck w)) k = Some r \<Longrightarrow> lockrule_ok r" using inv by (simp add: lock_inv_def)
  moreover have "\<forall>l\<in>set (locks_of (lck w) u). has_key (lockrules (lck w)) (al_lockruleid l)
      \<and> 0 \<le> amount (al_quantity l) \<and> amount (al_quantity l) \<le> 2 ^ 51"
    using locks_of_member [OF inv] small by (force simp: acclock_ok_def)
  ultimately obtain x where "lock_loop c (lck w) (locks_of (lck w) u) 0 = Inr x" "0 \<le> x"
      "x \<le> grants (locks_of (lck w) u)"
    using lock_loop_bounds [of "lck w" "locks_of (lck w) u" 0 c] total by auto
  moreover have "mk_asset 0 CORE_SYMBOL = Inr \<lparr>amount = 0, symbol = CORE_SYMBOL\<rparr>"
    by (simp add: max_amount_def)
  ultimately show ?thesis by (simp add: get_lock_asset_def)
qed

subsection \<open>The deposit of a user\<close>

definition pool_total :: "(name, depositpool) table \<Rightarrow> name \<Rightarrow> int" where
  "pool_total t u = (case map_of t u of None \<Rightarrow> 0 | Some p \<Rightarrow> amount (deposit_total p))"

lemma get_deposit_Inr:
  assumes "get_deposit w u = Inr d"
    and "\<And>p. map_of (depositpools (dep w)) u = Some p \<Longrightarrow> is_amount_within_range (deposit_total p)"
    and "\<And>p. map_of (depositpools2 (dep w)) u = Some p \<Longrightarrow> is_amount_within_range (deposit_total p)"
  shows "d = \<lparr>amount = pool_total (depositpools (dep w)) u + pool_total (depositpools2 (dep w)) u, symbol = CORE_SYMBOL\<rparr>"
proof -
  have z: "mk_asset 0 CORE_SYMBOL = Inr \<lparr>amount = 0, symbol = CORE_SYMBOL\<rparr>" by (simp add: max_amount_def)
  show ?thesis
    using assms
    by (cases "map_of (depositpools (dep w)) u"; cases "map_of (depositpools2 (dep w)) u")
       (auto simp: get_deposit_def z add_pool_amount_def pool_total_def is_amount_within_range_def i64_add_in_range
         max_amount_def in_i64_def)
qed

lemma getfeebalance_eq:
  "getfeebalance w u = Inr (get_or_default (map_of (cbalances (chn w)) (u, 2)) \<lparr>amount = 0, symbol = CORE_SYMBOL\<rparr>)"
proof -
  have "mk_asset 0 CORE_SYMBOL = Inr \<lparr>amount = 0, symbol = CORE_SYMBOL\<rparr>" by (simp add: max_amount_def)
  then show ?thesis by (simp add: getfeebalance_def)
qed

lemma check_bp_account_Inr [res_simps, simp]:
  "check_bp_account c w b rest = Inr y \<longleftrightarrow>
     0 < fst (getProducerSeq w b) \<and> fst (getProducerSeq w b) < 22 \<and> snd (getProducerSeq w b) \<in> set (auths c) \<and> rest = Inr y"
  by (auto simp: check_bp_account_def Let_def split: prod.splits)

end
