(* ===== verification/Frames.thy ===== *)
theory Frames
  imports Contract_Reads
begin

text \<open>
  What every result of a computation satisfies.  The rules follow the combinators of
  the contracts, so that a frame is shown without looking at the conditions on the way:
  \<open>intro keeps_intros\<close> leaves one goal for each way an action can succeed.
\<close>

definition keeps :: "('a \<Rightarrow> bool) \<Rightarrow> 'a result \<Rightarrow> bool" where
  "keeps P r \<longleftrightarrow> (\<forall>x. r = Inr x \<longrightarrow> P x)"

lemma keepsD: "keeps P r \<Longrightarrow> r = Inr x \<Longrightarrow> P x"
  by (simp add: keeps_def)

lemma keeps_base:
  "P x \<Longrightarrow> keeps P (Inr x)" "keeps P (Inl e)"
  "keeps P r \<Longrightarrow> keeps P (ensure b m r)" "(n \<in> set (auths c) \<Longrightarrow> keeps P r) \<Longrightarrow> keeps P (require_auth c n r)"
  "keeps P r \<Longrightarrow> keeps P (check_bp_account c w n r)"
  "(\<And>x. map_of t k = Some x \<Longrightarrow> keeps P (f x)) \<Longrightarrow> keeps P (fetch t k msg f)"
  by (auto simp: keeps_def require_auth_def check_bp_account_def Let_def split: if_splits option.splits prod.splits)

lemma keeps_world:
  "P (w\<lparr>inlines := inlines w @ [a]\<rparr>) \<Longrightarrow> keeps P (send c self a w)"
  by (auto simp: keeps_def send_def split: if_splits)

lemma keeps_case:
  "keeps P r \<Longrightarrow> keeps P s \<Longrightarrow> keeps P (if b then r else s)"
  "keeps P r \<Longrightarrow> (\<And>x. keeps P (f x)) \<Longrightarrow> keeps P (case o' of None \<Rightarrow> r | Some x \<Rightarrow> f x)"
  "(\<And>x y. p = (x, y) \<Longrightarrow> keeps P (h x y)) \<Longrightarrow> keeps P (case p of (x, y) \<Rightarrow> h x y)"
  by (auto split: option.splits prod.splits)

lemma keeps_rbind:
  "keeps Q r \<Longrightarrow> (\<And>x. Q x \<Longrightarrow> keeps P (f x)) \<Longrightarrow> keeps P (rbind r f)"
  by (cases r) (auto simp: keeps_def)

lemma keeps_any: "(\<And>x. r = Inr x \<Longrightarrow> keeps P (f x)) \<Longrightarrow> keeps P (rbind r f)"
  by (cases r) (auto simp: keeps_def)

lemma keeps_rbind_world:
  "keeps P (f (w\<lparr>inlines := inlines w @ [a]\<rparr>)) \<Longrightarrow> keeps P (rbind (send c self a w) f)"
  by (auto simp: keeps_def send_def split: if_splits)

lemma keeps_rbind_if:
  "keeps P (rbind r1 f) \<Longrightarrow> keeps P (rbind r2 f) \<Longrightarrow> keeps P (rbind (if b then r1 else r2) f)"
  "keeps P (f x) \<Longrightarrow> keeps P (rbind (Inr x) f)"
  by (auto simp: keeps_def)

lemmas keeps_intros = keeps_base keeps_world keeps_rbind_world keeps_rbind_if keeps_case keeps_any

end
