(* ===== verification/Hddlock.thy ===== *)
theory Hddlock
  imports Frames
begin

text \<open>
  The lock contract \<open>src/contracts/hddlock\<close>: release rules, grants under a rule,
  the accounts allowed to make grants, and frozen accounts.  Every action is one
  definition; \<open>hddlock_apply\<close> is its dispatch table.  The invariant \<open>lock_inv\<close> of
  the tables (rules with as many percentages as dates, all at most 100, grants
  positive and under an existing rule) is kept by every action, and with it the
  read interface never fails and never locks more than was granted.
\<close>

subsection \<open>Actions\<close>

definition init :: "ctx \<Rightarrow> world \<Rightarrow> world result" where
  "init c w = Inr w"

definition addaccbig :: "ctx \<Rightarrow> name \<Rightarrow> string \<Rightarrow> world \<Rightarrow> world result" where
  "addaccbig c user desc w =
     require_auth c lockadminusr (
     ensure (\<not> has_key (accbigs (lck w)) user) ''user already registered as big account'' (
     rbind (emplace user desc (accbigs (lck w))) (\<lambda>t.
     Inr (w\<lparr>lck := (lck w)\<lparr>accbigs := t\<rparr>\<rparr>))))"

definition rmvaccbig :: "ctx \<Rightarrow> name \<Rightarrow> world \<Rightarrow> world result" where
  "rmvaccbig c user w =
     require_auth c lockadminusr (
     if has_key (accbigs (lck w)) user
     then Inr (w\<lparr>lck := (lck w)\<lparr>accbigs := tdel user (accbigs (lck w))\<rparr>\<rparr>)
     else Inr w)"

fun check_percentages :: "u8 list \<Rightarrow> 'a result \<Rightarrow> 'a result" where
  "check_percentages [] rest = rest"
| "check_percentages (p # ps) rest =
     ensure (p \<le> 100) ''invalidate lock percentage'' (check_percentages ps rest)"

definition addrule :: "ctx \<Rightarrow> u64 \<Rightarrow> u64 list \<Rightarrow> u8 list \<Rightarrow> string \<Rightarrow> world \<Rightarrow> world result" where
  "addrule c lockruleid ts percentage desc w =
     require_auth c lockadminusr (
     ensure (length ts \<ge> 2) ''invalidate size of times array'' (
     ensure (length ts = length percentage) ''times and percentage in different size.'' (
     ensure (\<not> has_key (lockrules (lck w)) lockruleid) ''the id already existed in rule table'' (
     check_percentages percentage (
     rbind (emplace lockruleid \<lparr>lr_times = ts, lr_percentage = percentage, lr_desc = desc\<rparr> (lockrules (lck w))) (\<lambda>t.
     Inr (w\<lparr>lck := (lck w)\<lparr>lockrules := t\<rparr>\<rparr>)))))))"

definition locktransfer :: "ctx \<Rightarrow> u64 \<Rightarrow> name \<Rightarrow> name \<Rightarrow> asset \<Rightarrow> asset \<Rightarrow> string \<Rightarrow> world \<Rightarrow> world result" where
  "locktransfer c lockruleid from to quantity amnt memo w =
     require_auth c from (
     ensure (symbol quantity = CORE_SYMBOL) ''only core symbole support this lock transsfer'' (
     ensure (symbol amnt = CORE_SYMBOL) ''only core symbole support this lock transsfer'' (
     ensure (amount quantity > 0) ''must locktransfer positive quantity'' (
     ensure (amount amnt \<ge> 0) ''can not locktransfer negative amount'' (
     ensure (has_key (accbigs (lck w)) from) ''from can not locktransfer'' (
     ensure (has_key (lockrules (lck w)) lockruleid) ''lockruleid not existed in rule table'' (
     ensure (amount quantity \<ge> amount amnt) ''overdrawn quantity'' (
     rbind (if amount amnt > 0
            then send c hdd_lock_account (mk_act from token_account (Tok (Transfer from to amnt memo))) w
            else Inr w) (\<lambda>w.
     case map_of (acclocks (lck w)) (to, lockruleid) of
       Some row \<Rightarrow>
         rbind (asset_add (al_quantity row) quantity) (\<lambda>q.
         Inr (w\<lparr>lck := (lck w)\<lparr>acclocks := tput (to, lockruleid)
            (row\<lparr>al_time := current_time c, al_quantity := q\<rparr>) (acclocks (lck w))\<rparr>\<rparr>))
     | None \<Rightarrow>
         rbind (emplace (to, lockruleid)
            \<lparr>al_quantity = quantity, al_lockruleid = lockruleid, al_user = to, al_from = from,
             al_memo = memo, al_time = current_time c\<rparr> (acclocks (lck w))) (\<lambda>t.
         Inr (w\<lparr>lck := (lck w)\<lparr>acclocks := t\<rparr>\<rparr>)))))))))))"

definition frozenuser :: "ctx \<Rightarrow> name \<Rightarrow> u64 \<Rightarrow> world \<Rightarrow> world result" where
  "frozenuser c user time w =
     require_auth c lockadminusr (
     if \<not> has_key (accfrozens (lck w)) user then
       rbind (emplace user time (accfrozens (lck w))) (\<lambda>t.
       Inr (w\<lparr>lck := (lck w)\<lparr>accfrozens := t\<rparr>\<rparr>))
     else Inr (w\<lparr>lck := (lck w)\<lparr>accfrozens := tput user time (accfrozens (lck w))\<rparr>\<rparr>))"

fun hddlock_apply :: "ctx \<Rightarrow> lock_act \<Rightarrow> world \<Rightarrow> world result" where
  "hddlock_apply c Init w = init c w"
| "hddlock_apply c (Addrule i ts ps d) w = addrule c i ts ps d w"
| "hddlock_apply c (Locktransfer i f t q a m) w = locktransfer c i f t q a m w"
| "hddlock_apply c (Addaccbig u d) w = addaccbig c u d w"
| "hddlock_apply c (Rmvaccbig u) w = rmvaccbig c u w"
| "hddlock_apply c (Frozenuser u t) w = frozenuser c u t w"

subsection \<open>The invariant is kept\<close>

lemma check_percentages_Inr [simp]:
  "check_percentages ps rest = Inr y \<longleftrightarrow> list_all (\<lambda>p. p \<le> 100) ps \<and> rest = Inr y"
  by (induction ps) auto

lemma lock_inv_rules:
  assumes "lock_inv db" and "lockrule_ok r" and "\<not> has_key (lockrules db) k"
  shows "lock_inv (db\<lparr>lockrules := tput k r (lockrules db)\<rparr>)"
  using assms by (auto simp: lock_inv_def acclock_ok_def has_key_def)

lemma lock_inv_locks:
  assumes "lock_inv db" and "acclock_ok db k l"
  shows "lock_inv (db\<lparr>acclocks := tput (u, k) l (acclocks db)\<rparr>)"
  using assms by (auto simp: lock_inv_def acclock_ok_def)

lemma acclock_ok_frame [frame_simps, simp]:
  "acclock_ok (db\<lparr>accbigs := t\<rparr>) k l = acclock_ok db k l"
  "acclock_ok (db\<lparr>accfrozens := t'\<rparr>) k l = acclock_ok db k l"
  by (simp_all add: acclock_ok_def)

lemma locktransfer_inv:
  assumes inv: "lock_inv (lck w)" and q: "amount q \<le> max_amount"
    and run: "locktransfer c k from to q a memo w = Inr w'"
  shows "lock_inv (lck w')"
proof (cases "map_of (acclocks (lck w)) (to, k)")
  case None
  then have "lck w' = (lck w)\<lparr>acclocks := tput (to, k) \<lparr>al_quantity = q, al_lockruleid = k, al_user = to,
      al_from = from, al_memo = memo, al_time = current_time c\<rparr> (acclocks (lck w))\<rparr>"
    using run by (auto simp: locktransfer_def split: if_splits)
  moreover have "acclock_ok (lck w) k \<lparr>al_quantity = q, al_lockruleid = k, al_user = to,
      al_from = from, al_memo = memo, al_time = current_time c\<rparr>"
    using run q by (simp add: locktransfer_def acclock_ok_def)
  ultimately show ?thesis using lock_inv_locks [OF inv] by simp
next
  case (Some l)
  let ?x = "i64 (amount (al_quantity l) + amount q)"
  have l: "acclock_ok (lck w) k l" using inv Some by (simp add: lock_inv_def)
  have r: "- max_amount \<le> ?x" "?x \<le> max_amount" and q0: "0 < amount q"
    using run Some by (auto simp: locktransfer_def split: if_splits)
  have "?x = amount (al_quantity l) + amount q"
    using l q q0 by (intro i64_add_in_range) (simp_all add: acclock_ok_def max_amount_def)
  then have "acclock_ok (lck w) k (l\<lparr>al_time := current_time c, al_quantity := (al_quantity l)\<lparr>amount := ?x\<rparr>\<rparr>)"
    using l q0 r by (simp add: acclock_ok_def)
  moreover have "lck w' = (lck w)\<lparr>acclocks := tput (to, k)
      (l\<lparr>al_time := current_time c, al_quantity := (al_quantity l)\<lparr>amount := ?x\<rparr>\<rparr>) (acclocks (lck w))\<rparr>"
    using run Some by (auto simp: locktransfer_def split: if_splits)
  ultimately show ?thesis using lock_inv_locks [OF inv] by simp
qed

lemma hddlock_apply_inv:
  assumes inv: "lock_inv (lck w)" and run: "hddlock_apply c a w = Inr w'"
    and valid: "\<And>k f t q x m. a = Locktransfer k f t q x m \<Longrightarrow> amount q \<le> max_amount"
  shows "lock_inv (lck w')"
proof (cases a)
  case Init then show ?thesis using inv run by (simp add: init_def)
next
  case (Addrule k ts ps d)
  then show ?thesis using run inv
    by (auto simp: addrule_def lockrule_ok_def intro!: lock_inv_rules)
next
  case (Locktransfer k f t q x m)
  then show ?thesis using run inv valid locktransfer_inv by simp
next
  case (Addaccbig u d)
  then show ?thesis using run inv by (auto simp: addaccbig_def lock_inv_def)
next
  case (Rmvaccbig u)
  then show ?thesis using run inv
    by (auto simp: rmvaccbig_def lock_inv_def split: if_splits)
next
  case (Frozenuser u t)
  then show ?thesis using run inv
    by (auto simp: frozenuser_def lock_inv_def split: if_splits)
qed

lemma hddlock_apply_frame [frame_simps]:
  assumes "hddlock_apply c a w = Inr w'"
  shows "tok w' = tok w \<and> dep w' = dep w \<and> pool w' = pool w \<and> chn w' = chn w \<and> syst w' = syst w"
  using assms
  by (cases a) (auto simp: init_def addrule_def locktransfer_def addaccbig_def rmvaccbig_def frozenuser_def
      split: if_splits option.splits)

end
