(* ===== verification/Token.thy ===== *)
theory Token
  imports Frames
begin

text \<open>
  The token contract \<open>src/contracts/eosio.token\<close> with the changes of this chain:
  a transfer of the core token checks the storage deposit and the locked grants
  of the sender, except for a few accounts.  Every action is one definition.

  The invariant \<open>token_inv\<close> says that the balances of a symbol add up to its
  supply, which lies between zero and the maximum supply, and that every balance
  is positive.  Every action keeps the sums; that no balance becomes negative needs that
  what the contract keeps back of the sender (\<open>hold_of\<close>) is not negative, which
  \<open>hddlock\<close> does not ensure for grants beyond the range of assets.  A transfer that
  takes the checked branch leaves the sender with at least what is kept back: the deposit
  and the locked part of the grants.
\<close>

subsection \<open>Balances\<close>

definition sub_amount :: "name \<Rightarrow> asset \<Rightarrow> asset \<Rightarrow> token_db \<Rightarrow> token_db result" where
  "sub_amount owner value from db =
     (if amount from = amount value
      then Inr (db\<lparr>accounts := tdel (owner, sym_name (symbol value)) (accounts db)\<rparr>)
      else rbind (asset_sub from value) (\<lambda>b.
           Inr (db\<lparr>accounts := tput (owner, sym_name (symbol value)) b (accounts db)\<rparr>)))"

definition sub_balance :: "name \<Rightarrow> asset \<Rightarrow> world \<Rightarrow> world result" where
  "sub_balance owner value w =
     fetch (accounts (tok w)) (owner, sym_name (symbol value)) ''no balance object found'' (\<lambda>from.
     ensure (amount from \<ge> amount value) ''overdrawn balance'' (
     rbind (sub_amount owner value from (tok w)) (\<lambda>db. Inr (w\<lparr>tok := db\<rparr>))))"

definition sub_balance_yta :: "ctx \<Rightarrow> name \<Rightarrow> asset \<Rightarrow> name \<Rightarrow> world \<Rightarrow> world result" where
  "sub_balance_yta c owner value to w =
     fetch (accounts (tok w)) (owner, sym_name (symbol value)) ''no balance object found'' (\<lambda>from.
     rbind (if to = eosio_stake then
              ensure (\<not> is_frozen c w owner) ''user is frozen'' (
              rbind (get_deposit w owner) (\<lambda>deposit_and_forfeit.
              ensure (symbol deposit_and_forfeit = symbol value) ''symbol precision mismatch'' (
              ensure (i64 (amount from - amount deposit_and_forfeit) \<ge> amount value) ''overdrawn balance'' (
              Inr ()))))
            else
              ensure (\<not> is_frozen c w owner) ''user is frozen'' (
              rbind (get_deposit w owner) (\<lambda>frozen_asset.
              rbind (get_lock_asset c w owner) (\<lambda>lock_asset.
              ensure (symbol frozen_asset = symbol lock_asset) ''symbol precision mismatch'' (
              let frozen = frozen_asset\<lparr>amount := i64 (amount frozen_asset + amount lock_asset)\<rparr> in
              ensure (symbol frozen = symbol value) ''symbol precision mismatch'' (
              ensure (i64 (amount from - amount frozen) \<ge> amount value) ''overdrawn balance'' (
              Inr ())))))))
     (\<lambda>_.
     rbind (sub_amount owner value from (tok w)) (\<lambda>db. Inr (w\<lparr>tok := db\<rparr>))))"

definition add_balance :: "name \<Rightarrow> asset \<Rightarrow> world \<Rightarrow> world result" where
  "add_balance owner value w =
     (let k = (owner, sym_name (symbol value)) in
      case map_of (accounts (tok w)) k of
        None \<Rightarrow>
          rbind (emplace k value (accounts (tok w))) (\<lambda>t.
          Inr (w\<lparr>tok := (tok w)\<lparr>accounts := t\<rparr>\<rparr>))
      | Some b \<Rightarrow>
          rbind (asset_add b value) (\<lambda>b'.
          Inr (w\<lparr>tok := (tok w)\<lparr>accounts := tput k b' (accounts (tok w))\<rparr>\<rparr>)))"

subsection \<open>Actions\<close>

definition create :: "ctx \<Rightarrow> name \<Rightarrow> asset \<Rightarrow> world \<Rightarrow> world result" where
  "create c iss maximum_supply w =
     require_auth c token_account (
     let sy = symbol maximum_supply in
     ensure (is_valid_symbol sy) ''invalid symbol name'' (
     ensure (asset_is_valid maximum_supply) ''invalid supply'' (
     ensure (amount maximum_supply > 0) ''max-supply must be positive'' (
     ensure (\<not> has_key (stats (tok w)) (sym_name sy)) ''token with symbol already exists'' (
     rbind (emplace (sym_name sy)
        \<lparr>st_supply = \<lparr>amount = 0, symbol = sy\<rparr>, st_max_supply = maximum_supply, st_issuer = iss\<rparr>
        (stats (tok w))) (\<lambda>t.
     Inr (w\<lparr>tok := (tok w)\<lparr>stats := t\<rparr>\<rparr>)))))))"

definition issue :: "ctx \<Rightarrow> name \<Rightarrow> asset \<Rightarrow> string \<Rightarrow> world \<Rightarrow> world result" where
  "issue c to quantity memo w =
     (let sy = symbol quantity in
     ensure (is_valid_symbol sy) ''invalid symbol name'' (
     ensure (length memo \<le> 256) ''memo has more than 256 bytes'' (
     fetch (stats (tok w)) (sym_name sy) ''token with symbol does not exist, create token before issue'' (\<lambda>st.
     require_auth c (st_issuer st) (
     ensure (asset_is_valid quantity) ''invalid quantity'' (
     ensure (amount quantity > 0) ''must issue positive quantity'' (
     ensure (sy = symbol (st_supply st)) ''symbol precision mismatch'' (
     ensure (amount quantity \<le> i64 (amount (st_max_supply st) - amount (st_supply st)))
       ''quantity exceeds available supply'' (
     rbind (asset_add (st_supply st) quantity) (\<lambda>s.
     let w = w\<lparr>tok := (tok w)\<lparr>stats := tput (sym_name sy) (st\<lparr>st_supply := s\<rparr>) (stats (tok w))\<rparr>\<rparr> in
     rbind (add_balance (st_issuer st) quantity w) (\<lambda>w.
     if to \<noteq> st_issuer st
     then send c token_account (mk_act (st_issuer st) token_account (Tok (Transfer (st_issuer st) to quantity memo))) w
     else Inr w)))))))))))"

definition retire :: "ctx \<Rightarrow> asset \<Rightarrow> string \<Rightarrow> world \<Rightarrow> world result" where
  "retire c quantity memo w =
     (let sy = symbol quantity in
     ensure (is_valid_symbol sy) ''invalid symbol name'' (
     ensure (length memo \<le> 256) ''memo has more than 256 bytes'' (
     fetch (stats (tok w)) (sym_name sy) ''token with symbol does not exist'' (\<lambda>st.
     require_auth c (st_issuer st) (
     ensure (asset_is_valid quantity) ''invalid quantity'' (
     ensure (amount quantity > 0) ''must retire positive quantity'' (
     ensure (sy = symbol (st_supply st)) ''symbol precision mismatch'' (
     rbind (asset_sub (st_supply st) quantity) (\<lambda>s.
     let w = w\<lparr>tok := (tok w)\<lparr>stats := tput (sym_name sy) (st\<lparr>st_supply := s\<rparr>) (stats (tok w))\<rparr>\<rparr> in
     sub_balance (st_issuer st) quantity w)))))))))"

text \<open>The transfers that do not look at deposit and lock of the sender.\<close>

definition unchecked_from :: "name \<Rightarrow> asset \<Rightarrow> bool" where
  "unchecked_from from quantity \<longleftrightarrow>
     symbol quantity \<noteq> CORE_SYMBOL \<or> from = hddbasefound \<or> from = fund_sys"

definition forfeit_account :: "name \<Rightarrow> bool" where
  "forfeit_account to \<longleftrightarrow> to = yottaforfeit \<or> to = forfeit_sys"

definition transfer :: "ctx \<Rightarrow> name \<Rightarrow> name \<Rightarrow> asset \<Rightarrow> string \<Rightarrow> world \<Rightarrow> world result" where
  "transfer c from to quantity memo w =
     ensure (from \<noteq> to) ''cannot transfer to self'' (
     require_auth c from (
     ensure (is_account c to) ''to account does not exist'' (
     fetch (stats (tok w)) (sym_name (symbol quantity)) ''unable to find key'' (\<lambda>st.
     ensure (asset_is_valid quantity) ''invalid quantity'' (
     ensure (amount quantity > 0) ''must transfer positive quantity'' (
     ensure (symbol quantity = symbol (st_supply st)) ''symbol precision mismatch'' (
     ensure (length memo \<le> 256) ''memo has more than 256 bytes'' (
     rbind (if unchecked_from from quantity then
              sub_balance from quantity (require_recipient to (require_recipient from w))
            else if forfeit_account to then
              sub_balance from quantity (require_recipient to w)
            else
              sub_balance_yta c from quantity to (require_recipient to (require_recipient from w)))
     (\<lambda>w. add_balance to quantity w)))))))))"

fun token_apply :: "ctx \<Rightarrow> token_act \<Rightarrow> world \<Rightarrow> world result" where
  "token_apply c (Create i m) w = create c i m w"
| "token_apply c (Issue t q m) w = issue c t q m w"
| "token_apply c (Transfer f t q m) w = transfer c f t q m w"
| "token_apply c (Retire q m) w = retire c q m w"

subsection \<open>The abstract ledger\<close>

text \<open>
  What the contract promises: a balance per owner and symbol and a supply per
  symbol, on which a transfer moves an amount and issuing and retiring change
  balance and supply together.
\<close>

record ledger =
  lg_balance :: "name \<Rightarrow> u64 \<Rightarrow> int"
  lg_supply :: "u64 \<Rightarrow> int"

definition bal :: "token_db \<Rightarrow> name \<Rightarrow> u64 \<Rightarrow> int" where
  "bal db owner sy = (case map_of (accounts db) (owner, sy) of None \<Rightarrow> 0 | Some b \<Rightarrow> amount b)"

definition supply_of :: "token_db \<Rightarrow> u64 \<Rightarrow> int" where
  "supply_of db sy = (case map_of (stats db) sy of None \<Rightarrow> 0 | Some st \<Rightarrow> amount (st_supply st))"

definition ledger_of :: "token_db \<Rightarrow> ledger" where
  "ledger_of db = \<lparr>lg_balance = bal db, lg_supply = supply_of db\<rparr>"

definition credit :: "name \<Rightarrow> u64 \<Rightarrow> int \<Rightarrow> (name \<Rightarrow> u64 \<Rightarrow> int) \<Rightarrow> name \<Rightarrow> u64 \<Rightarrow> int" where
  "credit owner sy x b = (\<lambda>n s. if n = owner \<and> s = sy then b n s + x else b n s)"

definition spec_transfer :: "name \<Rightarrow> name \<Rightarrow> u64 \<Rightarrow> int \<Rightarrow> ledger \<Rightarrow> ledger" where
  "spec_transfer from to sy x l =
     l\<lparr>lg_balance := credit to sy x (credit from sy (- x) (lg_balance l))\<rparr>"

definition spec_mint :: "name \<Rightarrow> u64 \<Rightarrow> int \<Rightarrow> ledger \<Rightarrow> ledger" where
  "spec_mint owner sy x l =
     l\<lparr>lg_balance := credit owner sy x (lg_balance l),
       lg_supply := (lg_supply l)(sy := lg_supply l sy + x)\<rparr>"

subsection \<open>The invariant\<close>

definition bal_row :: "u64 \<Rightarrow> name \<times> u64 \<Rightarrow> asset \<Rightarrow> int" where
  "bal_row sy k b = (if snd k = sy then amount b else 0)"

definition stats_ok :: "u64 \<Rightarrow> currency_stats \<Rightarrow> bool" where
  "stats_ok sy st \<longleftrightarrow> sym_name (symbol (st_supply st)) = sy \<and> symbol (st_max_supply st) = symbol (st_supply st)
     \<and> 0 \<le> amount (st_supply st) \<and> amount (st_supply st) \<le> amount (st_max_supply st)
     \<and> amount (st_max_supply st) \<le> max_amount"

definition balance_ok :: "token_db \<Rightarrow> u64 \<Rightarrow> asset \<Rightarrow> bool" where
  "balance_ok db sy b \<longleftrightarrow> 0 < amount b \<and>
     (\<exists>st. map_of (stats db) sy = Some st \<and> symbol b = symbol (st_supply st))"

text \<open>
  In the middle of an action the sum of the balances of a symbol may fall short
  of its supply by a debt; between actions the debt is zero.
\<close>

definition token_inv_debt :: "(u64 \<Rightarrow> int) \<Rightarrow> token_db \<Rightarrow> bool" where
  "token_inv_debt d db \<longleftrightarrow> twf (accounts db) \<and> twf (stats db) \<and>
     (\<forall>sy st. map_of (stats db) sy = Some st \<longrightarrow> stats_ok sy st) \<and>
     (\<forall>n sy b. map_of (accounts db) (n, sy) = Some b \<longrightarrow> balance_ok db sy b) \<and>
     (\<forall>sy. tsum (bal_row sy) (accounts db) = supply_of db sy - d sy)"

definition token_inv :: "token_db \<Rightarrow> bool" where
  "token_inv db = token_inv_debt (\<lambda>_. 0) db"

lemma token_invD:
  assumes "token_inv_debt d db"
  shows "twf (accounts db)" and "twf (stats db)"
    and "\<And>sy st. map_of (stats db) sy = Some st \<Longrightarrow> stats_ok sy st"
    and "\<And>n sy b. map_of (accounts db) (n, sy) = Some b \<Longrightarrow> balance_ok db sy b"
    and "\<And>sy. tsum (bal_row sy) (accounts db) = supply_of db sy - d sy"
  using assms by (simp_all add: token_inv_debt_def)

lemma balance_le_total:
  assumes inv: "token_inv_debt d db" and b: "map_of (accounts db) (n, sy) = Some b"
  shows "amount b \<le> supply_of db sy - d sy"
proof -
  have "bal_row sy (n, sy) b \<le> tsum (bal_row sy) (accounts db)"
    using token_invD(1,4) [OF inv] b
    by (intro tbl.row_le_total) (auto simp: bal_row_def balance_ok_def less_imp_le)
  then show ?thesis by (simp add: token_invD(5) [OF inv] bal_row_def)
qed

lemma supply_range:
  assumes "token_inv_debt d db"
  shows "0 \<le> supply_of db sy" and "supply_of db sy \<le> max_amount"
  using token_invD(3) [OF assms, of sy]
  by (auto simp: supply_of_def stats_ok_def max_amount_def split: option.split)

lemma sub_amount_effect:
  assumes inv: "token_inv_debt d db" and sy: "sym_name (symbol v) = sy"
    and b: "map_of (accounts db) (n, sy) = Some b"
    and v: "0 < amount v" "amount v \<le> amount b" and le: "supply_of db sy - d sy \<le> max_amount"
    and run: "sub_amount n v b db = Inr db'"
  shows "bal db' = credit n sy (- amount v) (bal db)" and "stats db' = stats db"
    and "token_inv_debt (d(sy := d sy + amount v)) db'"
proof -
  note twf = token_invD(1) [OF inv]
  have w: "i64 (amount b - amount v) = amount b - amount v"
    using v le balance_le_total [OF inv b] by (intro i64_add_in_range) (simp_all add: max_amount_def)
  have db': "db' = db\<lparr>accounts := (if amount b = amount v then tdel (n, sy) (accounts db)
      else tput (n, sy) (b\<lparr>amount := amount b - amount v\<rparr>) (accounts db))\<rparr>"
    using run w sy by (auto simp: sub_amount_def split: if_splits)
  show "bal db' = credit n sy (- amount v) (bal db)"
    using b by (auto simp: fun_eq_iff bal_def credit_def db')
  show "stats db' = stats db" by (simp add: db')
  have "balance_ok db sy b" using token_invD(4) [OF inv b] .
  then have "\<And>n sy b. map_of (accounts db') (n, sy) = Some b \<Longrightarrow> balance_ok db sy b"
    using v token_invD(4) [OF inv] by (auto simp: db' balance_ok_def split: if_splits)
  moreover have "\<And>sy'. tsum (bal_row sy') (accounts db') = supply_of db sy' - (d(sy := d sy + amount v)) sy'"
    using twf b by (simp add: db' tbl.total_put tbl.total_del bal_row_def token_invD(5) [OF inv])
  ultimately show "token_inv_debt (d(sy := d sy + amount v)) db'"
    using inv twf by (simp add: token_inv_debt_def db' balance_ok_def supply_of_def)
qed

lemma add_balance_effect:
  assumes inv: "token_inv_debt d (tok w)" and st: "map_of (stats (tok w)) sy = Some st"
    and v: "symbol v = symbol (st_supply st)" "0 < amount v" and le: "supply_of (tok w) sy - d sy + amount v \<le> max_amount"
  shows "\<exists>db. add_balance n v w = Inr (w\<lparr>tok := db\<rparr>) \<and> bal db = credit n sy (amount v) (bal (tok w))
     \<and> stats db = stats (tok w) \<and> token_inv_debt (d(sy := d sy - amount v)) db"
proof -
  note twf = token_invD(1) [OF inv]
  have sy: "sym_name (symbol v) = sy" using token_invD(3) [OF inv st] v by (simp add: stats_ok_def)
  let ?b = "case map_of (accounts (tok w)) (n, sy) of None \<Rightarrow> v | Some b \<Rightarrow> b\<lparr>amount := amount b + amount v\<rparr>"
  let ?db = "(tok w)\<lparr>accounts := tput (n, sy) ?b (accounts (tok w))\<rparr>"
  have ok: "balance_ok (tok w) sy ?b"
    using st v token_invD(4) [OF inv, of n sy] by (auto simp: balance_ok_def split: option.split)
  have run: "add_balance n v w = Inr (w\<lparr>tok := ?db\<rparr>)"
  proof (cases "map_of (accounts (tok w)) (n, sy)")
    case None then show ?thesis by (simp add: add_balance_def sy)
  next
    case (Some b)
    have "balance_ok (tok w) sy b" using token_invD(4) [OF inv Some] .
    then have r: "0 < amount b" "amount b + amount v \<le> max_amount" "symbol v = symbol b"
      using balance_le_total [OF inv Some] le v st by (auto simp: balance_ok_def)
    then have "i64 (amount b + amount v) = amount b + amount v"
      using v by (intro i64_add_in_range) (simp_all add: max_amount_def)
    moreover have "sym_name (symbol b) = sy" using sy r by simp
    ultimately show ?thesis using Some r v by (simp add: add_balance_def Let_def max_amount_def)
  qed
  have "bal ?db = credit n sy (amount v) (bal (tok w))"
    by (auto simp: fun_eq_iff bal_def credit_def split: option.split)
  moreover have "\<And>n' sy' b. map_of (accounts ?db) (n', sy') = Some b \<Longrightarrow> balance_ok (tok w) sy' b"
    using ok token_invD(4) [OF inv] by (auto split: if_splits)
  moreover have "\<And>sy'. tsum (bal_row sy') (accounts ?db) = supply_of (tok w) sy' - (d(sy := d sy - amount v)) sy'"
    using twf by (auto simp: tbl.total_put bal_row_def token_invD(5) [OF inv] split: option.split)
  ultimately show ?thesis
    using run inv twf by (intro exI [of _ ?db]) (simp add: token_inv_debt_def balance_ok_def supply_of_def)
qed

text \<open>
  The same without the condition that the balance suffices: what is booked is exact for
  every amount in range, also where the stored balance of the sender becomes negative.
\<close>

lemma sub_amount_books:
  assumes twf: "twf (accounts db)" and sy: "sym_name (symbol v) = sy" and b: "map_of (accounts db) (n, sy) = Some b"
    and r: "0 \<le> amount b" "amount b \<le> max_amount" "0 < amount v" "amount v \<le> max_amount"
    and run: "sub_amount n v b db = Inr db'"
  shows "bal db' = credit n sy (- amount v) (bal db)" and "stats db' = stats db" and "twf (accounts db')"
    and "tsum (bal_row s) (accounts db') = tsum (bal_row s) (accounts db) - (if s = sy then amount v else 0)"
    and "k \<noteq> (n, sy) \<Longrightarrow> map_of (accounts db') k = map_of (accounts db) k"
proof -
  have "i64 (amount b - amount v) = amount b - amount v" using r by (intro i64_add_in_range) simp_all
  then have db': "db' = db\<lparr>accounts := (if amount b = amount v then tdel (n, sy) (accounts db)
      else tput (n, sy) (b\<lparr>amount := amount b - amount v\<rparr>) (accounts db))\<rparr>"
    using run sy by (auto simp: sub_amount_def split: if_splits)
  show "bal db' = credit n sy (- amount v) (bal db)" using b by (auto simp: fun_eq_iff bal_def credit_def db')
  show "stats db' = stats db" "twf (accounts db')" using twf by (simp_all add: db')
  show "tsum (bal_row s) (accounts db') = tsum (bal_row s) (accounts db) - (if s = sy then amount v else 0)"
    using twf b by (simp add: db' tbl.total_put tbl.total_del bal_row_def)
  show "k \<noteq> (n, sy) \<Longrightarrow> map_of (accounts db') k = map_of (accounts db) k" by (simp add: db')
qed

lemma add_balance_books:
  assumes twf: "twf (accounts (tok w))" and sy: "sym_name (symbol v) = sy" and v: "0 < amount v" "amount v \<le> max_amount"
    and b: "\<And>b. map_of (accounts (tok w)) (n, sy) = Some b \<Longrightarrow> 0 \<le> amount b \<and> amount b \<le> max_amount"
    and run: "add_balance n v w = Inr w'"
  obtains db where "w' = w\<lparr>tok := db\<rparr>" "bal db = credit n sy (amount v) (bal (tok w))" "stats db = stats (tok w)" "twf (accounts db)"
    "\<And>s. tsum (bal_row s) (accounts db) = tsum (bal_row s) (accounts (tok w)) + (if s = sy then amount v else 0)"
proof -
  define r where "r = (case map_of (accounts (tok w)) (n, sy) of None \<Rightarrow> v | Some b \<Rightarrow> b\<lparr>amount := amount b + amount v\<rparr>)"
  have e: "i64 (amount x + amount v) = amount x + amount v" if "map_of (accounts (tok w)) (n, sy) = Some x" for x
    using b [OF that] v by (intro i64_add_in_range) simp_all
  have w': "w' = w\<lparr>tok := (tok w)\<lparr>accounts := tput (n, sy) r (accounts (tok w))\<rparr>\<rparr>"
    using run sy e by (auto simp: add_balance_def r_def Let_def split: option.splits)
  show ?thesis
  proof (rule that [OF w'])
    show "bal ((tok w)\<lparr>accounts := tput (n, sy) r (accounts (tok w))\<rparr>) = credit n sy (amount v) (bal (tok w))"
      by (auto simp: fun_eq_iff bal_def credit_def r_def split: option.split)
    show "tsum (bal_row s) (accounts ((tok w)\<lparr>accounts := tput (n, sy) r (accounts (tok w))\<rparr>))
        = tsum (bal_row s) (accounts (tok w)) + (if s = sy then amount v else 0)" for s
      using twf by (auto simp: tbl.total_put bal_row_def r_def split: option.split)
  qed (use twf in simp_all)
qed

subsection \<open>Actions against the ledger\<close>

lemma sub_balance_Inr:
  assumes "sub_balance n v w = Inr w'"
  shows "\<exists>b db. map_of (accounts (tok w)) (n, sym_name (symbol v)) = Some b \<and> amount v \<le> amount b
     \<and> sub_amount n v b (tok w) = Inr db \<and> w' = w\<lparr>tok := db\<rparr>"
  using assms by (auto simp: sub_balance_def)

text \<open>What the checked branch of a transfer establishes of the sender.\<close>

definition spendable :: "ctx \<Rightarrow> world \<Rightarrow> name \<Rightarrow> name \<Rightarrow> asset \<Rightarrow> int \<Rightarrow> bool" where
  "spendable c w owner to v b \<longleftrightarrow> \<not> is_frozen c w owner \<and>
     (\<exists>d l. get_deposit w owner = Inr d \<and> symbol d = symbol v \<and>
        (if to = eosio_stake then amount v \<le> i64 (b - amount d)
         else get_lock_asset c w owner = Inr l \<and> symbol l = symbol d
           \<and> amount v \<le> i64 (b - i64 (amount d + amount l))))"

text \<open>
  What the contract keeps back of the balance of a sender, as it computes it in 64 bits: the
  storage deposit and, unless the receiver is the stake account, the locked part of the grants.
\<close>

definition hold_of :: "ctx \<Rightarrow> world \<Rightarrow> name \<Rightarrow> name \<Rightarrow> int result" where
  "hold_of c w owner to =
     rbind (get_deposit w owner) (\<lambda>d.
     if to = eosio_stake then Inr (amount d)
     else rbind (get_lock_asset c w owner) (\<lambda>l. Inr (i64 (amount d + amount l))))"

lemma sub_balance_yta_Inr:
  assumes "sub_balance_yta c n v to w = Inr w'"
  shows "\<exists>b db. map_of (accounts (tok w)) (n, sym_name (symbol v)) = Some b \<and> spendable c w n to v (amount b)
     \<and> sub_amount n v b (tok w) = Inr db \<and> w' = w\<lparr>tok := db\<rparr>"
  using assms by (auto simp: sub_balance_yta_def spendable_def Let_def split: if_splits)

definition checked_transfer :: "name \<Rightarrow> name \<Rightarrow> asset \<Rightarrow> bool" where
  "checked_transfer from to q \<longleftrightarrow> \<not> unchecked_from from q \<and> \<not> forfeit_account to"

lemma spendable_frame [frame_simps, simp]:
  "spendable c (require_recipient x w) n to v b = spendable c w n to v b"
  by (simp add: spendable_def is_frozen_def get_deposit_def get_lock_asset_def)

lemma transfer_Inr:
  assumes "transfer c from to q memo w = Inr w'"
  shows "\<exists>st b db w1. from \<noteq> to \<and> from \<in> set (auths c) \<and> map_of (stats (tok w)) (sym_name (symbol q)) = Some st
     \<and> symbol q = symbol (st_supply st) \<and> 0 < amount q \<and> amount q \<le> max_amount
     \<and> map_of (accounts (tok w)) (from, sym_name (symbol q)) = Some b
     \<and> (if checked_transfer from to q then spendable c w from to q (amount b) else amount q \<le> amount b)
     \<and> sub_amount from q b (tok w) = Inr db \<and> tok w1 = db
     \<and> lck w1 = lck w \<and> dep w1 = dep w \<and> pool w1 = pool w \<and> chn w1 = chn w \<and> syst w1 = syst w
     \<and> inlines w1 = inlines w \<and> add_balance to q w1 = Inr w'"
proof -
  have pre: "from \<noteq> to" "from \<in> set (auths c)" "0 < amount q" "amount q \<le> max_amount"
    using assms by (auto simp: transfer_def asset_is_valid_def is_amount_within_range_def)
  obtain st where st: "map_of (stats (tok w)) (sym_name (symbol q)) = Some st" "symbol q = symbol (st_supply st)"
    using assms by (auto simp: transfer_def)
  let ?w2 = "require_recipient to (require_recipient from w)"
  show ?thesis
  proof (cases "checked_transfer from to q")
    case True
    then obtain w1 where w1: "sub_balance_yta c from q to ?w2 = Inr w1" "add_balance to q w1 = Inr w'"
      using assms by (auto simp: transfer_def checked_transfer_def)
    then obtain b db where "map_of (accounts (tok w)) (from, sym_name (symbol q)) = Some b"
        "spendable c w from to q (amount b)" "sub_amount from q b (tok w) = Inr db" "w1 = ?w2\<lparr>tok := db\<rparr>"
      using sub_balance_yta_Inr [OF w1(1)] by auto
    then show ?thesis using pre st True w1(2)
      by (intro exI [of _ st] exI [of _ b] exI [of _ db] exI [of _ w1]) simp
  next
    case False
    then obtain w0 w1 where w1: "w0 = ?w2 \<or> w0 = require_recipient to w" "sub_balance from q w0 = Inr w1"
        "add_balance to q w1 = Inr w'"
      using assms by (auto simp: transfer_def checked_transfer_def split: if_splits)
    then obtain b db where "map_of (accounts (tok w)) (from, sym_name (symbol q)) = Some b"
        "amount q \<le> amount b" "sub_amount from q b (tok w) = Inr db" "w1 = w0\<lparr>tok := db\<rparr>"
      using sub_balance_Inr [OF w1(2)] by auto
    then show ?thesis using pre st False w1
      by (intro exI [of _ st] exI [of _ b] exI [of _ db] exI [of _ w1]) auto
  qed
qed

lemma i64_le: "- 9223372036854775808 \<le> x \<Longrightarrow> i64 x \<le> x"
  unfolding i64_def using zmod_le_nonneg_dividend [of "x + 9223372036854775808" 18446744073709551616] by simp

lemma hold_of_range: "hold_of c w n to = Inr h \<Longrightarrow> h < 9223372036854775808"
proof -
  have "amount d \<le> max_amount" if "get_deposit w n = Inr d" for d
    using that by (auto simp: get_deposit_def add_pool_amount_def max_amount_def split: option.splits)
  then show "hold_of c w n to = Inr h \<Longrightarrow> h < 9223372036854775808"
    using in_i64_i64 by (fastforce simp: hold_of_def in_i64_def max_amount_def split: if_splits)
qed

lemma spendable_hold:
  assumes "spendable c w n to v b" and "0 \<le> b"
  shows "\<exists>h. hold_of c w n to = Inr h \<and> amount v + h \<le> b"
proof -
  obtain h where h: "hold_of c w n to = Inr h" "amount v \<le> i64 (b - h)"
    using assms(1) by (cases "to = eosio_stake") (auto simp: spendable_def hold_of_def)
  have "i64 (b - h) \<le> b - h" using hold_of_range [OF h(1)] assms(2) by (intro i64_le) simp
  then show ?thesis using h by (intro exI [of _ h]) simp
qed

lemma stored_balance_range:
  assumes "token_inv db" and "map_of (accounts db) (n, sy) = Some b"
  shows "0 \<le> amount b" and "amount b \<le> max_amount"
  using balance_le_total [OF assms [unfolded token_inv_def]] supply_range(2) [OF assms(1) [unfolded token_inv_def], of sy]
    token_invD(4) [OF assms [unfolded token_inv_def]] by (auto simp: balance_ok_def)

text \<open>A transfer moves its amount, whatever the holds of the sender are.\<close>

lemma transfer_books:
  assumes inv: "token_inv (tok w)" and run: "transfer c from to q memo w = Inr w'"
  shows "ledger_of (tok w') = spec_transfer from to (sym_name (symbol q)) (amount q) (ledger_of (tok w))"
    and "lck w' = lck w \<and> dep w' = dep w \<and> pool w' = pool w \<and> chn w' = chn w \<and> syst w' = syst w"
    and "inlines w' = inlines w" and "stats (tok w') = stats (tok w)"
    and "tsum (bal_row s) (accounts (tok w')) = tsum (bal_row s) (accounts (tok w))"
proof -
  let ?sy = "sym_name (symbol q)"
  obtain b db w1 where q: "0 < amount q" "amount q \<le> max_amount" and ft: "from \<noteq> to"
    and b: "map_of (accounts (tok w)) (from, ?sy) = Some b"
    and sub: "sub_amount from q b (tok w) = Inr db" and w1: "tok w1 = db"
    and fr: "lck w1 = lck w" "dep w1 = dep w" "pool w1 = pool w" "chn w1 = chn w" "syst w1 = syst w" "inlines w1 = inlines w"
    and add: "add_balance to q w1 = Inr w'"
    using transfer_Inr [OF run] by blast
  have twf: "twf (accounts (tok w))" using token_invD(1) inv unfolding token_inv_def .
  note s = sub_amount_books [OF twf refl b stored_balance_range [OF inv b] q sub]
  have r: "0 \<le> amount x \<and> amount x \<le> max_amount" if "map_of (accounts (tok w1)) (to, ?sy) = Some x" for x
    using stored_balance_range [OF inv] s(5) [of "(to, ?sy)"] that w1 ft by auto
  obtain db' where db': "w' = w1\<lparr>tok := db'\<rparr>" "bal db' = credit to ?sy (amount q) (bal db)" "stats db' = stats db"
      "\<And>s. tsum (bal_row s) (accounts db') = tsum (bal_row s) (accounts db) + (if s = ?sy then amount q else 0)"
    using add_balance_books [OF _ refl q r add] s(3) w1 by metis
  show "ledger_of (tok w') = spec_transfer from to ?sy (amount q) (ledger_of (tok w))"
    using db' s(1,2) by (simp add: ledger_of_def spec_transfer_def supply_of_def fun_eq_iff)
  show "lck w' = lck w \<and> dep w' = dep w \<and> pool w' = pool w \<and> chn w' = chn w \<and> syst w' = syst w" "inlines w' = inlines w"
    "stats (tok w') = stats (tok w)" using db' s(2) fr by simp_all
  show "tsum (bal_row s) (accounts (tok w')) = tsum (bal_row s) (accounts (tok w))" using db'(1,4) s(4) by simp
qed

text \<open>
  The holds of an account: its deposits and its grants, each a sane amount.  With
  these the checked branch computes without wrap-around.
\<close>

definition pool_sane :: "(name, depositpool) table \<Rightarrow> name \<Rightarrow> bool" where
  "pool_sane t u \<longleftrightarrow> (\<forall>p. map_of t u = Some p \<longrightarrow> 0 \<le> amount (deposit_total p) \<and> amount (deposit_total p) \<le> max_amount)"

definition holds_sane :: "world \<Rightarrow> name \<Rightarrow> bool" where
  "holds_sane w u \<longleftrightarrow> lock_inv (lck w) \<and> list_all (\<lambda>l. amount (al_quantity l) \<le> 2 ^ 51) (locks_of (lck w) u)
     \<and> grants (locks_of (lck w) u) \<le> max_amount
     \<and> pool_sane (depositpools (dep w)) u \<and> pool_sane (depositpools2 (dep w)) u"

definition deposit_of :: "world \<Rightarrow> name \<Rightarrow> int" where
  "deposit_of w u = pool_total (depositpools (dep w)) u + pool_total (depositpools2 (dep w)) u"

lemma pool_total_nonneg: "pool_sane t u \<Longrightarrow> 0 \<le> pool_total t u"
  by (auto simp: pool_sane_def pool_total_def split: option.split)

lemma get_deposit_sane:
  assumes "get_deposit w u = Inr d" and "holds_sane w u"
  shows "amount d = deposit_of w u" and "0 \<le> amount d" and "amount d \<le> max_amount"
proof -
  show a: "amount d = deposit_of w u"
  proof -
    have r: "\<And>t p. pool_sane t u \<Longrightarrow> map_of t u = Some p \<Longrightarrow> is_amount_within_range (deposit_total p)"
      by (force simp: pool_sane_def is_amount_within_range_def max_amount_def)
    have "pool_sane (depositpools (dep w)) u" "pool_sane (depositpools2 (dep w)) u"
      using assms(2) by (simp_all add: holds_sane_def)
    then show ?thesis using get_deposit_Inr [OF assms(1) r r] by (simp add: deposit_of_def)
  qed
  then show "0 \<le> amount d"
    using assms(2) by (simp add: deposit_of_def holds_sane_def pool_total_nonneg)
  show "amount d \<le> max_amount"
    using assms(1) by (auto simp: get_deposit_def add_pool_amount_def max_amount_def split: option.splits)
qed

text \<open>The condition under which no balance becomes negative: what is kept back is not negative.\<close>

definition hold_nonneg :: "ctx \<Rightarrow> world \<Rightarrow> name \<Rightarrow> name \<Rightarrow> bool" where
  "hold_nonneg c w owner to \<longleftrightarrow> (case hold_of c w owner to of Inl _ \<Rightarrow> True | Inr h \<Rightarrow> 0 \<le> h)"

lemma hold_of_sane:
  assumes sane: "holds_sane w n" and h: "hold_of c w n to = Inr h"
  shows "\<exists>l. 0 \<le> l \<and> h = deposit_of w n + l \<and> (to \<noteq> eosio_stake \<longrightarrow> get_lock_asset c w n = Inr \<lparr>amount = l, symbol = CORE_SYMBOL\<rparr>)"
proof -
  obtain d where d: "get_deposit w n = Inr d" using h by (auto simp: hold_of_def)
  note dd = get_deposit_sane [OF d sane]
  obtain x where x: "get_lock_asset c w n = Inr \<lparr>amount = x, symbol = CORE_SYMBOL\<rparr>" "0 \<le> x" "x \<le> max_amount"
    using get_lock_asset_bounds [of w n c] sane by (force simp: holds_sane_def list_all_iff)
  have "i64 (amount d + x) = amount d + x" using dd x by (intro i64_bounds) (simp_all add: max_amount_def)
  then show ?thesis using h d dd x by (cases "to = eosio_stake") (auto simp: hold_of_def intro: exI [of _ 0])
qed

lemma holds_sane_nonneg: "holds_sane w n \<Longrightarrow> hold_nonneg c w n to"
proof -
  assume sane: "holds_sane w n"
  then have "0 \<le> deposit_of w n" by (simp add: deposit_of_def holds_sane_def pool_total_nonneg)
  then show ?thesis using hold_of_sane [OF sane] by (fastforce simp: hold_nonneg_def split: sum.splits)
qed

lemma transfer_within_balance:
  assumes inv: "token_inv (tok w)" and run: "transfer c from to q memo w = Inr w'"
  shows "(if checked_transfer from to q then \<exists>h. hold_of c w from to = Inr h \<and> amount q + h \<le> bal (tok w) from (sym_name (symbol q))
     else amount q \<le> bal (tok w) from (sym_name (symbol q)))"
proof -
  obtain b where b: "map_of (accounts (tok w)) (from, sym_name (symbol q)) = Some b"
    and le: "if checked_transfer from to q then spendable c w from to q (amount b) else amount q \<le> amount b"
    using transfer_Inr [OF run] by auto
  show ?thesis using le spendable_hold [OF _ stored_balance_range(1) [OF inv b], of c w "from" to q] b by (auto simp: bal_def)
qed

lemma transfer_inv:
  assumes inv: "token_inv (tok w)" and run: "transfer c from to q memo w = Inr w'"
    and hold: "checked_transfer from to q \<Longrightarrow> hold_nonneg c w from to"
  shows "token_inv (tok w')"
proof -
  let ?sy = "sym_name (symbol q)"
  have debt: "token_inv_debt (\<lambda>_. 0) (tok w)" using inv by (simp add: token_inv_def)
  obtain st b db w1 where st: "map_of (stats (tok w)) ?sy = Some st" "symbol q = symbol (st_supply st)"
    and q: "0 < amount q" "amount q \<le> max_amount" and ft: "from \<noteq> to"
    and b: "map_of (accounts (tok w)) (from, ?sy) = Some b"
    and chk: "if checked_transfer from to q then spendable c w from to q (amount b) else amount q \<le> amount b"
    and sub: "sub_amount from q b (tok w) = Inr db" and w1: "tok w1 = db"
    and fr: "lck w1 = lck w" "dep w1 = dep w" "pool w1 = pool w" "chn w1 = chn w" "syst w1 = syst w"
      "inlines w1 = inlines w"
    and add: "add_balance to q w1 = Inr w'"
    using transfer_Inr [OF run] by blast
  have bm: "0 \<le> amount b" "amount b \<le> max_amount"
    using balance_le_total [OF debt b] supply_range(2) [OF debt, of ?sy] token_invD(4) [OF debt b]
    by (auto simp: balance_ok_def)
  have le: "amount q \<le> amount b"
    using transfer_within_balance [OF inv run] hold b by (auto simp: bal_def hold_nonneg_def split: if_splits)
  note s = sub_amount_effect [OF debt refl b q(1) le _ sub]
  have s1: "bal db = credit from ?sy (- amount q) (bal (tok w))" "stats db = stats (tok w)"
      "token_inv_debt ((\<lambda>_. 0)(?sy := amount q)) db"
    using s supply_range(2) [OF debt] by simp_all
  have "supply_of db ?sy = supply_of (tok w) ?sy" by (simp add: supply_of_def s1)
  then obtain db' where db': "w' = w1\<lparr>tok := db'\<rparr>" "bal db' = credit to ?sy (amount q) (bal db)"
      "stats db' = stats db" "token_inv_debt ((\<lambda>_. 0)(?sy := amount q, ?sy := amount q - amount q)) db'"
    using add_balance_effect [of "(\<lambda>_. 0)(?sy := amount q)" w1 ?sy st q to] s1 w1 st q add supply_range(2) [OF debt, of ?sy]
    by auto
  have "(\<lambda>_. 0)(?sy := amount q, ?sy := amount q - amount q) = (\<lambda>_. 0)" by (simp add: fun_eq_iff)
  then show "token_inv (tok w')" using db'(1,4) by (simp add: token_inv_def)
qed

lemma stats_update_inv:
  assumes inv: "token_inv_debt d db" and st: "map_of (stats db) sy = Some st"
    and st': "stats_ok sy st'" "symbol (st_supply st') = symbol (st_supply st)"
  shows "token_inv_debt (d(sy := d sy + (amount (st_supply st') - amount (st_supply st)))) (db\<lparr>stats := tput sy st' (stats db)\<rparr>)"
proof -
  let ?db = "db\<lparr>stats := tput sy st' (stats db)\<rparr>"
  have "\<And>sy' b. balance_ok db sy' b \<Longrightarrow> balance_ok ?db sy' b"
    using st st' by (auto simp: balance_ok_def)
  then show ?thesis using inv st st' by (auto simp: token_inv_debt_def supply_of_def)
qed

lemma create_inv:
  assumes inv: "token_inv (tok w)" and run: "create c iss m w = Inr w'"
  shows "token_inv (tok w')" and "ledger_of (tok w') = ledger_of (tok w)"
proof -
  let ?sy = "sym_name (symbol m)"
  let ?st = "\<lparr>st_supply = \<lparr>amount = 0, symbol = symbol m\<rparr>, st_max_supply = m, st_issuer = iss\<rparr>"
  have new: "map_of (stats (tok w)) ?sy = None" and m: "0 < amount m" "amount m \<le> max_amount"
    and w': "tok w' = (tok w)\<lparr>stats := tput ?sy ?st (stats (tok w))\<rparr>"
    using run by (auto simp: create_def has_key_def asset_is_valid_def is_amount_within_range_def Let_def)
  have "\<And>sy b. balance_ok (tok w) sy b \<Longrightarrow> balance_ok (tok w') sy b"
    using new by (auto simp: w' balance_ok_def)
  moreover have "stats_ok ?sy ?st" using m by (simp add: stats_ok_def)
  moreover have sup: "supply_of (tok w') = supply_of (tok w)"
    using new by (auto simp: w' supply_of_def fun_eq_iff)
  ultimately show "token_inv (tok w')"
    using inv by (auto simp: token_inv_def token_inv_debt_def w')
  show "ledger_of (tok w') = ledger_of (tok w)"
    using sup by (simp add: ledger_of_def) (simp add: w' bal_def fun_eq_iff)
qed

lemma issue_effect:
  assumes inv: "token_inv (tok w)" and run: "issue c to q memo w = Inr w'"
  shows "token_inv (tok w')"
    and "\<exists>st. map_of (stats (tok w)) (sym_name (symbol q)) = Some st \<and> st_issuer st \<in> set (auths c)
       \<and> amount (st_supply st) + amount q \<le> amount (st_max_supply st)
       \<and> ledger_of (tok w') = spec_mint (st_issuer st) (sym_name (symbol q)) (amount q) (ledger_of (tok w))"
proof -
  let ?sy = "sym_name (symbol q)"
  have debt: "token_inv_debt (\<lambda>_. 0) (tok w)" using inv by (simp add: token_inv_def)
  obtain st w1 where st: "map_of (stats (tok w)) ?sy = Some st" "st_issuer st \<in> set (auths c)"
      "symbol q = symbol (st_supply st)"
    and q: "0 < amount q" "amount q \<le> i64 (amount (st_max_supply st) - amount (st_supply st))"
    and add: "add_balance (st_issuer st) q (w\<lparr>tok := (tok w)\<lparr>stats := tput ?sy
        (st\<lparr>st_supply := (st_supply st)\<lparr>amount := i64 (amount (st_supply st) + amount q)\<rparr>\<rparr>) (stats (tok w))\<rparr>\<rparr>) = Inr w1"
    and w': "tok w' = tok w1"
    using run by (auto simp: issue_def Let_def split: if_splits)
  have ok: "stats_ok ?sy st" using token_invD(3) [OF debt st(1)] .
  then have q2: "amount (st_supply st) + amount q \<le> amount (st_max_supply st)"
    using q i64_bounds [of "amount (st_max_supply st) - amount (st_supply st)"] by (auto simp: stats_ok_def max_amount_def)
  have e: "i64 (amount (st_supply st) + amount q) = amount (st_supply st) + amount q"
    using ok q q2 by (intro i64_bounds) (auto simp: stats_ok_def max_amount_def)
  let ?st = "st\<lparr>st_supply := (st_supply st)\<lparr>amount := amount (st_supply st) + amount q\<rparr>\<rparr>"
  let ?db = "(tok w)\<lparr>stats := tput ?sy ?st (stats (tok w))\<rparr>"
  have d1: "token_inv_debt ((\<lambda>_. 0)(?sy := amount q)) ?db"
    using stats_update_inv [OF debt st(1), of ?st] ok q q2 by (simp add: stats_ok_def)
  obtain db where db: "w1 = (w\<lparr>tok := ?db\<rparr>)\<lparr>tok := db\<rparr>" "bal db = credit (st_issuer st) ?sy (amount q) (bal ?db)"
      "stats db = stats ?db" "token_inv_debt ((\<lambda>_. 0)(?sy := amount q, ?sy := amount q - amount q)) db"
    using add_balance_effect [of "(\<lambda>_. 0)(?sy := amount q)" "w\<lparr>tok := ?db\<rparr>" ?sy ?st q "st_issuer st"] d1 st q q2 ok add e
    by (auto simp: supply_of_def stats_ok_def)
  have "(\<lambda>_. 0)(?sy := amount q, ?sy := amount q - amount q) = (\<lambda>_. 0)" by (simp add: fun_eq_iff)
  then show "token_inv (tok w')" using db w' by (simp add: token_inv_def)
  have "bal ?db = bal (tok w)" by (simp add: bal_def fun_eq_iff)
  moreover have "supply_of db = (supply_of (tok w))(?sy := supply_of (tok w) ?sy + amount q)"
    using db(3) st(1) by (auto simp: supply_of_def fun_eq_iff)
  ultimately have "ledger_of (tok w') = spec_mint (st_issuer st) ?sy (amount q) (ledger_of (tok w))"
    using db w' by (simp add: ledger_of_def spec_mint_def)
  then show "\<exists>st. map_of (stats (tok w)) ?sy = Some st \<and> st_issuer st \<in> set (auths c)
       \<and> amount (st_supply st) + amount q \<le> amount (st_max_supply st)
       \<and> ledger_of (tok w') = spec_mint (st_issuer st) ?sy (amount q) (ledger_of (tok w))"
    using st q2 by blast
qed

lemma retire_effect:
  assumes inv: "token_inv (tok w)" and run: "retire c q memo w = Inr w'"
  shows "token_inv (tok w')"
    and "\<exists>st. map_of (stats (tok w)) (sym_name (symbol q)) = Some st \<and> st_issuer st \<in> set (auths c)
       \<and> ledger_of (tok w') = spec_mint (st_issuer st) (sym_name (symbol q)) (- amount q) (ledger_of (tok w))"
proof -
  let ?sy = "sym_name (symbol q)"
  have debt: "token_inv_debt (\<lambda>_. 0) (tok w)" using inv by (simp add: token_inv_def)
  obtain st where st: "map_of (stats (tok w)) ?sy = Some st" "st_issuer st \<in> set (auths c)"
    and q: "0 < amount q"
    and sub: "sub_balance (st_issuer st) q (w\<lparr>tok := (tok w)\<lparr>stats := tput ?sy
        (st\<lparr>st_supply := (st_supply st)\<lparr>amount := i64 (amount (st_supply st) - amount q)\<rparr>\<rparr>) (stats (tok w))\<rparr>\<rparr>) = Inr w'"
    using run by (auto simp: retire_def Let_def)
  have ok: "stats_ok ?sy st" using token_invD(3) [OF debt st(1)] .
  let ?i = "i64 (amount (st_supply st) - amount q)"
  let ?db0 = "(tok w)\<lparr>stats := tput ?sy (st\<lparr>st_supply := (st_supply st)\<lparr>amount := ?i\<rparr>\<rparr>) (stats (tok w))\<rparr>"
  obtain b db where b: "map_of (accounts (tok w)) (st_issuer st, ?sy) = Some b" "amount q \<le> amount b"
    and sa: "sub_amount (st_issuer st) q b ?db0 = Inr db" and w': "tok w' = db"
    using sub_balance_Inr [OF sub] by auto
  have q2: "amount q \<le> amount (st_supply st)"
    using balance_le_total [OF debt b(1)] b(2) st(1) by (simp add: supply_of_def)
  have e: "?i = amount (st_supply st) - amount q"
    using ok q q2 by (intro i64_bounds) (auto simp: stats_ok_def max_amount_def)
  have d1: "token_inv_debt ((\<lambda>_. 0)(?sy := - amount q)) ?db0"
    using stats_update_inv [OF debt st(1), of "st\<lparr>st_supply := (st_supply st)\<lparr>amount := ?i\<rparr>\<rparr>"] ok q q2 e
    by (simp add: stats_ok_def)
  have b0: "map_of (accounts ?db0) (st_issuer st, ?sy) = Some b" using b(1) by simp
  have "supply_of ?db0 ?sy - ((\<lambda>_. 0)(?sy := - amount q)) ?sy \<le> max_amount"
    using ok e by (simp add: supply_of_def stats_ok_def)
  note s = sub_amount_effect [OF d1 refl b0 q b(2) this sa]
  have s1: "bal db = credit (st_issuer st) ?sy (- amount q) (bal ?db0)" "stats db = stats ?db0"
    by (rule s(1), rule s(2))
  have "((\<lambda>_. 0)(?sy := - amount q))(?sy := ((\<lambda>_. 0)(?sy := - amount q)) ?sy + amount q) = (\<lambda>_. 0)"
    by (simp add: fun_eq_iff)
  then have "token_inv_debt (\<lambda>_. 0) db" using s(3) by (simp only:)
  then show "token_inv (tok w')" using w' by (simp add: token_inv_def)
  have "bal ?db0 = bal (tok w)" by (simp add: bal_def fun_eq_iff)
  moreover have "supply_of db = (supply_of (tok w))(?sy := supply_of (tok w) ?sy + - amount q)"
    using s1(2) st(1) e by (auto simp: supply_of_def fun_eq_iff)
  ultimately have "ledger_of (tok w') = spec_mint (st_issuer st) ?sy (- amount q) (ledger_of (tok w))"
    using s1 w' by (simp add: ledger_of_def spec_mint_def)
  then show "\<exists>st. map_of (stats (tok w)) ?sy = Some st \<and> st_issuer st \<in> set (auths c)
       \<and> ledger_of (tok w') = spec_mint (st_issuer st) ?sy (- amount q) (ledger_of (tok w))"
    using st by blast
qed

lemma token_apply_inv:
  assumes inv: "token_inv (tok w)" and run: "token_apply c a w = Inr w'"
    and hold: "\<And>f t q m. a = Transfer f t q m \<Longrightarrow> checked_transfer f t q \<Longrightarrow> hold_nonneg c w f t"
  shows "token_inv (tok w')"
proof (cases a)
  case (Create i m) then show ?thesis using run create_inv(1) [OF inv] by simp
next
  case (Issue t q m) then show ?thesis using run issue_effect(1) [OF inv] by simp
next
  case (Transfer f t q m)
  then show ?thesis using run transfer_inv [OF inv _ hold] by simp
next
  case (Retire q m) then show ?thesis using run retire_effect(1) [OF inv] by simp
qed

lemma bal_eq: "map_of (accounts db) (n, s) = Some b \<Longrightarrow> bal db n s = amount b"
  by (simp add: bal_def)

text \<open>After a checked transfer the sender still covers deposit and locked grants.\<close>

lemma checked_transfer_covered:
  assumes inv: "token_inv (tok w)" and run: "transfer c from to q memo w = Inr w'" and chk: "checked_transfer from to q"
  shows "\<exists>h. hold_of c w' from to = Inr h \<and> h \<le> bal (tok w') from (sym_name (symbol q))"
proof -
  have ft: "from \<noteq> to" using transfer_Inr [OF run] by blast
  obtain h where h: "hold_of c w from to = Inr h" "amount q + h \<le> bal (tok w) from (sym_name (symbol q))"
    using transfer_within_balance [OF inv run] chk by auto
  note e = transfer_books [OF inv run]
  have "bal (tok w') from (sym_name (symbol q)) = bal (tok w) from (sym_name (symbol q)) - amount q"
    using e(1) ft by (simp add: ledger_of_def spec_transfer_def credit_def)
  moreover have "get_deposit w' from = get_deposit w from" "get_lock_asset c w' from = get_lock_asset c w from"
    using e(2) by (simp_all add: get_deposit_def get_lock_asset_def)
  then have "hold_of c w' from to = hold_of c w from to" by (simp only: hold_of_def)
  ultimately show ?thesis using h by auto
qed

text \<open>What the other actions do to the sums is part of their invariant.\<close>

lemma token_apply_books:
  assumes inv: "token_inv (tok w)" and run: "token_apply c a w = Inr w'"
  shows "tsum (bal_row s) (accounts (tok w')) = supply_of (tok w') s"
    and "map_of (stats (tok w')) s = Some st \<Longrightarrow> stats_ok s st"
proof -
  have "tsum (bal_row s) (accounts (tok w')) = supply_of (tok w') s \<and> (map_of (stats (tok w')) s = Some st \<longrightarrow> stats_ok s st)"
  proof (cases "\<exists>f t q m. a = Transfer f t q m")
    case True
    then obtain f t q m where "transfer c f t q m w = Inr w'" using run by auto
    note e = transfer_books [OF inv this]
    show ?thesis using e(4,5) inv by (auto simp: token_inv_def token_inv_debt_def supply_of_def)
  next
    case False
    then have "token_inv (tok w')" using token_apply_inv [OF inv run] by auto
    then show ?thesis by (auto simp: token_inv_def token_inv_debt_def)
  qed
  then show "tsum (bal_row s) (accounts (tok w')) = supply_of (tok w') s"
    and "map_of (stats (tok w')) s = Some st \<Longrightarrow> stats_ok s st" by blast+
qed

end
