(* ===== verification/Hdddeposit.thy ===== *)
theory Hdddeposit
  imports Frames
begin

text \<open>
  The deposit contract \<open>src/contracts/hdddeposit\<close> (\<open>hdddeposit.cpp\<close> and
  \<open>nmdeposit.cpp\<close>): users keep tokens in one of two deposit pools and miners are
  backed by an amount taken from the free part of a pool.  Every action is one
  definition.

  The invariant \<open>dep_inv\<close> is the accounting identity of the contract: for every
  user, the part of pool 1 that is not free is the sum of the deposits of the
  miners of type 0 backed by the user, and the same for pool 2 and the other
  miners; no amount is negative, and a miner's deposit is at most what was put
  down for it.  Every action keeps the invariant.
\<close>

subsection \<open>Shared steps\<close>

definition send_changevotes :: "ctx \<Rightarrow> name \<Rightarrow> world \<Rightarrow> world result" where
  "send_changevotes c user w =
     (if isActiveVoter w user
      then send c hdd_deposit_account (mk_act user system_account (Sys (Changevotes user))) w
      else Inr w)"

text \<open>Insert or update of a deposit pool row.\<close>

definition pay_row :: "name \<Rightarrow> asset \<Rightarrow> (name, depositpool) table \<Rightarrow> (name, depositpool) table result" where
  "pay_row user quant t =
     (case map_of t user of
        None \<Rightarrow>
          emplace user \<lparr>dp_account_name = user, dp_pool_type = 0, deposit_total = quant,
            deposit_free = quant, deposit_his = quant\<rparr> t
      | Some a \<Rightarrow>
          rbind (asset_add (deposit_total a) quant) (\<lambda>tot.
          rbind (asset_add (deposit_free a) quant) (\<lambda>fre.
          rbind (asset_add (deposit_his a) quant) (\<lambda>his.
          Inr (tput user (a\<lparr>deposit_total := tot, deposit_free := fre, deposit_his := his\<rparr>) t)))))"

definition unpay_row :: "name \<Rightarrow> asset \<Rightarrow> (name, depositpool) table \<Rightarrow> (name, depositpool) table result" where
  "unpay_row user quant t =
     fetch t user ''no deposit pool record for this user.'' (\<lambda>it.
     ensure (amount (deposit_free it) \<ge> amount quant) ''free deposit not enough.'' (
     ensure (amount (deposit_total it) \<ge> amount quant) ''deposit not enough.'' (
     ensure (amount (deposit_his it) \<ge> amount quant) ''deposit not enough.'' (
     rbind (asset_sub (deposit_free it) quant) (\<lambda>fre.
     rbind (asset_sub (deposit_total it) quant) (\<lambda>tot.
     rbind (asset_sub (deposit_his it) quant) (\<lambda>his.
     Inr (tput user (it\<lparr>deposit_free := fre, deposit_total := tot, deposit_his := his\<rparr>) t))))))))"

text \<open>Release of a miner's deposit into the free part of a pool, at most up to the total.\<close>

definition release_row :: "name \<Rightarrow> depositpool \<Rightarrow> asset \<Rightarrow> (name, depositpool) table \<Rightarrow> (name, depositpool) table result" where
  "release_row user a deposit t =
     rbind (asset_add (deposit_free a) deposit) (\<lambda>fre.
     rbind (asset_cmp (\<ge>) fre (deposit_total a)) (\<lambda>full.
     Inr (tput user (a\<lparr>deposit_free := (if full then deposit_total a else fre)\<rparr>) t)))"

definition take_free :: "name \<Rightarrow> depositpool \<Rightarrow> asset \<Rightarrow> (name, depositpool) table \<Rightarrow> (name, depositpool) table result" where
  "take_free user a deposit t =
     rbind (asset_sub (deposit_free a) deposit) (\<lambda>fre. Inr (tput user (a\<lparr>deposit_free := fre\<rparr>) t))"

subsection \<open>Deposit pools\<close>

definition paydeppool :: "ctx \<Rightarrow> name \<Rightarrow> asset \<Rightarrow> world \<Rightarrow> world result" where
  "paydeppool c user quant w =
     require_auth c user (
     ensure (\<not> is_frozen c w user) ''frozen user can not create deposit pool'' (
     ensure (is_account c user) ''user is not an account.'' (
     ensure (symbol quant = CORE_SYMBOL) ''must use core asset for hdd deposit.'' (
     ensure (amount quant > 0) ''must use positive quant'' (
     rbind (get_balance w user (sym_name (symbol quant))) (\<lambda>balance.
     let r1 = (case map_of (depositpools (dep w)) user of
                 None \<Rightarrow> amount balance
               | Some it \<Rightarrow> i64 (amount balance - amount (deposit_total it)));
         r2 = (case map_of (depositpools2 (dep w)) user of
                 None \<Rightarrow> r1
               | Some it2 \<Rightarrow> i64 (r1 - amount (deposit_total it2))) in
     ensure (r2 \<ge> amount quant) ''user balance not enough.'' (
     rbind (pay_row user quant (depositpools (dep w))) (\<lambda>t.
     send_changevotes c user (w\<lparr>dep := (dep w)\<lparr>depositpools := t\<rparr>\<rparr>)))))))))"

definition unpaydeppool :: "ctx \<Rightarrow> name \<Rightarrow> asset \<Rightarrow> world \<Rightarrow> world result" where
  "unpaydeppool c user quant w =
     require_auth c user (
     ensure (symbol quant = CORE_SYMBOL) ''must use core asset for hdd deposit.'' (
     ensure (amount quant > 0) ''must use positive quant'' (
     ensure (\<not> is_frozen c w user) ''user is frozen'' (
     rbind (unpay_row user quant (depositpools (dep w))) (\<lambda>t.
     send_changevotes c user (w\<lparr>dep := (dep w)\<lparr>depositpools := t\<rparr>\<rparr>))))))"

definition paydeppool2 :: "ctx \<Rightarrow> name \<Rightarrow> asset \<Rightarrow> world \<Rightarrow> world result" where
  "paydeppool2 c user quant w =
     require_auth c channel_sys (
     rbind (send c hdd_deposit_account
        (mk_act channel_sys token_account (Tok (Transfer channel_sys user quant ''paydeppool2''))) w) (\<lambda>w.
     ensure (\<not> is_frozen c w user) ''frozen user can not create deposit pool2'' (
     rbind (get_lock_asset c w user) (\<lambda>lock_asset.
     ensure (amount lock_asset = 0) ''user has lock asset'' (
     ensure (is_account c user) ''user is not an account.'' (
     ensure (symbol quant = CORE_SYMBOL) ''must use core asset for hdd deposit.'' (
     ensure (amount quant > 0) ''must use positive quant'' (
     rbind (pay_row user quant (depositpools2 (dep w))) (\<lambda>t.
     send_changevotes c user (w\<lparr>dep := (dep w)\<lparr>depositpools2 := t\<rparr>\<rparr>))))))))))"

text \<open>The memo under which \<open>channel.sys\<close> books the returned deposit for the user.\<close>

definition undeppool2_memo :: "name \<Rightarrow> string" where
  "undeppool2_memo user = ''3:'' @ to_string user @ '':0''"

definition undeppool2 :: "ctx \<Rightarrow> name \<Rightarrow> asset \<Rightarrow> world \<Rightarrow> world result" where
  "undeppool2 c user quant w =
     require_auth c user (
     ensure (symbol quant = CORE_SYMBOL) ''must use core asset for hdd deposit.'' (
     ensure (amount quant > 0) ''must use positive quant'' (
     ensure (\<not> is_frozen c w user) ''user is frozen'' (
     rbind (unpay_row user quant (depositpools2 (dep w))) (\<lambda>t.
     rbind (send_changevotes c user (w\<lparr>dep := (dep w)\<lparr>depositpools2 := t\<rparr>\<rparr>)) (\<lambda>w.
     rbind (send c hdd_deposit_account
        (mk_act user token_account (Tok (Transfer user store_sys quant ''unpaydeppool2''))) w) (\<lambda>w.
     rbind (send c hdd_deposit_account
        (mk_act store_sys token_account (Tok (Transfer store_sys channel_sys quant (undeppool2_memo user)))) w) (\<lambda>w.
     send c hdd_deposit_account
        (mk_act hdd_deposit_account hdd_deposit_account (Dep (Dep_channellog 3 quant user))) w))))))))"

definition dep_channellog :: "ctx \<Rightarrow> u8 \<Rightarrow> asset \<Rightarrow> name \<Rightarrow> world \<Rightarrow> world result" where
  "dep_channellog c ty quant user w =
     require_auth c hdd_deposit_account (Inr (require_recipient user w))"

subsection \<open>Deposit for data storage\<close>

definition depstore :: "ctx \<Rightarrow> name \<Rightarrow> asset \<Rightarrow> world \<Rightarrow> world result" where
  "depstore c user quant w =
     require_auth c user (
     ensure (symbol quant = CORE_SYMBOL) ''must use core asset for hdd deposit.'' (
     ensure (amount quant = 100000000) ''invalid deposit amount'' (
     ensure (\<not> has_key (storedeposits (dep w)) user) ''already deposit'' (
     rbind (emplace user quant (storedeposits (dep w))) (\<lambda>t.
     send c hdd_deposit_account
        (mk_act user token_account (Tok (Transfer user pool_sys quant ''deopsit for data storage'')))
        (w\<lparr>dep := (dep w)\<lparr>storedeposits := t\<rparr>\<rparr>))))))"

definition undepstore :: "ctx \<Rightarrow> name \<Rightarrow> name \<Rightarrow> world \<Rightarrow> world result" where
  "undepstore c user caller w =
     check_bp_account c w caller (
     fetch (storedeposits (dep w)) user ''can not find deposit record'' (\<lambda>quant.
     send c hdd_deposit_account
        (mk_act pool_sys token_account (Tok (Transfer pool_sys user quant ''return deopsit for data storage'')))
        (w\<lparr>dep := (dep w)\<lparr>storedeposits := tdel user (storedeposits (dep w))\<rparr>\<rparr>)))"

definition setrate :: "ctx \<Rightarrow> int \<Rightarrow> world \<Rightarrow> world result" where
  "setrate c rate w =
     require_auth c hddpooladmin (
     Inr (w\<lparr>dep := (dep w)\<lparr>gdepositrate := Some rate\<rparr>\<rparr>))"

subsection \<open>Deposits of miners\<close>

definition min_miner_deposit_space :: u64 where
  "min_miner_deposit_space = 100 * (1024 * 64)"

definition paydeposit :: "ctx \<Rightarrow> name \<Rightarrow> u64 \<Rightarrow> asset \<Rightarrow> world \<Rightarrow> world result" where
  "paydeposit c user minerid quant w =
     require_auth c hddpooladmin (
     ensure (is_miner_exist w minerid) ''miner not registered'' (
     ensure (\<not> is_frozen c w user) ''user is frozen'' (
     ensure (symbol quant = CORE_SYMBOL) ''must use core asset for hdd deposit.'' (
     ensure (amount quant > 0) ''must use positive quant'' (
     rbind (is_deposit_enough w quant min_miner_deposit_space) (\<lambda>enough.
     ensure enough ''deposit quant is too low!'' (
     fetch (depositpools2 (dep w)) user ''no deposit pool record for this user.'' (\<lambda>it2.
     ensure (amount (deposit_free it2) \<ge> amount quant) ''free deposit not enough.'' (
     rbind (take_free user it2 quant (depositpools2 (dep w))) (\<lambda>t2.
     ensure (\<not> has_key (miner2deps (dep w)) minerid) ''already deposit.'' (
     rbind (emplace minerid \<lparr>md_miner_type = 1, md_account_name = user, md_deposit = quant, md_dep_total = quant\<rparr>
        (miner2deps (dep w))) (\<lambda>tm.
     send_changevotes c user
        (w\<lparr>dep := (dep w)\<lparr>depositpools2 := t2, miner2deps := tm\<rparr>\<rparr>)))))))))))))"

text \<open>The updater shared by both branches of \<open>incdeposit\<close>.\<close>

definition raise_deposit :: "miner2dep \<Rightarrow> asset \<Rightarrow> miner2dep result" where
  "raise_deposit a quant =
     rbind (asset_add (md_deposit a) quant) (\<lambda>d.
     Inr (a\<lparr>md_deposit := d, md_miner_type := 1,
       md_dep_total := (if amount d > amount (md_dep_total a) then (md_dep_total a)\<lparr>amount := amount d\<rparr> else md_dep_total a)\<rparr>))"

definition incdeposit :: "ctx \<Rightarrow> u64 \<Rightarrow> asset \<Rightarrow> world \<Rightarrow> world result" where
  "incdeposit c minerid quant w =
     require_auth c hddpooladmin (
     ensure (symbol quant = CORE_SYMBOL) ''must use core asset for hdd deposit.'' (
     ensure (amount quant > 0) ''must use positive quant'' (
     fetch (miner2deps (dep w)) minerid ''no deposit record for this minerid.'' (\<lambda>miner.
     let user = md_account_name miner in
     rbind (
       if md_miner_type miner = 0 then
         fetch (depositpools (dep w)) user ''no deposit pool record for this user.'' (\<lambda>acc.
         fetch (depositpools2 (dep w)) user ''no deposit pool2 record for this user.'' (\<lambda>acc2.
         rbind (release_row user acc (md_deposit miner) (depositpools (dep w))) (\<lambda>t1.
         rbind (raise_deposit miner quant) (\<lambda>miner'.
         ensure (amount (deposit_free acc2) \<ge> amount (md_deposit miner')) ''free deposit not enough.'' (
         rbind (take_free user acc2 (md_deposit miner') (depositpools2 (dep w))) (\<lambda>t2.
         Inr ((dep w)\<lparr>depositpools := t1, depositpools2 := t2, miner2deps := tput minerid miner' (miner2deps (dep w))\<rparr>)))))))
       else
         fetch (depositpools2 (dep w)) user ''no deposit pool2 record for this user.'' (\<lambda>acc2.
         ensure (amount (deposit_free acc2) \<ge> amount quant) ''free deposit not enough.'' (
         rbind (raise_deposit miner quant) (\<lambda>miner'.
         rbind (take_free user acc2 quant (depositpools2 (dep w))) (\<lambda>t2.
         Inr ((dep w)\<lparr>depositpools2 := t2, miner2deps := tput minerid miner' (miner2deps (dep w))\<rparr>))))))
     (\<lambda>db. send_changevotes c user (w\<lparr>dep := db\<rparr>))))))"

definition chgdeposit :: "ctx \<Rightarrow> name \<Rightarrow> u64 \<Rightarrow> bool \<Rightarrow> asset \<Rightarrow> world \<Rightarrow> world result" where
  "chgdeposit c user minerid is_increase quant w = ensure False ''not support now.'' (Inr w)"

text \<open>A forfeit lowers the total of the pool the miner is backed from.\<close>

definition forfeit_row :: "name \<Rightarrow> string \<Rightarrow> asset \<Rightarrow> (name, depositpool) table \<Rightarrow> (name, depositpool) table result" where
  "forfeit_row user msg quatreal t =
     fetch t user msg (\<lambda>acc.
     ensure (i64 (amount (deposit_total acc) - amount (deposit_free acc)) \<ge> amount quatreal) ''overdrawn deposit.'' (
     rbind (asset_sub (deposit_total acc) quatreal) (\<lambda>tot.
     Inr (tput user (acc\<lparr>deposit_total := tot\<rparr>) t))))"

definition mforfeit :: "ctx \<Rightarrow> name \<Rightarrow> u64 \<Rightarrow> asset \<Rightarrow> string \<Rightarrow> u8 \<Rightarrow> name \<Rightarrow> world \<Rightarrow> world result" where
  "mforfeit c user minerid quant memo acc_type caller w =
     (let body =
       ensure (symbol quant = CORE_SYMBOL) ''must use core asset for hdd deposit.'' (
       ensure (amount quant > 0) ''must use positive quant'' (
       fetch (miner2deps (dep w)) minerid ''no deposit record for this minerid.'' (\<lambda>miner.
       let quatreal = (if amount (md_deposit miner) < amount quant
                       then quant\<lparr>amount := amount (md_deposit miner)\<rparr> else quant);
           tm = tput minerid (miner\<lparr>md_deposit := (md_deposit miner)\<lparr>amount :=
                  i64 (amount (md_deposit miner) - amount quatreal)\<rparr>\<rparr>) (miner2deps (dep w));
           acc = md_account_name miner in
       if md_miner_type miner = 0 then
         rbind (forfeit_row acc ''no deposit pool record for this user.'' quatreal (depositpools (dep w))) (\<lambda>t.
         send c hdd_deposit_account (mk_act acc token_account (Tok (Transfer acc yottaforfeit quatreal memo)))
           (w\<lparr>dep := (dep w)\<lparr>depositpools := t, miner2deps := tm\<rparr>\<rparr>))
       else
         rbind (forfeit_row acc ''no deposit pool2 record for this user.'' quatreal (depositpools2 (dep w))) (\<lambda>t.
         send c hdd_deposit_account (mk_act acc token_account (Tok (Transfer acc forfeit_sys quatreal memo)))
           (w\<lparr>dep := (dep w)\<lparr>depositpools2 := t, miner2deps := tm\<rparr>\<rparr>)))))
     in
     if acc_type = 2 then
       ensure (is_account c caller) ''caller not a account.'' (check_bp_account c w caller body)
     else require_auth c hdd_deposit_account body)"

definition dep_delminer :: "ctx \<Rightarrow> u64 \<Rightarrow> world \<Rightarrow> world result" where
  "dep_delminer c minerid w =
     require_auth c hddpooladmin (
     case map_of (miner2deps (dep w)) minerid of
       None \<Rightarrow> Inr w
     | Some miner \<Rightarrow>
         let user = md_account_name miner; release = (\<lambda>t.
               case map_of t user of None \<Rightarrow> Inr t | Some acc \<Rightarrow> release_row user acc (md_deposit miner) t) in
         rbind (if md_miner_type miner = 0
                then rbind (release (depositpools (dep w))) (\<lambda>t. Inr ((dep w)\<lparr>depositpools := t\<rparr>))
                else rbind (release (depositpools2 (dep w))) (\<lambda>t. Inr ((dep w)\<lparr>depositpools2 := t\<rparr>))) (\<lambda>db.
         rbind (send_changevotes c user (w\<lparr>dep := db\<rparr>)) (\<lambda>w.
         Inr (w\<lparr>dep := (dep w)\<lparr>miner2deps := tdel minerid (miner2deps (dep w))\<rparr>\<rparr>))))"

text \<open>The deposit returns to the old account and the full amount is taken from the new one.\<close>

definition give_free :: "name \<Rightarrow> string \<Rightarrow> asset \<Rightarrow> (name, depositpool) table \<Rightarrow> bool \<Rightarrow> (name, depositpool) table result" where
  "give_free user msg deposit t enough =
     fetch t user msg (\<lambda>acc.
     ensure enough ''new deposit user free deposit not enough'' (
     rbind (asset_add (deposit_free acc) deposit) (\<lambda>fre.
     Inr (tput user (acc\<lparr>deposit_free := fre\<rparr>) t))))"

definition mchgdepacc :: "ctx \<Rightarrow> u64 \<Rightarrow> name \<Rightarrow> world \<Rightarrow> world result" where
  "mchgdepacc c minerid new_depacc w =
     require_auth c new_depacc (
     fetch (miner2deps (dep w)) minerid ''no deposit record for this minerid'' (\<lambda>miner.
     let old = md_account_name miner in
     ensure (old \<noteq> new_depacc) ''must use different account to change deposit user'' (
     fetch (depositpools2 (dep w)) new_depacc ''no deposit pool2 record for new deposit user'' (\<lambda>acc2_new.
     let enough = amount (deposit_free acc2_new) \<ge> amount (md_dep_total miner) in
     rbind (if md_miner_type miner = 0
            then rbind (give_free old ''no deposit pool record for original deposit user'' (md_deposit miner)
                   (depositpools (dep w)) enough) (\<lambda>t. Inr ((dep w)\<lparr>depositpools := t\<rparr>))
            else rbind (give_free old ''no deposit pool2 record for original deposit user'' (md_deposit miner)
                   (depositpools2 (dep w)) enough) (\<lambda>t. Inr ((dep w)\<lparr>depositpools2 := t\<rparr>))) (\<lambda>db.
     rbind (send_changevotes c old (w\<lparr>dep := db\<rparr>)) (\<lambda>w.
     let miner' = miner\<lparr>md_account_name := new_depacc, md_deposit := md_dep_total miner, md_miner_type := 1\<rparr> in
     rbind (take_free new_depacc acc2_new (md_dep_total miner') (depositpools2 (dep w))) (\<lambda>t2.
     send_changevotes c new_depacc
       (w\<lparr>dep := (dep w)\<lparr>miner2deps := tput minerid miner' (miner2deps (dep w)), depositpools2 := t2\<rparr>\<rparr>))))))))"

definition updatevote :: "ctx \<Rightarrow> name \<Rightarrow> world \<Rightarrow> world result" where
  "updatevote c user w = require_auth c hddpooladmin (send_changevotes c user w)"

fun hdddeposit_apply :: "ctx \<Rightarrow> deposit_act \<Rightarrow> world \<Rightarrow> world result" where
  "hdddeposit_apply c (Paydeppool u q) w = paydeppool c u q w"
| "hdddeposit_apply c (Unpaydeppool u q) w = unpaydeppool c u q w"
| "hdddeposit_apply c (Paydeppool2 u q) w = paydeppool2 c u q w"
| "hdddeposit_apply c (Undeppool2 u q) w = undeppool2 c u q w"
| "hdddeposit_apply c (Depstore u q) w = depstore c u q w"
| "hdddeposit_apply c (Undepstore u x) w = undepstore c u x w"
| "hdddeposit_apply c (Paydeposit u m q) w = paydeposit c u m q w"
| "hdddeposit_apply c (Chgdeposit u m b q) w = chgdeposit c u m b q w"
| "hdddeposit_apply c (Mforfeit u m q s t x) w = mforfeit c u m q s t x w"
| "hdddeposit_apply c (Dep_delminer m) w = dep_delminer c m w"
| "hdddeposit_apply c (Setrate r) w = setrate c r w"
| "hdddeposit_apply c (Mchgdepacc m n) w = mchgdepacc c m n w"
| "hdddeposit_apply c (Updatevote u) w = updatevote c u w"
| "hdddeposit_apply c (Incdeposit m q) w = incdeposit c m q w"
| "hdddeposit_apply c (Dep_channellog t q u) w = dep_channellog c t q u w"

subsection \<open>The accounting invariant\<close>

definition pool_ok :: "name \<Rightarrow> depositpool \<Rightarrow> bool" where
  "pool_ok u p \<longleftrightarrow> dp_account_name p = u \<and> symbol (deposit_total p) = CORE_SYMBOL
     \<and> symbol (deposit_free p) = CORE_SYMBOL \<and> symbol (deposit_his p) = CORE_SYMBOL
     \<and> 0 \<le> amount (deposit_free p) \<and> amount (deposit_free p) \<le> amount (deposit_total p)
     \<and> amount (deposit_total p) \<le> amount (deposit_his p) \<and> amount (deposit_his p) \<le> max_amount"

definition miner_dep_ok :: "miner2dep \<Rightarrow> bool" where
  "miner_dep_ok m \<longleftrightarrow> symbol (md_deposit m) = CORE_SYMBOL \<and> symbol (md_dep_total m) = CORE_SYMBOL
     \<and> 0 \<le> amount (md_deposit m) \<and> amount (md_deposit m) \<le> amount (md_dep_total m)
     \<and> amount (md_dep_total m) \<le> max_amount"

text \<open>The deposit of a miner that is backed by a user from pool 1 (\<open>old\<close>) or from pool 2.\<close>

definition dep_row :: "bool \<Rightarrow> name \<Rightarrow> u64 \<Rightarrow> miner2dep \<Rightarrow> int" where
  "dep_row old u k m = (if (md_miner_type m = 0) = old \<and> md_account_name m = u then amount (md_deposit m) else 0)"

definition used :: "(name, depositpool) table \<Rightarrow> name \<Rightarrow> int" where
  "used t u = (case map_of t u of None \<Rightarrow> 0 | Some p \<Rightarrow> amount (deposit_total p) - amount (deposit_free p))"

definition pools_ok :: "(name, depositpool) table \<Rightarrow> bool" where
  "pools_ok t \<longleftrightarrow> twf t \<and> (\<forall>u p. map_of t u = Some p \<longrightarrow> pool_ok u p)"

definition miners_ok :: "(u64, miner2dep) table \<Rightarrow> bool" where
  "miners_ok t \<longleftrightarrow> twf t \<and> (\<forall>k m. map_of t k = Some m \<longrightarrow> miner_dep_ok m)"

definition dep_inv :: "deposit_db \<Rightarrow> bool" where
  "dep_inv db \<longleftrightarrow> pools_ok (depositpools db) \<and> pools_ok (depositpools2 db) \<and> miners_ok (miner2deps db)
     \<and> (\<forall>u. tsum (dep_row True u) (miner2deps db) = used (depositpools db) u)
     \<and> (\<forall>u. tsum (dep_row False u) (miner2deps db) = used (depositpools2 db) u)"

lemma pools_ok_put: "pools_ok t \<Longrightarrow> pool_ok u p \<Longrightarrow> pools_ok (tput u p t)"
  by (simp add: pools_ok_def)

lemma miners_ok_put: "miners_ok t \<Longrightarrow> miner_dep_ok m \<Longrightarrow> miners_ok (tput k m t)"
  by (simp add: miners_ok_def)

lemma miners_ok_del: "miners_ok t \<Longrightarrow> miners_ok (tdel k t)"
  by (simp add: miners_ok_def)

lemma used_put: "used (tput u p t) v = (if v = u then amount (deposit_total p) - amount (deposit_free p) else used t v)"
  by (simp add: used_def)

lemma tsum_put_miner:
  "miners_ok t \<Longrightarrow> tsum (dep_row b u) (tput k m t)
     = tsum (dep_row b u) t - row_val (dep_row b u) k (map_of t k) + dep_row b u k m"
  by (simp add: miners_ok_def tbl.total_put)

lemma tsum_del_miner:
  "miners_ok t \<Longrightarrow> tsum (dep_row b u) (tdel k t) = tsum (dep_row b u) t - row_val (dep_row b u) k (map_of t k)"
  by (simp add: miners_ok_def tbl.total_del)

lemma dep_row_le_sum:
  assumes "miners_ok t" and "map_of t k = Some m" and "(md_miner_type m = 0) = b"
  shows "amount (md_deposit m) \<le> tsum (dep_row b (md_account_name m)) t"
proof -
  have "dep_row b (md_account_name m) k m \<le> tsum (dep_row b (md_account_name m)) t"
    using assms by (intro tbl.row_le_total) (auto simp: miners_ok_def miner_dep_ok_def dep_row_def)
  then show ?thesis using assms by (simp add: dep_row_def)
qed

lemma dep_invD:
  assumes "dep_inv db"
  shows "pools_ok (depositpools db)" "pools_ok (depositpools2 db)" "miners_ok (miner2deps db)"
    and "\<And>u. tsum (dep_row True u) (miner2deps db) = used (depositpools db) u"
    and "\<And>u. tsum (dep_row False u) (miner2deps db) = used (depositpools2 db) u"
    and "\<And>u p. map_of (depositpools db) u = Some p \<Longrightarrow> pool_ok u p"
    and "\<And>u p. map_of (depositpools2 db) u = Some p \<Longrightarrow> pool_ok u p"
    and "\<And>k m. map_of (miner2deps db) k = Some m \<Longrightarrow> miner_dep_ok m"
  using assms by (simp_all add: dep_inv_def pools_ok_def miners_ok_def)

text \<open>The deposit of a miner is part of what is in use of its pool.\<close>

lemma deposit_le_used:
  assumes inv: "dep_inv db" and m: "map_of (miner2deps db) k = Some m"
  shows "amount (md_deposit m) \<le> used (if md_miner_type m = 0 then depositpools db else depositpools2 db) (md_account_name m)"
  using dep_row_le_sum [OF dep_invD(3) [OF inv] m refl] dep_invD(4,5) [OF inv]
  by (cases "md_miner_type m = 0") (metis (full_types))+

subsection \<open>Steps on one pool\<close>

lemma pay_row_effect:
  assumes ok: "pools_ok t" and q: "symbol q = CORE_SYMBOL" "0 < amount q" "in_i64 (amount q)"
    and new: "map_of t u = None \<Longrightarrow> amount q \<le> max_amount"
    and run: "pay_row u q t = Inr t'"
  shows "pools_ok t'" and "used t' = used t"
    and "pool_total t' u = pool_total t u + amount q" and "v \<noteq> u \<Longrightarrow> map_of t' v = map_of t v"
proof -
  have "\<exists>p. t' = tput u p t \<and> pool_ok u p \<and> amount (deposit_total p) - amount (deposit_free p) = used t u
      \<and> amount (deposit_total p) = pool_total t u + amount q"
  proof (cases "map_of t u")
    case None
    then show ?thesis using run q new by (auto simp: pay_row_def pool_ok_def used_def pool_total_def)
  next
    case (Some a)
    then have a: "pool_ok u a" using ok by (simp add: pools_ok_def)
    have e: "i64 (amount (deposit_total a) + amount q) = amount (deposit_total a) + amount q"
        "i64 (amount (deposit_free a) + amount q) = amount (deposit_free a) + amount q"
        "i64 (amount (deposit_his a) + amount q) = amount (deposit_his a) + amount q"
      using run Some a q by (auto simp: pay_row_def pool_ok_def max_amount_def intro!: i64_add_exact)
    show ?thesis
      using run Some a q e by (auto simp: pay_row_def pool_ok_def used_def pool_total_def)
  qed
  then obtain p where p: "t' = tput u p t" "pool_ok u p" "amount (deposit_total p) - amount (deposit_free p) = used t u"
      "amount (deposit_total p) = pool_total t u + amount q" by blast
  show "pools_ok t'" using ok p by (simp add: pools_ok_put)
  show "used t' = used t" using p by (auto simp: used_put fun_eq_iff)
  show "pool_total t' u = pool_total t u + amount q" "v \<noteq> u \<Longrightarrow> map_of t' v = map_of t v"
    using p by (simp_all add: pool_total_def)
qed

lemma unpay_row_effect:
  assumes ok: "pools_ok t" and q: "0 < amount q" and run: "unpay_row u q t = Inr t'"
  shows "pools_ok t'" and "used t' = used t" and "pool_total t' u = pool_total t u - amount q"
    and "v \<noteq> u \<Longrightarrow> map_of t' v = map_of t v"
proof -
  obtain a where a: "map_of t u = Some a" using run by (auto simp: unpay_row_def)
  then have ok_a: "pool_ok u a" using ok by (simp add: pools_ok_def)
  have le: "amount q \<le> amount (deposit_free a)" using run a by (simp add: unpay_row_def)
  have e: "i64 (amount (deposit_total a) - amount q) = amount (deposit_total a) - amount q"
      "i64 (amount (deposit_free a) - amount q) = amount (deposit_free a) - amount q"
      "i64 (amount (deposit_his a) - amount q) = amount (deposit_his a) - amount q"
    using ok_a q le by (auto simp: pool_ok_def max_amount_def intro!: i64_bounds)
  obtain p where p: "t' = tput u p t" "pool_ok u p" "amount (deposit_total p) - amount (deposit_free p) = used t u"
      "amount (deposit_total p) = pool_total t u - amount q"
    using run a ok_a le e by (auto simp: unpay_row_def pool_ok_def used_def pool_total_def)
  show "pools_ok t'" using ok p by (simp add: pools_ok_put)
  show "used t' = used t" using p by (auto simp: used_put fun_eq_iff)
  show "pool_total t' u = pool_total t u - amount q" "v \<noteq> u \<Longrightarrow> map_of t' v = map_of t v"
    using p by (simp_all add: pool_total_def)
qed

text \<open>A release within what is in use is never cut off at the total.\<close>

lemma release_row_effect:
  assumes ok: "pools_ok t" and a: "map_of t u = Some a"
    and d: "0 \<le> amount d" "amount d \<le> used t u" and run: "release_row u a d t = Inr t'"
  shows "pools_ok t'" and "used t' = (used t)(u := used t u - amount d)" and "pool_total t' = pool_total t"
    and "v \<noteq> u \<Longrightarrow> map_of t' v = map_of t v"
proof -
  have ok_a: "pool_ok u a" using ok a by (simp add: pools_ok_def)
  have e: "i64 (amount (deposit_free a) + amount d) = amount (deposit_free a) + amount d"
    using ok_a a d by (auto simp: pool_ok_def used_def max_amount_def intro!: i64_bounds)
  obtain p where p: "t' = tput u p t" "pool_ok u p" "amount (deposit_total p) = amount (deposit_total a)"
      "amount (deposit_total p) - amount (deposit_free p) = used t u - amount d"
    using run a ok_a d e by (auto simp: release_row_def pool_ok_def used_def split: if_splits)
  show "pools_ok t'" using ok p by (simp add: pools_ok_put)
  show "used t' = (used t)(u := used t u - amount d)" using p by (auto simp: used_put fun_eq_iff)
  show "pool_total t' = pool_total t" "v \<noteq> u \<Longrightarrow> map_of t' v = map_of t v"
    using p a by (simp_all add: pool_total_def fun_eq_iff)
qed

lemma take_free_effect:
  assumes ok: "pools_ok t" and a: "map_of t u = Some a"
    and d: "0 \<le> amount d" "amount d \<le> amount (deposit_free a)" and run: "take_free u a d t = Inr t'"
  shows "pools_ok t'" and "used t' = (used t)(u := used t u + amount d)" and "pool_total t' = pool_total t"
    and "v \<noteq> u \<Longrightarrow> map_of t' v = map_of t v"
proof -
  have ok_a: "pool_ok u a" using ok a by (simp add: pools_ok_def)
  have e: "i64 (amount (deposit_free a) - amount d) = amount (deposit_free a) - amount d"
    using ok_a a d by (auto simp: pool_ok_def max_amount_def intro!: i64_bounds)
  obtain p where p: "t' = tput u p t" "pool_ok u p" "amount (deposit_total p) = amount (deposit_total a)"
      "amount (deposit_total p) - amount (deposit_free p) = used t u + amount d"
    using run a ok_a d e by (auto simp: take_free_def pool_ok_def used_def)
  show "pools_ok t'" using ok p by (simp add: pools_ok_put)
  show "used t' = (used t)(u := used t u + amount d)" using p by (auto simp: used_put fun_eq_iff)
  show "pool_total t' = pool_total t" "v \<noteq> u \<Longrightarrow> map_of t' v = map_of t v"
    using p a by (simp_all add: pool_total_def fun_eq_iff)
qed

lemma forfeit_row_effect:
  assumes ok: "pools_ok t" and q: "0 \<le> amount q" and run: "forfeit_row u msg q t = Inr t'"
  shows "pools_ok t'" and "used t' = (used t)(u := used t u - amount q)"
    and "pool_total t' = (pool_total t)(u := pool_total t u - amount q)"
    and "v \<noteq> u \<Longrightarrow> map_of t' v = map_of t v"
proof -
  obtain a where a: "map_of t u = Some a" using run by (auto simp: forfeit_row_def)
  then have ok_a: "pool_ok u a" using ok by (simp add: pools_ok_def)
  have u: "i64 (amount (deposit_total a) - amount (deposit_free a)) = amount (deposit_total a) - amount (deposit_free a)"
    using ok_a by (auto simp: pool_ok_def max_amount_def intro!: i64_bounds)
  then have le: "amount q \<le> amount (deposit_total a) - amount (deposit_free a)"
    using run a by (simp add: forfeit_row_def)
  have e: "i64 (amount (deposit_total a) - amount q) = amount (deposit_total a) - amount q"
    using ok_a q le by (auto simp: pool_ok_def max_amount_def intro!: i64_bounds)
  obtain p where p: "t' = tput u p t" "pool_ok u p" "amount (deposit_total p) = amount (deposit_total a) - amount q"
      "amount (deposit_free p) = amount (deposit_free a)"
    using run a ok_a q le e by (auto simp: forfeit_row_def pool_ok_def)
  show "pools_ok t'" using ok p by (simp add: pools_ok_put)
  show "used t' = (used t)(u := used t u - amount q)" using p a by (auto simp: used_put used_def fun_eq_iff)
  show "pool_total t' = (pool_total t)(u := pool_total t u - amount q)" "v \<noteq> u \<Longrightarrow> map_of t' v = map_of t v"
    using p a by (auto simp: pool_total_def fun_eq_iff)
qed

lemma give_free_effect:
  assumes ok: "pools_ok t" and d: "0 \<le> amount d" "amount d \<le> used t u"
    and run: "give_free u msg d t enough = Inr t'"
  shows "pools_ok t'" and "used t' = (used t)(u := used t u - amount d)" and "pool_total t' = pool_total t"
    and "v \<noteq> u \<Longrightarrow> map_of t' v = map_of t v" and "enough"
proof -
  obtain a where a: "map_of t u = Some a" using run by (auto simp: give_free_def)
  then have ok_a: "pool_ok u a" using ok by (simp add: pools_ok_def)
  have e: "i64 (amount (deposit_free a) + amount d) = amount (deposit_free a) + amount d"
    using ok_a a d by (auto simp: pool_ok_def used_def max_amount_def intro!: i64_bounds)
  obtain p where p: "t' = tput u p t" "pool_ok u p" "amount (deposit_total p) = amount (deposit_total a)"
      "amount (deposit_total p) - amount (deposit_free p) = used t u - amount d"
    using run a ok_a d e by (auto simp: give_free_def pool_ok_def used_def)
  show "pools_ok t'" using ok p by (simp add: pools_ok_put)
  show "used t' = (used t)(u := used t u - amount d)" using p by (auto simp: used_put fun_eq_iff)
  show "pool_total t' = pool_total t" "v \<noteq> u \<Longrightarrow> map_of t' v = map_of t v"
    using p a by (simp_all add: pool_total_def fun_eq_iff)
  show "enough" using run by (auto simp: give_free_def)
qed

subsection \<open>Every action keeps the invariant\<close>

lemma send_changevotes_frame:
  assumes "send_changevotes c u w = Inr w'"
  shows "dep w' = dep w" and "tok w' = tok w" and "lck w' = lck w" and "pool w' = pool w"
    and "chn w' = chn w" and "syst w' = syst w"
  using assms by (auto simp: send_changevotes_def split: if_splits)

lemma dep_inv_pool:
  assumes "dep_inv db"
  shows "pools_ok t \<Longrightarrow> used t = used (depositpools db) \<Longrightarrow> dep_inv (db\<lparr>depositpools := t\<rparr>)"
    and "pools_ok t \<Longrightarrow> used t = used (depositpools2 db) \<Longrightarrow> dep_inv (db\<lparr>depositpools2 := t\<rparr>)"
  using assms by (simp_all add: dep_inv_def)

definition balances_sane :: "world \<Rightarrow> bool" where
  "balances_sane w \<longleftrightarrow> (\<forall>k b. map_of (accounts (tok w)) k = Some b \<longrightarrow> 0 \<le> amount b \<and> amount b \<le> max_amount)"

lemma paydeppool_covered:
  assumes inv: "dep_inv (dep w)" and bal: "balances_sane w" and run: "paydeppool c u q w = Inr w'"
  shows "\<exists>b. map_of (accounts (tok w)) (u, sym_name CORE_SYMBOL) = Some b
     \<and> amount q + pool_total (depositpools (dep w)) u + pool_total (depositpools2 (dep w)) u \<le> amount b
     \<and> amount b \<le> max_amount"
proof -
  have sy: "symbol q = CORE_SYMBOL" using run by (simp add: paydeppool_def)
  obtain b where b: "map_of (accounts (tok w)) (u, sym_name CORE_SYMBOL) = Some b"
    and ge: "amount q \<le> (let r1 = (case map_of (depositpools (dep w)) u of None \<Rightarrow> amount b
         | Some it \<Rightarrow> i64 (amount b - amount (deposit_total it))) in
       case map_of (depositpools2 (dep w)) u of None \<Rightarrow> r1 | Some it2 \<Rightarrow> i64 (r1 - amount (deposit_total it2)))"
    using run by (auto simp: paydeppool_def get_balance_def sy Let_def)
  have bb: "0 \<le> amount b" "amount b \<le> max_amount" using bal b by (auto simp: balances_sane_def)
  have p1: "map_of (depositpools (dep w)) u = Some p \<Longrightarrow> 0 \<le> amount (deposit_total p) \<and> amount (deposit_total p) \<le> max_amount" for p
    using dep_invD(6) [OF inv] by (force simp: pool_ok_def)
  have p2: "map_of (depositpools2 (dep w)) u = Some p \<Longrightarrow> 0 \<le> amount (deposit_total p) \<and> amount (deposit_total p) \<le> max_amount" for p
    using dep_invD(7) [OF inv] by (force simp: pool_ok_def)
  have "amount q + pool_total (depositpools (dep w)) u + pool_total (depositpools2 (dep w)) u \<le> amount b"
    using ge p1 p2 bb by (auto simp: pool_total_def max_amount_def in_i64_def split: option.splits)
  then show ?thesis using b bb by blast
qed

lemma paydeppool_inv:
  assumes inv: "dep_inv (dep w)" and bal: "balances_sane w" and run: "paydeppool c u q w = Inr w'"
  shows "dep_inv (dep w')"
proof -
  obtain t where t: "pay_row u q (depositpools (dep w)) = Inr t"
      "send_changevotes c u (w\<lparr>dep := (dep w)\<lparr>depositpools := t\<rparr>\<rparr>) = Inr w'"
    and q: "symbol q = CORE_SYMBOL" "0 < amount q"
    using run by (auto simp: paydeppool_def Let_def)
  have "0 \<le> pool_total (depositpools (dep w)) u" "0 \<le> pool_total (depositpools2 (dep w)) u"
    using dep_invD(6,7) [OF inv] by (force simp: pool_total_def pool_ok_def split: option.split)+
  then have "amount q \<le> max_amount" using paydeppool_covered [OF inv bal run] by auto
  then have "pools_ok t" "used t = used (depositpools (dep w))"
    using pay_row_effect [OF dep_invD(1) [OF inv] q _ _ t(1)] q by (simp_all add: in_i64_def max_amount_def)
  then show ?thesis using dep_inv_pool(1) [OF inv] send_changevotes_frame(1) [OF t(2)] by simp
qed

lemma paydeppool2_inv:
  assumes inv: "dep_inv (dep w)" and q: "amount q \<le> max_amount" and run: "paydeppool2 c u q w = Inr w'"
  shows "dep_inv (dep w')"
proof -
  obtain t where t: "pay_row u q (depositpools2 (dep w)) = Inr t"
      "dep w' = (dep w)\<lparr>depositpools2 := t\<rparr>"
    and q': "symbol q = CORE_SYMBOL" "0 < amount q"
    using run by (auto simp: paydeppool2_def dest!: send_changevotes_frame(1))
  then have "pools_ok t" "used t = used (depositpools2 (dep w))"
    using pay_row_effect [OF dep_invD(2) [OF inv] q' _ _ t(1)] q by (simp_all add: in_i64_def max_amount_def)
  then show ?thesis using dep_inv_pool(2) [OF inv] t(2) by simp
qed

lemma unpaydeppool_inv:
  assumes inv: "dep_inv (dep w)" and run: "unpaydeppool c u q w = Inr w'"
  shows "dep_inv (dep w')"
proof -
  obtain t where t: "unpay_row u q (depositpools (dep w)) = Inr t"
      "send_changevotes c u (w\<lparr>dep := (dep w)\<lparr>depositpools := t\<rparr>\<rparr>) = Inr w'" and q: "0 < amount q"
    using run by (auto simp: unpaydeppool_def)
  show ?thesis
    using unpay_row_effect(1,2) [OF dep_invD(1) [OF inv] q t(1)] dep_inv_pool(1) [OF inv] send_changevotes_frame(1) [OF t(2)]
    by simp
qed

lemma undeppool2_inv:
  assumes inv: "dep_inv (dep w)" and run: "undeppool2 c u q w = Inr w'"
  shows "dep_inv (dep w')"
proof -
  obtain t w1 where t: "unpay_row u q (depositpools2 (dep w)) = Inr t"
      "send_changevotes c u (w\<lparr>dep := (dep w)\<lparr>depositpools2 := t\<rparr>\<rparr>) = Inr w1" and q: "0 < amount q"
    and w': "dep w' = dep w1"
    using run by (auto simp: undeppool2_def)
  show ?thesis
    using unpay_row_effect(1,2) [OF dep_invD(2) [OF inv] q t(1)] dep_inv_pool(2) [OF inv] send_changevotes_frame(1) [OF t(2)] w'
    by simp
qed

lemma paydeposit_inv:
  assumes inv: "dep_inv (dep w)" and run: "paydeposit c u k q w = Inr w'"
  shows "dep_inv (dep w')"
proof -
  let ?m = "\<lparr>md_miner_type = 1, md_account_name = u, md_deposit = q, md_dep_total = q\<rparr>"
  obtain a t2 where a: "map_of (depositpools2 (dep w)) u = Some a" "amount q \<le> amount (deposit_free a)"
    and t2: "take_free u a q (depositpools2 (dep w)) = Inr t2"
    and new: "map_of (miner2deps (dep w)) k = None" and q: "symbol q = CORE_SYMBOL" "0 < amount q"
    and s: "send_changevotes c u (w\<lparr>dep := (dep w)\<lparr>depositpools2 := t2, miner2deps := tput k ?m (miner2deps (dep w))\<rparr>\<rparr>) = Inr w'"
    using run by (auto simp: paydeposit_def)
  note e = take_free_effect [OF dep_invD(2) [OF inv] a(1) _ a(2) t2]
  have "miner_dep_ok ?m" using q a dep_invD(7) [OF inv a(1)] by (simp add: miner_dep_ok_def pool_ok_def)
  then show ?thesis
    using inv e(1,2) q new send_changevotes_frame(1) [OF s]
    by (auto simp: dep_inv_def miners_ok_put tsum_put_miner dep_row_def)
qed

lemma raise_deposit_effect:
  assumes m: "miner_dep_ok m" and q: "0 < amount q" "in_i64 (amount q)" and run: "raise_deposit m q = Inr m'"
  shows "miner_dep_ok m'" and "amount (md_deposit m') = amount (md_deposit m) + amount q"
    and "md_account_name m' = md_account_name m" and "md_miner_type m' = 1"
proof -
  have e: "i64 (amount (md_deposit m) + amount q) = amount (md_deposit m) + amount q"
    using m q run by (auto simp: raise_deposit_def miner_dep_ok_def max_amount_def intro!: i64_add_exact)
  show "miner_dep_ok m'" "amount (md_deposit m') = amount (md_deposit m) + amount q"
    "md_account_name m' = md_account_name m" "md_miner_type m' = 1"
    using m q run e by (auto simp: raise_deposit_def miner_dep_ok_def)
qed

lemma incdeposit_inv:
  assumes inv: "dep_inv (dep w)" and q: "in_i64 (amount q)" and run: "incdeposit c k q w = Inr w'"
  shows "dep_inv (dep w')"
proof -
  obtain m where m: "map_of (miner2deps (dep w)) k = Some m" and q0: "0 < amount q"
    using run by (auto simp: incdeposit_def Let_def)
  let ?u = "md_account_name m"
  have mok: "miner_dep_ok m" using dep_invD(8) [OF inv m] .
  show ?thesis
  proof (cases "md_miner_type m = 0")
    case True
    obtain a a2 t1 m' t2 where a: "map_of (depositpools (dep w)) ?u = Some a" "map_of (depositpools2 (dep w)) ?u = Some a2"
      and t1: "release_row ?u a (md_deposit m) (depositpools (dep w)) = Inr t1"
      and m': "raise_deposit m q = Inr m'" and le: "amount (md_deposit m') \<le> amount (deposit_free a2)"
      and t2: "take_free ?u a2 (md_deposit m') (depositpools2 (dep w)) = Inr t2"
      and w': "dep w' = (dep w)\<lparr>depositpools := t1, depositpools2 := t2, miner2deps := tput k m' (miner2deps (dep w))\<rparr>"
      using run m True by (auto simp: incdeposit_def Let_def dest!: send_changevotes_frame(1))
    have "amount (md_deposit m) \<le> used (depositpools (dep w)) ?u" using deposit_le_used [OF inv m] True by simp
    then have e1: "pools_ok t1" "used t1 = (used (depositpools (dep w)))(?u := used (depositpools (dep w)) ?u - amount (md_deposit m))"
      using release_row_effect(1,2) [OF dep_invD(1) [OF inv] a(1) _ _ t1] mok by (simp_all add: miner_dep_ok_def)
    note r = raise_deposit_effect [OF mok q0 q m']
    have e2: "pools_ok t2" "used t2 = (used (depositpools2 (dep w)))(?u := used (depositpools2 (dep w)) ?u + amount (md_deposit m'))"
      using take_free_effect(1,2) [OF dep_invD(2) [OF inv] a(2) _ le t2] r(1) by (simp_all add: miner_dep_ok_def)
    show ?thesis
      using inv e1 e2 r m True by (auto simp: w' dep_inv_def miners_ok_put tsum_put_miner dep_row_def)
  next
    case False
    obtain a2 m' t2 where a: "map_of (depositpools2 (dep w)) ?u = Some a2"
      and m': "raise_deposit m q = Inr m'" and le: "amount q \<le> amount (deposit_free a2)"
      and t2: "take_free ?u a2 q (depositpools2 (dep w)) = Inr t2"
      and w': "dep w' = (dep w)\<lparr>depositpools2 := t2, miner2deps := tput k m' (miner2deps (dep w))\<rparr>"
      using run m False by (auto simp: incdeposit_def Let_def dest!: send_changevotes_frame(1))
    note r = raise_deposit_effect [OF mok q0 q m']
    have e2: "pools_ok t2" "used t2 = (used (depositpools2 (dep w)))(?u := used (depositpools2 (dep w)) ?u + amount q)"
      using take_free_effect(1,2) [OF dep_invD(2) [OF inv] a _ le t2] q0 by simp_all
    show ?thesis
      using inv e2 r m False by (auto simp: w' dep_inv_def miners_ok_put tsum_put_miner dep_row_def)
  qed
qed

lemma mforfeit_inv:
  assumes inv: "dep_inv (dep w)" and run: "mforfeit c x k q memo ty caller w = Inr w'"
  shows "dep_inv (dep w')"
proof -
  obtain m where m: "map_of (miner2deps (dep w)) k = Some m" and q0: "0 < amount q"
    using run by (auto simp: mforfeit_def Let_def check_bp_account_def split: if_splits prod.splits)
  let ?u = "md_account_name m"
  let ?q = "if amount (md_deposit m) < amount q then q\<lparr>amount := amount (md_deposit m)\<rparr> else q"
  have mok: "miner_dep_ok m" using dep_invD(8) [OF inv m] .
  have q1: "0 \<le> amount ?q" "amount ?q \<le> amount (md_deposit m)" using mok q0 by (auto simp: miner_dep_ok_def)
  let ?m = "m\<lparr>md_deposit := (md_deposit m)\<lparr>amount := amount (md_deposit m) - amount ?q\<rparr>\<rparr>"
  have e: "i64 (amount (md_deposit m) - amount ?q) = amount (md_deposit m) - amount ?q"
    using mok q1 by (intro i64_bounds) (auto simp: miner_dep_ok_def max_amount_def)
  have m'ok: "miner_dep_ok ?m" using mok q1 by (auto simp: miner_dep_ok_def)
  show ?thesis
  proof (cases "md_miner_type m = 0")
    case True
    then obtain t where t: "forfeit_row ?u ''no deposit pool record for this user.'' ?q (depositpools (dep w)) = Inr t"
      and w': "dep w' = (dep w)\<lparr>depositpools := t, miner2deps := tput k ?m (miner2deps (dep w))\<rparr>"
      using run m e by (auto simp: mforfeit_def Let_def check_bp_account_def split: if_splits prod.splits)
    note f = forfeit_row_effect(1,2) [OF dep_invD(1) [OF inv] q1(1) t]
    show ?thesis
      using inv f m'ok m True by (auto simp: w' dep_inv_def miners_ok_put tsum_put_miner dep_row_def)
  next
    case False
    then obtain t where t: "forfeit_row ?u ''no deposit pool2 record for this user.'' ?q (depositpools2 (dep w)) = Inr t"
      and w': "dep w' = (dep w)\<lparr>depositpools2 := t, miner2deps := tput k ?m (miner2deps (dep w))\<rparr>"
      using run m e by (auto simp: mforfeit_def Let_def check_bp_account_def split: if_splits prod.splits)
    note f = forfeit_row_effect(1,2) [OF dep_invD(2) [OF inv] q1(1) t]
    show ?thesis
      using inv f m'ok m False by (auto simp: w' dep_inv_def miners_ok_put tsum_put_miner dep_row_def)
  qed
qed

lemma release_opt_effect:
  assumes ok: "pools_ok t" and d: "0 \<le> amount d" "amount d \<le> used t u"
    and run: "(case map_of t u of None \<Rightarrow> Inr t | Some a \<Rightarrow> release_row u a d t) = Inr t'"
  shows "pools_ok t'" and "used t' = (used t)(u := used t u - amount d)"
proof -
  have "pools_ok t' \<and> used t' = (used t)(u := used t u - amount d)"
  proof (cases "map_of t u")
    case None
    then have "used t u = 0" by (simp add: used_def)
    then show ?thesis using None run ok d by (simp add: fun_eq_iff)
  next
    case (Some a)
    then show ?thesis using release_row_effect(1,2) [OF ok Some d] run by simp
  qed
  then show "pools_ok t'" "used t' = (used t)(u := used t u - amount d)" by simp_all
qed

lemma dep_delminer_inv:
  assumes inv: "dep_inv (dep w)" and run: "dep_delminer c k w = Inr w'"
  shows "dep_inv (dep w')"
proof (cases "map_of (miner2deps (dep w)) k")
  case None
  then show ?thesis using run inv by (simp add: dep_delminer_def)
next
  case (Some m)
  let ?u = "md_account_name m"
  let ?old = "md_miner_type m = 0"
  let ?t = "if ?old then depositpools (dep w) else depositpools2 (dep w)"
  have mok: "miner_dep_ok m" using dep_invD(8) [OF inv Some] .
  have le: "amount (md_deposit m) \<le> used ?t ?u" using deposit_le_used [OF inv Some] by simp
  have tok: "pools_ok ?t" using dep_invD(1,2) [OF inv] by simp
  obtain t where t: "(case map_of ?t ?u of None \<Rightarrow> Inr ?t | Some acc \<Rightarrow> release_row ?u acc (md_deposit m) ?t) = Inr t"
    and w': "dep w' = (if ?old then (dep w)\<lparr>depositpools := t\<rparr> else (dep w)\<lparr>depositpools2 := t\<rparr>)
        \<lparr>miner2deps := tdel k (miner2deps (dep w))\<rparr>"
    using run Some by (auto simp: dep_delminer_def Let_def split: if_splits dest!: send_changevotes_frame(1))
  have r: "pools_ok t" "used t = (used ?t)(?u := used ?t ?u - amount (md_deposit m))"
    using release_opt_effect [OF tok _ le t] mok by (simp_all add: miner_dep_ok_def)
  show ?thesis
    using inv r Some
    by (cases ?old) (auto simp: w' dep_inv_def miners_ok_del tsum_del_miner dep_row_def)
qed

lemma mchgdepacc_inv:
  assumes inv: "dep_inv (dep w)" and run: "mchgdepacc c k n w = Inr w'"
  shows "dep_inv (dep w')"
proof -
  obtain m a2 where m: "map_of (miner2deps (dep w)) k = Some m" and ne: "md_account_name m \<noteq> n"
    and a2: "map_of (depositpools2 (dep w)) n = Some a2"
    using run by (auto simp: mchgdepacc_def Let_def)
  let ?u = "md_account_name m"
  let ?m = "m\<lparr>md_account_name := n, md_deposit := md_dep_total m, md_miner_type := 1\<rparr>"
  let ?en = "amount (deposit_free a2) \<ge> amount (md_dep_total m)"
  have mok: "miner_dep_ok m" using dep_invD(8) [OF inv m] .
  then have mok': "miner_dep_ok ?m" and d0: "0 \<le> amount (md_deposit m)" "0 \<le> amount (md_dep_total m)"
    by (auto simp: miner_dep_ok_def)
  show ?thesis
  proof (cases "md_miner_type m = 0")
    case True
    obtain t t2 where t: "give_free ?u ''no deposit pool record for original deposit user'' (md_deposit m)
          (depositpools (dep w)) ?en = Inr t"
      and t2: "take_free n a2 (md_dep_total m) (depositpools2 (dep w)) = Inr t2"
      and w': "dep w' = (dep w)\<lparr>depositpools := t, miner2deps := tput k ?m (miner2deps (dep w)), depositpools2 := t2\<rparr>"
      using run m a2 True by (auto simp: mchgdepacc_def Let_def dest!: send_changevotes_frame(1))
    have le: "amount (md_deposit m) \<le> used (depositpools (dep w)) ?u" using deposit_le_used [OF inv m] True by simp
    note g = give_free_effect [OF dep_invD(1) [OF inv] d0(1) le t]
    note f = take_free_effect [OF dep_invD(2) [OF inv] a2 d0(2) _ t2]
    show ?thesis
      using inv g(1,2,5) f(1,2) mok' m True ne by (auto simp: w' dep_inv_def miners_ok_put tsum_put_miner dep_row_def)
  next
    case False
    obtain t t2 where t: "give_free ?u ''no deposit pool2 record for original deposit user'' (md_deposit m)
          (depositpools2 (dep w)) ?en = Inr t"
      and t2: "take_free n a2 (md_dep_total m) t = Inr t2"
      and w': "dep w' = (dep w)\<lparr>depositpools2 := t2, miner2deps := tput k ?m (miner2deps (dep w))\<rparr>"
      using run m a2 False by (auto simp: mchgdepacc_def Let_def dest!: send_changevotes_frame(1))
    have le: "amount (md_deposit m) \<le> used (depositpools2 (dep w)) ?u" using deposit_le_used [OF inv m] False by simp
    note g = give_free_effect [OF dep_invD(2) [OF inv] d0(1) le t]
    have a2': "map_of t n = Some a2" using g(4) [of n] ne a2 by simp
    note f = take_free_effect [OF g(1) a2' d0(2) _ t2]
    show ?thesis
      using inv g(1,2,5) f(1,2) mok' m False ne by (auto simp: w' dep_inv_def miners_ok_put tsum_put_miner dep_row_def)
  qed
qed

text \<open>
  The amounts an action carries are 64-bit integers.  A payment into pool 2 comes
  with a token transfer of the same amount, which the token contract accepts only
  for a valid asset.
\<close>

fun dep_act_ok :: "deposit_act \<Rightarrow> bool" where
  "dep_act_ok (Paydeppool2 u q) \<longleftrightarrow> amount q \<le> max_amount"
| "dep_act_ok (Incdeposit k q) \<longleftrightarrow> in_i64 (amount q)"
| "dep_act_ok a \<longleftrightarrow> True"

lemma dep_inv_other [simp]:
  "dep_inv (db\<lparr>storedeposits := t\<rparr>) = dep_inv db" "dep_inv (db\<lparr>gdepositrate := r\<rparr>) = dep_inv db"
  by (simp_all add: dep_inv_def)

lemma hdddeposit_apply_inv:
  assumes inv: "dep_inv (dep w)" and bal: "balances_sane w" and ok: "dep_act_ok a"
    and run: "hdddeposit_apply c a w = Inr w'"
  shows "dep_inv (dep w')"
proof (cases a)
  case (Paydeppool u q) then show ?thesis using run paydeppool_inv [OF inv bal] by simp
next
  case (Unpaydeppool u q) then show ?thesis using run unpaydeppool_inv [OF inv] by simp
next
  case (Paydeppool2 u q) then show ?thesis using run paydeppool2_inv [OF inv] ok by simp
next
  case (Undeppool2 u q) then show ?thesis using run undeppool2_inv [OF inv] by simp
next
  case (Depstore u q) then show ?thesis using run inv by (auto simp: depstore_def)
next
  case (Undepstore u x)
  then show ?thesis using run inv by (auto simp: undepstore_def check_bp_account_def split: prod.splits)
next
  case (Paydeposit u k q) then show ?thesis using run paydeposit_inv [OF inv] by simp
next
  case (Chgdeposit u k b q) then show ?thesis using run by (simp add: chgdeposit_def)
next
  case (Mforfeit u k q m t x) then show ?thesis using run mforfeit_inv [OF inv] by simp
next
  case (Dep_delminer k) then show ?thesis using run dep_delminer_inv [OF inv] by simp
next
  case (Setrate r) then show ?thesis using run inv by (auto simp: setrate_def)
next
  case (Mchgdepacc k n) then show ?thesis using run mchgdepacc_inv [OF inv] by simp
next
  case (Updatevote u)
  then show ?thesis using run inv send_changevotes_frame(1) [of c u w w'] by (simp add: updatevote_def)
next
  case (Incdeposit k q) then show ?thesis using run incdeposit_inv [OF inv] ok by simp
next
  case (Dep_channellog t q u) then show ?thesis using run inv by (auto simp: dep_channellog_def)
qed

lemmas deposit_defs = paydeppool_def unpaydeppool_def paydeppool2_def undeppool2_def dep_channellog_def depstore_def undepstore_def
  setrate_def paydeposit_def chgdeposit_def incdeposit_def mforfeit_def dep_delminer_def mchgdepacc_def updatevote_def

lemma votes_keeps: "P w \<Longrightarrow> (\<And>a. P (w\<lparr>inlines := inlines w @ [a]\<rparr>)) \<Longrightarrow> keeps P (send_changevotes c u w)"
  by (auto simp: send_changevotes_def intro!: keeps_intros)

lemma hdddeposit_apply_frame:
  assumes run: "hdddeposit_apply c a w = Inr w'"
  shows "tok w' = tok w \<and> lck w' = lck w \<and> pool w' = pool w \<and> chn w' = chn w \<and> syst w' = syst w"
proof (rule keepsD [OF _ run])
  let ?P = "\<lambda>w'. tok w' = tok w \<and> lck w' = lck w \<and> pool w' = pool w \<and> chn w' = chn w \<and> syst w' = syst w"
  have v: "keeps ?P (send_changevotes c u w1)" if "?P w1" for u w1 using that by (intro votes_keeps) simp_all
  show "keeps ?P (hdddeposit_apply c a w)"
    by (cases a; simp only: hdddeposit_apply.simps deposit_defs Let_def; intro keeps_intros keeps_rbind [where Q = ?P] v)
       (auto elim!: keepsD [OF v, rotated])
qed

end
