(* ===== verification/Memo.thy ===== *)
theory Memo
  imports Names
begin

text \<open>
  The string functions of the C++ library with which the contracts write and read
  the memo of a transfer: \<open>std::to_string\<close>, \<open>atoi\<close>, \<open>find_first_of\<close> and \<open>substr\<close>.
  A memo has the form \<open>type:account:rest\<close>; the lemmas show that reading a memo that
  was written this way gives back the type and the account.
\<close>

subsection \<open>Numbers\<close>

definition digit_char :: "nat \<Rightarrow> char" where
  "digit_char d = char_of (48 + d)"

fun std_to_string :: "nat \<Rightarrow> string" where
  "std_to_string n =
     (if n < 10 then [digit_char n] else std_to_string (n div 10) @ [digit_char (n mod 10)])"

declare std_to_string.simps [simp del]

definition c_isdigit :: "char \<Rightarrow> bool" where
  "c_isdigit c \<longleftrightarrow> 48 \<le> (of_char c :: nat) \<and> (of_char c :: nat) \<le> 57"

definition c_isspace :: "char \<Rightarrow> bool" where
  "c_isspace c \<longleftrightarrow> (of_char c :: nat) = 32 \<or> 9 \<le> (of_char c :: nat) \<and> (of_char c :: nat) \<le> 13"

definition digit_val :: "char \<Rightarrow> u32" where
  "digit_val c = of_nat (of_char c - 48)"

definition atoi_digits :: "string \<Rightarrow> u32" where
  "atoi_digits s = foldl (\<lambda>n c. 10 * n + digit_val c) 0 (takeWhile c_isdigit s)"

text \<open>The result is an \<open>int\<close> of 32 bits; digits beyond its range wrap.\<close>

definition atoi :: "string \<Rightarrow> u32" where
  "atoi str =
     (let s = dropWhile c_isspace (c_str str) in
      case s of
        [] \<Rightarrow> 0
      | c # s' \<Rightarrow> if c = CHR ''-'' then - atoi_digits s'
                  else if c = CHR ''+'' then atoi_digits s'
                  else atoi_digits s)"

subsection \<open>Substrings\<close>

definition find_first_of :: "string \<Rightarrow> char \<Rightarrow> nat \<Rightarrow> nat option" where
  "find_first_of s c pos =
     (let i = pos + length (takeWhile (\<lambda>x. x \<noteq> c) (drop pos s)) in
      if i < length s then Some i else None)"

definition substr :: "string \<Rightarrow> nat \<Rightarrow> nat \<Rightarrow> string" where
  "substr s pos n = take n (drop pos s)"

subsection \<open>Reading what was written\<close>

lemma of_char_digit [simp]: "d < 10 \<Longrightarrow> of_char (digit_char d) = 48 + d"
  by (simp add: digit_char_def)

lemma digit_char_facts:
  "d < 10 \<Longrightarrow> c_isdigit (digit_char d)"
  "d < 10 \<Longrightarrow> digit_val (digit_char d) = of_nat d"
  by (simp_all add: c_isdigit_def digit_val_def)

lemma digit_not_special:
  assumes "c_isdigit c"
  shows "c \<noteq> CHR 0x00" "c \<noteq> CHR ''-''" "c \<noteq> CHR ''+''" "c \<noteq> CHR '':''" "\<not> c_isspace c"
  using assms by (auto simp: c_isdigit_def c_isspace_def)

lemma std_to_string_digits: "c \<in> set (std_to_string n) \<Longrightarrow> c_isdigit c"
proof (induction n rule: std_to_string.induct)
  case (1 n)
  then show ?case
    by (subst (asm) (2) std_to_string.simps) (auto simp: digit_char_facts split: if_splits)
qed

lemma std_to_string_not_Nil: "std_to_string n \<noteq> []"
  by (subst std_to_string.simps) simp

lemma foldl_std_to_string:
  "foldl (\<lambda>n c. 10 * n + digit_val c) 0 (std_to_string n) = of_nat n"
proof (induction n rule: std_to_string.induct)
  case (1 n)
  show ?case
  proof (cases "n < 10")
    case True
    then show ?thesis by (subst std_to_string.simps) (simp add: digit_char_facts)
  next
    case False
    have "10 * of_nat (n div 10) + of_nat (n mod 10) = (of_nat n :: u32)"
      by (metis mult_div_mod_eq of_nat_add of_nat_mult of_nat_numeral)
    then show ?thesis
      using False 1 by (subst std_to_string.simps) (simp add: digit_char_facts)
  qed
qed

theorem atoi_std_to_string: "atoi (std_to_string n) = of_nat n"
proof -
  have d: "\<And>c. c \<in> set (std_to_string n) \<Longrightarrow> c_isdigit c" by (rule std_to_string_digits)
  have "c_str (std_to_string n) = std_to_string n"
    unfolding c_str_def using d digit_not_special(1) by (auto simp: takeWhile_eq_all_conv)
  moreover have "dropWhile c_isspace (std_to_string n) = std_to_string n"
    using d digit_not_special(5) by (cases "std_to_string n") auto
  moreover have "atoi_digits (std_to_string n) = of_nat n"
    using d by (simp add: atoi_digits_def foldl_std_to_string takeWhile_eq_all_conv [THEN iffD2])
  ultimately show ?thesis
    using d digit_not_special(2,3) std_to_string_not_Nil [of n]
    by (cases "std_to_string n") (auto simp: atoi_def)
qed

lemma find_first_of_split:
  assumes "c \<notin> set a" and "length p = pos"
  shows "find_first_of (p @ a @ c # b) c pos = Some (pos + length a)"
proof -
  have "takeWhile (\<lambda>x. x \<noteq> c) (a @ c # b) = a"
    using assms(1) by (induction a) auto
  then show ?thesis using assms(2) by (simp add: find_first_of_def)
qed

text \<open>The two fields of a memo \<open>a:b:rest\<close>.\<close>

lemma memo_fields:
  assumes "CHR '':'' \<notin> set a" and "CHR '':'' \<notin> set b"
    and m: "m = a @ '':'' @ b @ '':'' @ r"
  shows "find_first_of m (CHR '':'') 0 = Some (length a)"
    and "substr m 0 (length a) = a"
    and "find_first_of m (CHR '':'') (length a + 1) = Some (length a + 1 + length b)"
    and "substr m (length a + 1) (length a + 1 + length b - (length a + 1)) = b"
  using find_first_of_split [of "CHR '':''" a "[]" 0 "b @ '':'' @ r"]
    find_first_of_split [of "CHR '':''" b "a @ '':''" "length a + 1" r] assms(1,2)
  by (simp_all add: m substr_def)

lemma std_to_string_no_colon: "CHR '':'' \<notin> set (std_to_string n)"
  using std_to_string_digits [of "CHR '':''" n] by (auto simp: c_isdigit_def)

end
