(* ===== verification/Channel.thy ===== *)
theory Channel
  imports Frames Memo
begin

text \<open>
  The channel contract \<open>src/contracts/channel.sys/channel.sys.cpp\<close>: it holds
  tokens on behalf of users in balances of type 1 (spendable) and type 2 (fees).
  Tokens arrive by a transfer whose memo \<open>type:account:rest\<close> says what they are
  for; \<open>transfercore\<close> books them.  The other actions move amounts between balances
  or send tokens back to the bridge account \<open>ytapro.map\<close>.
\<close>

subsection \<open>Balances\<close>

text \<open>\<open>modify\<close> of the balance if there is one, \<open>emplace\<close> otherwise.\<close>

definition add_cbalance :: "name \<Rightarrow> u64 \<Rightarrow> asset \<Rightarrow> channel_db \<Rightarrow> channel_db result" where
  "add_cbalance user ty quant db =
     (case map_of (cbalances db) (user, ty) of
        Some b \<Rightarrow> rbind (asset_add b quant) (\<lambda>b'. Inr (db\<lparr>cbalances := tput (user, ty) b' (cbalances db)\<rparr>))
      | None \<Rightarrow> rbind (emplace (user, ty) quant (cbalances db)) (\<lambda>t. Inr (db\<lparr>cbalances := t\<rparr>)))"

definition sub_cbalance :: "name \<Rightarrow> u64 \<Rightarrow> asset \<Rightarrow> asset \<Rightarrow> channel_db \<Rightarrow> channel_db result" where
  "sub_cbalance user ty b quant db =
     rbind (asset_sub b quant) (\<lambda>b'. Inr (db\<lparr>cbalances := tput (user, ty) b' (cbalances db)\<rparr>))"

definition on_chn :: "(channel_db \<Rightarrow> channel_db result) \<Rightarrow> world \<Rightarrow> world result" where
  "on_chn f w = rbind (f (chn w)) (\<lambda>db. Inr (w\<lparr>chn := db\<rparr>))"

subsection \<open>Incoming transfers\<close>

definition memo_type :: "string \<Rightarrow> u8" where
  "memo_type s = ucast (atoi s)"

definition send_channellog :: "ctx \<Rightarrow> u8 \<Rightarrow> asset \<Rightarrow> name \<Rightarrow> string \<Rightarrow> world \<Rightarrow> world result" where
  "send_channellog c ty quant user memo w =
     send c channel_sys (mk_act channel_sys channel_sys (Chn (Channellog ty quant user memo))) w"

text \<open>What is done with a transfer of type \<open>trans_type\<close> for \<open>user\<close>.\<close>

definition book_transfer :: "ctx \<Rightarrow> name \<Rightarrow> asset \<Rightarrow> u8 \<Rightarrow> name \<Rightarrow> world \<Rightarrow> world result" where
  "book_transfer c from quantity trans_type user w =
     (if trans_type = 1 \<or> trans_type = 2 then
        ensure (from = fund_sys) ''invalid from user'' (on_chn (add_cbalance user 1 quantity) w)
      else if trans_type = 3 then
        ensure (from = store_sys) ''invalid from user'' (on_chn (add_cbalance user 1 quantity) w)
      else if trans_type = 4 then
        ensure (from = ytapro_map) ''invalid from user'' (
        send c channel_sys (mk_act channel_sys hdd_deposit_account (Dep (Paydeppool2 user quantity))) w)
      else if trans_type = 5 then
        ensure (from = ytapro_map) ''invalid from user'' (
        rbind (on_chn (add_cbalance user 2 quantity) w) (\<lambda>w.
        send_channellog c 5 quantity user [] w))
      else ensure False ''invalid memo type'' (Inr w))"

definition transfercore :: "ctx \<Rightarrow> name \<Rightarrow> name \<Rightarrow> asset \<Rightarrow> string \<Rightarrow> world \<Rightarrow> world result" where
  "transfercore c from to quantity memo w =
     (if to \<noteq> channel_sys then Inr w
      else
        ensure (symbol quantity = CORE_SYMBOL) ''invalid symbol'' (
        case find_first_of memo (CHR '':'') 0 of
          None \<Rightarrow> Inl (Eosio_assert ''invalid memo'')
        | Some pos1 \<Rightarrow>
            let trans_type = memo_type (substr memo 0 pos1) in
            case find_first_of memo (CHR '':'') (pos1 + 1) of
              None \<Rightarrow> Inl (Eosio_assert ''invalid memo'')
            | Some pos2 \<Rightarrow>
                let user = string_to_name (substr memo (pos1 + 1) (pos2 - (pos1 + 1))) in
                book_transfer c from quantity trans_type user w))"

subsection \<open>Actions\<close>

definition mapc :: "ctx \<Rightarrow> name \<Rightarrow> asset \<Rightarrow> asset \<Rightarrow> string \<Rightarrow> world \<Rightarrow> world result" where
  "mapc c user quant gas bscaddr w =
     require_auth c user (
     ensure (symbol quant = CORE_SYMBOL) ''invalid quant symbol'' (
     ensure (symbol gas = CORE_SYMBOL) ''invalid gas symbol'' (
     ensure (user \<noteq> node_sys) ''invalid user'' (
     ensure (amount quant > 0) ''must use positive quantity'' (
     ensure (amount gas > 0) ''must use positive gas'' (
     rbind (asset_add quant gas) (\<lambda>total_trans_asset.
     fetch (cbalances (chn w)) (user, 1) ''invalid user'' (\<lambda>b.
     rbind (asset_cmp (\<ge>) b total_trans_asset) (\<lambda>ok.
     ensure ok ''overdrawn user channel balance'' (
     rbind (on_chn (sub_cbalance user 1 b total_trans_asset) w) (\<lambda>w.
     rbind (send c channel_sys
       (mk_act channel_sys token_account (Tok (Transfer channel_sys ytapro_map quant (''BSC'' @ bscaddr)))) w) (\<lambda>w.
     rbind (send c channel_sys
       (mk_act channel_sys token_account (Tok (Transfer channel_sys ytapro_map gas ''fee''))) w) (\<lambda>w.
     rbind (asset_add quant gas) (\<lambda>logged.
     send_channellog c 4 logged user [] w))))))))))))))"

definition feetoc :: "ctx \<Rightarrow> name \<Rightarrow> asset \<Rightarrow> world \<Rightarrow> world result" where
  "feetoc c user quant w =
     require_auth c user (
     fetch (cbalances (chn w)) (user, 2) ''no fee balance'' (\<lambda>b.
     ensure (symbol quant = CORE_SYMBOL) ''invalid quant symbol'' (
     ensure (amount quant > 0) ''must use positive quantity'' (
     ensure (amount b \<ge> amount quant) ''overdrawn fee'' (
     rbind (on_chn (sub_cbalance user 2 b quant) w) (\<lambda>w.
     rbind (on_chn (add_cbalance user 1 quant) w) (\<lambda>w.
     send_channellog c 6 quant user [] w)))))))"

definition subfee :: "ctx \<Rightarrow> name \<Rightarrow> asset \<Rightarrow> string \<Rightarrow> world \<Rightarrow> world result" where
  "subfee c user quant memo w =
     require_auth c channel_sys (
     ensure (amount quant \<ge> 0) ''must use positive quantity'' (
     fetch (cbalances (chn w)) (user, 2) ''no fee balance'' (\<lambda>b.
     ensure (symbol quant = CORE_SYMBOL) ''invalid quant symbol'' (
     ensure (amount b \<ge> amount quant) ''overdrawn fee'' (
     ensure (length memo \<le> 256) ''memo has more than 256 bytes'' (
     rbind (on_chn (sub_cbalance user 2 b quant) w) (\<lambda>w.
     on_chn (add_cbalance gas_sys 1 quant) w)))))))"

text \<open>The share of the gas fund for the nodes, in percent: it falls with the price of the token in dollars.\<close>

definition split_rate :: "u64 \<Rightarrow> u64 \<Rightarrow> u64 result" where
  "split_rate yta usd =
     (let yta_usd_price = fdiv (f64_of_int (uint yta)) (f64_of_int (uint usd)) in
      f64_trunc_i64u (fadd (f64_of_int 20)
        (fmul (f64_of_int 60) (fdiv (f64_of_int 1) (fadd yta_usd_price (f64_of_int 1))))))"

definition splitgas :: "ctx \<Rightarrow> world \<Rightarrow> world result" where
  "splitgas c w =
     require_auth c node_sys (
     rbind (split_rate (get_yta_price w) (get_usd_price w)) (\<lambda>rate.
     ensure (rate \<ge> 20 \<and> rate \<le> 80) ''invalid split action'' (
     fetch (cbalances (chn w)) (gas_sys, 1) ''no gas'' (\<lambda>b.
     if amount b \<le> 0 then Inr w
     else
       let w = w\<lparr>chn := (chn w)\<lparr>cbalances := tput (gas_sys, 1) (b\<lparr>amount := 0\<rparr>) (cbalances (chn w))\<rparr>\<rparr>;
           amount_node = tdiv (i64 (amount b * uint rate)) 100 in
       ensure (amount_node \<le> amount b) ''invalid split'' (
       let amount_null = i64 (amount b - amount_node) in
       rbind (mk_asset amount_node CORE_SYMBOL) (\<lambda>quant_node.
       rbind (mk_asset amount_null CORE_SYMBOL) (\<lambda>quant_null.
       rbind (on_chn (add_cbalance node_sys 1 quant_node) w) (\<lambda>w.
       on_chn (add_cbalance null_sys 1 quant_null) w))))))))"

definition rewardnode :: "ctx \<Rightarrow> name \<Rightarrow> asset \<Rightarrow> string \<Rightarrow> world \<Rightarrow> world result" where
  "rewardnode c user quant memo w =
     require_auth c node_sys (
     ensure (amount quant > 0) ''must use positive quantity'' (
     fetch (cbalances (chn w)) (node_sys, 1) ''no balance'' (\<lambda>b.
     ensure (amount b \<ge> amount quant) ''overdrawn balance'' (
     rbind (on_chn (sub_cbalance node_sys 1 b quant) w) (\<lambda>w.
     rbind (on_chn (add_cbalance user 1 quant) w) (\<lambda>w.
     send_channellog c 7 quant user memo w))))))"

definition channellog :: "ctx \<Rightarrow> u8 \<Rightarrow> asset \<Rightarrow> name \<Rightarrow> string \<Rightarrow> world \<Rightarrow> world result" where
  "channellog c ty quant user memo w =
     require_auth c channel_sys (
     ensure (length memo \<le> 256) ''memo has more than 256 bytes'' (
     Inr (require_recipient user w)))"

fun channel_apply :: "ctx \<Rightarrow> channel_act \<Rightarrow> world \<Rightarrow> world result" where
  "channel_apply c (Mapc u q g b) w = mapc c u q g b w"
| "channel_apply c (Feetoc u q) w = feetoc c u q w"
| "channel_apply c (Subfee u q m) w = subfee c u q m w"
| "channel_apply c (Channellog t q u m) w = channellog c t q u m w"
| "channel_apply c (Rewardnode u q m) w = rewardnode c u q m w"
| "channel_apply c Splitgas w = splitgas c w"

subsection \<open>The invariant of the balances\<close>

definition cbalance_ok :: "asset \<Rightarrow> bool" where
  "cbalance_ok b \<longleftrightarrow> symbol b = CORE_SYMBOL \<and> 0 \<le> amount b \<and> amount b \<le> max_amount"

definition channel_inv :: "channel_db \<Rightarrow> bool" where
  "channel_inv db \<longleftrightarrow> twf (cbalances db) \<and> (\<forall>k b. map_of (cbalances db) k = Some b \<longrightarrow> cbalance_ok b)"

text \<open>What the channel owes to all users.\<close>

definition channel_total :: "channel_db \<Rightarrow> int" where
  "channel_total db = tsum (\<lambda>_. amount) (cbalances db)"

lemma channel_inv_put:
  assumes "channel_inv db" and "cbalance_ok b"
  shows "channel_inv (db\<lparr>cbalances := tput k b (cbalances db)\<rparr>)"
    and "channel_total (db\<lparr>cbalances := tput k b (cbalances db)\<rparr>)
      = channel_total db - row_val (\<lambda>_. amount) k (map_of (cbalances db) k) + amount b"
  using assms by (auto simp: channel_inv_def channel_total_def tbl.total_put split: if_splits)

lemma add_cbalance_effect:
  assumes inv: "channel_inv db" and q: "cbalance_ok q" and run: "add_cbalance u ty q db = Inr db'"
  shows "channel_inv db'" and "channel_total db' = channel_total db + amount q"
proof -
  have "channel_inv db' \<and> channel_total db' = channel_total db + amount q"
  proof (cases "map_of (cbalances db) (u, ty)")
    case None
    then show ?thesis using run channel_inv_put [OF inv q, of "(u, ty)"] by (auto simp: add_cbalance_def)
  next
    case (Some b)
    have b: "cbalance_ok b" using inv Some by (simp add: channel_inv_def)
    let ?b = "b\<lparr>amount := amount b + amount q\<rparr>"
    have "i64 (amount b + amount q) = amount b + amount q"
      using b q by (intro i64_bounds) (auto simp: cbalance_ok_def max_amount_def)
    then have db': "db' = db\<lparr>cbalances := tput (u, ty) ?b (cbalances db)\<rparr>" and r: "is_amount_within_range ?b"
      using run Some by (auto simp: add_cbalance_def)
    have "cbalance_ok ?b" using b q r by (auto simp: cbalance_ok_def is_amount_within_range_def)
    then show ?thesis using channel_inv_put [OF inv, of ?b "(u, ty)"] Some db' by simp
  qed
  then show "channel_inv db'" and "channel_total db' = channel_total db + amount q" by simp_all
qed

lemma sub_cbalance_effect:
  assumes inv: "channel_inv db" and b: "map_of (cbalances db) (u, ty) = Some b"
    and q: "0 \<le> amount q" "amount q \<le> amount b" and run: "sub_cbalance u ty b q db = Inr db'"
  shows "channel_inv db'" and "channel_total db' = channel_total db - amount q" and "cbalance_ok q"
proof -
  have bo: "cbalance_ok b" using inv b by (simp add: channel_inv_def)
  let ?b = "b\<lparr>amount := amount b - amount q\<rparr>"
  have "i64 (amount b - amount q) = amount b - amount q"
    using bo q by (intro i64_bounds) (auto simp: cbalance_ok_def max_amount_def)
  then have db': "db' = db\<lparr>cbalances := tput (u, ty) ?b (cbalances db)\<rparr>" and s: "symbol q = symbol b"
    using run by (auto simp: sub_cbalance_def)
  have "cbalance_ok ?b" using bo q by (auto simp: cbalance_ok_def)
  then show "channel_inv db'" and "channel_total db' = channel_total db - amount q"
    using channel_inv_put [OF inv, of ?b "(u, ty)"] b db' by simp_all
  show "cbalance_ok q" using bo q s by (simp add: cbalance_ok_def)
qed

lemma on_chn_Inr [res_simps, simp]:
  "on_chn f w = Inr w' \<longleftrightarrow> (\<exists>db. f (chn w) = Inr db \<and> w' = w\<lparr>chn := db\<rparr>)"
  by (auto simp: on_chn_def)

subsection \<open>Incoming transfers\<close>

text \<open>The amount of a transfer that is booked on a balance; the rest is passed on at once.\<close>

definition booked :: "u8 \<Rightarrow> asset \<Rightarrow> int" where
  "booked ty q = (if ty = 4 then 0 else amount q)"

lemma book_transfer_effect:
  assumes inv: "channel_inv (chn w)" and q: "cbalance_ok q" and run: "book_transfer c from q ty u w = Inr w'"
  shows "channel_inv (chn w')" and "channel_total (chn w') = channel_total (chn w) + booked ty q"
  using run add_cbalance_effect [OF inv q] inv
  by (auto simp: book_transfer_def booked_def send_channellog_def split: if_splits)

text \<open>A memo that names a type and an account is read back as such.\<close>

lemma transfercore_memo:
  assumes "symbol q = CORE_SYMBOL" and "CHR '':'' \<notin> set t"
  shows "transfercore c from channel_sys q (t @ '':'' @ to_string u @ '':'' @ r) w
    = book_transfer c from q (memo_type t) u w"
  using memo_fields [OF assms(2) to_string_no_colon [of u], of _ r] assms(1)
  by (simp add: transfercore_def name_round_trip del: append.simps append_assoc)

lemma memo_type_std_to_string: "memo_type (std_to_string (unat (ty :: u8))) = ty"
proof -
  have "(ucast (of_nat (unat ty) :: u32) :: u8) = ty" by (simp, transfer, simp)
  then show ?thesis by (simp add: memo_type_def atoi_std_to_string)
qed

subsection \<open>Moving amounts\<close>

lemma feetoc_effect:
  assumes inv: "channel_inv (chn w)" and run: "feetoc c u q w = Inr w'"
  shows "channel_inv (chn w')" and "channel_total (chn w') = channel_total (chn w)"
proof -
  obtain b d1 d2 where b: "map_of (cbalances (chn w)) (u, 2) = Some b" "0 < amount q" "amount q \<le> amount b"
      and d: "sub_cbalance u 2 b q (chn w) = Inr d1" "add_cbalance u 1 q d1 = Inr d2" "chn w' = d2"
    using run by (auto simp: feetoc_def send_channellog_def)
  note s = sub_cbalance_effect [OF inv b(1) less_imp_le [OF b(2)] b(3) d(1)]
  show "channel_inv (chn w')" "channel_total (chn w') = channel_total (chn w)"
    using add_cbalance_effect [OF s(1) s(3) d(2)] s(2) d(3) by simp_all
qed

lemma subfee_effect:
  assumes inv: "channel_inv (chn w)" and run: "subfee c u q m w = Inr w'"
  shows "channel_inv (chn w')" and "channel_total (chn w') = channel_total (chn w)"
proof -
  obtain b d1 d2 where b: "map_of (cbalances (chn w)) (u, 2) = Some b" "0 \<le> amount q" "amount q \<le> amount b"
      and d: "sub_cbalance u 2 b q (chn w) = Inr d1" "add_cbalance gas_sys 1 q d1 = Inr d2" "chn w' = d2"
    using run by (auto simp: subfee_def)
  note s = sub_cbalance_effect [OF inv b d(1)]
  show "channel_inv (chn w')" "channel_total (chn w') = channel_total (chn w)"
    using add_cbalance_effect [OF s(1) s(3) d(2)] s(2) d(3) by simp_all
qed

lemma rewardnode_effect:
  assumes inv: "channel_inv (chn w)" and run: "rewardnode c u q m w = Inr w'"
  shows "channel_inv (chn w')" and "channel_total (chn w') = channel_total (chn w)"
proof -
  obtain b d1 d2 where b: "map_of (cbalances (chn w)) (node_sys, 1) = Some b" "0 < amount q" "amount q \<le> amount b"
      and d: "sub_cbalance node_sys 1 b q (chn w) = Inr d1" "add_cbalance u 1 q d1 = Inr d2" "chn w' = d2"
    using run by (auto simp: rewardnode_def send_channellog_def)
  note s = sub_cbalance_effect [OF inv b(1) less_imp_le [OF b(2)] b(3) d(1)]
  show "channel_inv (chn w')" "channel_total (chn w') = channel_total (chn w)"
    using add_cbalance_effect [OF s(1) s(3) d(2)] s(2) d(3) by simp_all
qed

text \<open>Tokens leave the channel only towards the bridge, with the transfers that pay them.\<close>

definition mapc_payments :: "asset \<Rightarrow> asset \<Rightarrow> string \<Rightarrow> act list" where
  "mapc_payments quant gas bscaddr =
     [mk_act channel_sys token_account (Tok (Transfer channel_sys ytapro_map quant (''BSC'' @ bscaddr))),
      mk_act channel_sys token_account (Tok (Transfer channel_sys ytapro_map gas ''fee''))]"

lemma mapc_effect:
  assumes inv: "channel_inv (chn w)" and run: "mapc c u q g bsc w = Inr w'"
    and r: "amount q \<le> max_amount" "amount g \<le> max_amount"
  shows "channel_inv (chn w')" and "channel_total (chn w') = channel_total (chn w) - (amount q + amount g)"
    and "\<exists>log. inlines w' = inlines w @ mapc_payments q g bsc @ [log]"
proof -
  have e: "i64 (amount q + amount g) = amount q + amount g"
    if "0 < amount q" "0 < amount g" using that r by (intro i64_bounds) (auto simp: max_amount_def)
  obtain b d1 where b: "map_of (cbalances (chn w)) (u, 1) = Some b" "0 < amount q" "0 < amount g"
      "amount q + amount g \<le> amount b"
      and d: "sub_cbalance u 1 b (q\<lparr>amount := amount q + amount g\<rparr>) (chn w) = Inr d1" "chn w' = d1"
      and i: "\<exists>log. inlines w' = inlines w @ mapc_payments q g bsc @ [log]"
    using run e by (auto simp: mapc_def send_channellog_def mapc_payments_def)
  show "channel_inv (chn w')" and "channel_total (chn w') = channel_total (chn w) - (amount q + amount g)"
    using sub_cbalance_effect [OF inv b(1) _ _ d(1)] b d(2) by simp_all
  show "\<exists>log. inlines w' = inlines w @ mapc_payments q g bsc @ [log]" by (rule i)
qed

subsection \<open>Splitting the gas fund\<close>

lemma split_rate_bounds:
  assumes "usd \<noteq> 0"
  shows "\<exists>r. split_rate yta usd = Inr r \<and> 20 \<le> r \<and> r \<le> 80"
proof -
  define y where "y = rnd (of_int (uint yta))"
  define u where "u = rnd (of_int (uint usd))"
  define p where "p = rnd (y / u)"
  define s where "s = rnd (p + 1)"
  define i where "i = rnd (1 / s)"
  define m where "m = rnd (60 * i)"
  define t where "t = rnd (20 + m)"
  have y: "0 \<le> y" "y \<le> 2 ^ 64" using f64_of_uint [of yta] by (simp_all add: y_def)
  have u: "1 \<le> u" using rnd_uint_pos [OF assms] by (simp add: u_def)
  have yu: "0 \<le> y / u" "y / u \<le> 2 ^ 64"
    using y u divide_left_mono [of 1 u y] by (simp_all add: order_trans [of "y / u" y])
  have p: "0 \<le> p" "p \<le> 2 ^ 64" using yu rnd_le_pow2 [of "y / u" 64] by (simp_all add: p_def rnd_nonneg)
  have s: "1 \<le> s" using p by (simp add: s_def rnd_ge_1)
  have s1: "1 / s \<le> 2 ^ 65" using s by (simp add: divide_le_eq)
  have i: "0 \<le> i" "i \<le> 1" using s by (simp_all add: i_def rnd_nonneg rnd_le_1)
  have m: "0 \<le> m" "m \<le> 60"
    using i rnd_le_int [of "60 * i" 60] by (simp_all add: m_def rnd_nonneg)
  have t: "20 \<le> t" "t \<le> 80"
    using m rnd_le_int [of "20 + m" 80] rnd_ge_int [of 20 "20 + m"] by (simp_all add: t_def)
  have big: "\<And>x :: rat. 0 \<le> x \<Longrightarrow> x \<le> 2 ^ 65 \<Longrightarrow> f64_of_rat x = Fin (rnd x)"
    by (intro f64_of_rat_Fin) (simp add: order_trans [OF _ power_increasing [of 65 1000]])
  have "split_rate yta usd = f64_trunc_i64u (Fin t)"
    using y u yu p s i m big [of "y / u"] s1 big [of "p + 1"] big [of "1 / s"] big [of "60 * i"] big [of "20 + m"]
    by (simp add: split_rate_def f64_of_uint y_def [symmetric] u_def [symmetric] p_def [symmetric]
        s_def [symmetric] i_def [symmetric] m_def [symmetric] t_def [symmetric])
  then have r: "split_rate yta usd = Inr (word_of_int (rtrunc t))" using t by simp
  have "20 \<le> rtrunc t" "rtrunc t \<le> 80"
    using t rtrunc_mono [of "of_int 20" t] rtrunc_mono [of t "of_int 80"] rtrunc_of_int [of 20] rtrunc_of_int [of 80]
    by simp_all
  then have "20 \<le> (word_of_int (rtrunc t) :: u64)" "(word_of_int (rtrunc t) :: u64) \<le> 80"
    by (simp_all add: word_le_def uint_of_int_u64)
  then show ?thesis using r by blast
qed

lemma tdiv_percent:
  assumes "0 \<le> a" "a \<le> 2 ^ 56" and "0 \<le> r" "r \<le> 80"
  shows "0 \<le> tdiv (i64 (a * r)) 100" and "tdiv (i64 (a * r)) 100 \<le> a"
proof -
  have m: "0 \<le> a * r" "a * r \<le> a * 80" using assms by (simp_all add: mult_left_mono)
  then have e: "i64 (a * r) = a * r" using assms(2) by (intro i64_bounds) simp_all
  then have t: "tdiv (i64 (a * r)) 100 = a * r div 100" using m by (simp add: tdiv_nonneg)
  show "0 \<le> tdiv (i64 (a * r)) 100" using m t by (simp add: pos_imp_zdiv_nonneg_iff)
  have "a * r div 100 \<le> a * 100 div 100" using m assms(1) by (intro zdiv_mono1) linarith+
  then show "tdiv (i64 (a * r)) 100 \<le> a" using t by simp
qed

lemma splitgas_effect:
  assumes inv: "channel_inv (chn w)" and run: "splitgas c w = Inr w'"
    and small: "\<And>b. map_of (cbalances (chn w)) (gas_sys, 1) = Some b \<Longrightarrow> amount b \<le> 2 ^ 56"
  shows "channel_inv (chn w')" and "channel_total (chn w') = channel_total (chn w)"
proof -
  obtain b where b: "map_of (cbalances (chn w)) (gas_sys, 1) = Some b"
    using run by (auto simp: splitgas_def)
  have bo: "cbalance_ok b" using inv b by (simp add: channel_inv_def)
  have "channel_inv (chn w') \<and> channel_total (chn w') = channel_total (chn w)"
  proof (cases "amount b \<le> 0")
    case True
    then have "w' = w" using run b by (auto simp: splitgas_def)
    then show ?thesis using inv by simp
  next
    case False
    define d0 where "d0 = (chn w)\<lparr>cbalances := tput (gas_sys, 1) (b\<lparr>amount := 0\<rparr>) (cbalances (chn w))\<rparr>"
    obtain rate :: u64 and d1 d2 where rate: "rate \<le> 80"
        and d: "add_cbalance node_sys 1 \<lparr>amount = tdiv (i64 (amount b * uint rate)) 100, symbol = CORE_SYMBOL\<rparr> d0 = Inr d1"
          "add_cbalance null_sys 1 \<lparr>amount = i64 (amount b - tdiv (i64 (amount b * uint rate)) 100), symbol = CORE_SYMBOL\<rparr> d1 = Inr d2"
          "chn w' = d2"
      using run b False unfolding d0_def
      by (auto simp: splitgas_def Let_def)
    define n where "n = tdiv (i64 (amount b * uint rate)) 100"
    have r: "0 \<le> uint rate" "uint rate \<le> 80" using rate by (simp_all add: word_le_def)
    have n: "0 \<le> n" "n \<le> amount b" using tdiv_percent [of "amount b" "uint rate"] small [OF b] r False by (simp_all add: n_def)
    have e: "i64 (amount b - n) = amount b - n"
      using n bo by (intro i64_bounds) (auto simp: cbalance_ok_def max_amount_def)
    have z: "channel_inv d0" "channel_total d0 = channel_total (chn w) - amount b"
      using channel_inv_put [OF inv, of "b\<lparr>amount := 0\<rparr>" "(gas_sys, 1)"] bo b
      by (simp_all add: d0_def cbalance_ok_def max_amount_def)
    note s1 = add_cbalance_effect [OF z(1) _ d(1) [folded n_def]]
    note s2 = add_cbalance_effect [OF s1(1) _ d(2) [folded n_def, unfolded e]]
    show ?thesis using s1 s2 z(2) n bo d(3) by (simp add: cbalance_ok_def)
  qed
  then show "channel_inv (chn w')" and "channel_total (chn w') = channel_total (chn w)" by simp_all
qed

text \<open>Every action of the contract keeps the invariant; the total changes only when tokens are paid out.\<close>

fun channel_act_ok :: "channel_act \<Rightarrow> channel_db \<Rightarrow> bool" where
  "channel_act_ok (Mapc u q g b) db \<longleftrightarrow> amount q \<le> max_amount \<and> amount g \<le> max_amount"
| "channel_act_ok Splitgas db \<longleftrightarrow> (\<forall>b. map_of (cbalances db) (gas_sys, 1) = Some b \<longrightarrow> amount b \<le> 2 ^ 56)"
| "channel_act_ok _ db \<longleftrightarrow> True"

fun paid_out :: "channel_act \<Rightarrow> int" where
  "paid_out (Mapc u q g b) = amount q + amount g"
| "paid_out _ = 0"

lemma channel_apply_effect:
  assumes inv: "channel_inv (chn w)" and run: "channel_apply c a w = Inr w'" and ok: "channel_act_ok a (chn w)"
  shows "channel_inv (chn w')" and "channel_total (chn w') = channel_total (chn w) - paid_out a"
proof -
  have "channel_inv (chn w') \<and> channel_total (chn w') = channel_total (chn w) - paid_out a"
  proof (cases a)
    case (Mapc u q g b)
    then show ?thesis using run ok mapc_effect [OF inv] by simp
  next
    case (Feetoc u q)
    then show ?thesis using run feetoc_effect [OF inv] by simp
  next
    case (Subfee u q m)
    then show ?thesis using run subfee_effect [OF inv] by simp
  next
    case (Channellog t q u m)
    then show ?thesis using run inv by (auto simp: channellog_def)
  next
    case (Rewardnode u q m)
    then show ?thesis using run rewardnode_effect [OF inv] by simp
  next
    case Splitgas
    then show ?thesis using run ok splitgas_effect [OF inv] by simp
  qed
  then show "channel_inv (chn w')" and "channel_total (chn w') = channel_total (chn w) - paid_out a" by simp_all
qed

lemma keeps_chn: "(\<And>d. f (chn w) = Inr d \<Longrightarrow> P (w\<lparr>chn := d\<rparr>)) \<Longrightarrow> keeps P (on_chn f w)"
  by (auto simp: keeps_def)

lemma keeps_rbind_chn: "(\<And>d. keeps P (f (w\<lparr>chn := d\<rparr>))) \<Longrightarrow> keeps P (rbind (on_chn g w) f)"
  by (auto simp: keeps_def)

lemmas chn_intros = keeps_chn keeps_rbind_chn keeps_intros

lemmas channel_defs = mapc_def feetoc_def subfee_def channellog_def rewardnode_def splitgas_def send_channellog_def

lemma channel_apply_frame [frame_simps]:
  assumes "channel_apply c a w = Inr w'"
  shows "tok w' = tok w" "lck w' = lck w" "dep w' = dep w" "pool w' = pool w" "syst w' = syst w" "deferred w' = deferred w"
proof -
  let ?P = "\<lambda>w'. tok w' = tok w \<and> lck w' = lck w \<and> dep w' = dep w \<and> pool w' = pool w \<and> syst w' = syst w \<and> deferred w' = deferred w"
  have "keeps ?P (channel_apply c a w)"
    by (cases a; simp only: channel_apply.simps channel_defs Let_def; intro chn_intros; simp)
  from keepsD [OF this assms] show "tok w' = tok w" "lck w' = lck w" "dep w' = dep w" "pool w' = pool w" "syst w' = syst w"
    "deferred w' = deferred w" by simp_all
qed

lemma transfercore_frame [frame_simps]:
  assumes "transfercore c f t q m w = Inr w'"
  shows "tok w' = tok w" "lck w' = lck w" "dep w' = dep w" "pool w' = pool w" "syst w' = syst w" "deferred w' = deferred w"
    "notified w' = notified w"
  using assms
  by (auto simp: transfercore_def book_transfer_def send_channellog_def Let_def split: if_splits option.splits)

end
