(* ===== verification/Examples.thy ===== *)
theory Examples
  imports Hddlock Token Hdddeposit Channel
begin

text \<open>
  Small concrete states on which the handlers are run by simplification: a ledger of
  the core token with two holders, a context in which every account exists, and the
  definitions that are unfolded to run a handler.
\<close>

definition votes_of :: "yta_prod_info \<Rightarrow> rat" where
  "votes_of p = (case yp_total_votes p of Fin x \<Rightarrow> x | _ \<Rightarrow> 0)"

definition demo_ctx :: "name list \<Rightarrow> ctx" where
  "demo_ctx as = \<lparr>auths = as, current_time = 1600000000000000, is_account = (\<lambda>n. n \<noteq> 0),
     inline_ok = (\<lambda>_ _. True), tapos_block_prefix = 12345, tapos_block_num = 77, libm_pow = (\<lambda>_ _. NaN),
     sort_votes = sort_key (\<lambda>p. - votes_of p), key_valid = (\<lambda>_. True), takes_schedule = (\<lambda>_. True), call_depth = 250\<rparr>"

definition yta :: "int \<Rightarrow> asset" where
  "yta x = \<lparr>amount = x, symbol = CORE_SYMBOL\<rparr>"

definition demo_token :: token_db where
  "demo_token = \<lparr>accounts = [((1, sym_name CORE_SYMBOL), yta 700), ((2, sym_name CORE_SYMBOL), yta 300)],
     stats = [(sym_name CORE_SYMBOL, \<lparr>st_supply = yta 1000, st_max_supply = yta 5000, st_issuer = system_account\<rparr>)]\<rparr>"

definition demo_world :: world where
  "demo_world = empty_world\<lparr>tok := demo_token\<rparr>"

lemma demo_ctx_simps [simp]:
  "auths (demo_ctx as) = as" "current_time (demo_ctx as) = 1600000000000000" "is_account (demo_ctx as) n = (n \<noteq> 0)"
  "inline_ok (demo_ctx as) s a" "tapos_block_prefix (demo_ctx as) = 12345" "tapos_block_num (demo_ctx as) = 77"
  by (simp_all add: demo_ctx_def)

lemma yta_simps [simp]: "amount (yta x) = x" "symbol (yta x) = CORE_SYMBOL" "(yta x)\<lparr>amount := y\<rparr> = yta y"
  by (simp_all add: yta_def)

lemma yta_inject [simp]: "yta x = yta y \<longleftrightarrow> x = y"
  by (simp add: yta_def)

lemma mk_asset_yta [simp]: "- max_amount \<le> x \<Longrightarrow> x \<le> max_amount \<Longrightarrow> mk_asset x CORE_SYMBOL = Inr (yta x)"
  by (simp add: mk_asset_def yta_def is_amount_within_range_def)

lemma demo_world_simps [simp]:
  "accounts demo_token = [((1, sym_name CORE_SYMBOL), yta 700), ((2, sym_name CORE_SYMBOL), yta 300)]"
  "stats demo_token = [(sym_name CORE_SYMBOL, \<lparr>st_supply = yta 1000, st_max_supply = yta 5000, st_issuer = system_account\<rparr>)]"
  "tok demo_world = demo_token" "lck demo_world = lck empty_world" "dep demo_world = dep empty_world"
  "chn demo_world = chn empty_world" "pool demo_world = pool empty_world" "syst demo_world = syst empty_world"
  "inlines demo_world = []" "notified demo_world = []" "deferred demo_world = []"
  by (simp_all add: demo_world_def demo_token_def)

lemmas basic_runs [run_simps] =
  asset_is_valid_def is_amount_within_range_def max_amount_def asset_add_def asset_sub_def in_i64_def i64_def Let_def
  emplace_def has_key_def require_recipient_def send_def tdel_def

lemma f64_of_neg_numeral: "numeral k \<le> (2 :: int) ^ 53 \<Longrightarrow> f64_of_rat (- numeral k) = Fin (- numeral k)" "f64_of_rat 0 = Fin 0"
  using f64_of_int_exact [of "- numeral k"] f64_of_int_exact [of 0] by (simp_all add: f64_of_int_def)

text \<open>Floating point on small integers.\<close>

lemmas float_runs = f64_of_int_def f64_of_numeral f64_of_neg_numeral f64_trunc_i64s_def fle_def rtrunc_def

lemmas token_runs [run_simps] =
  transfer_def issue_def retire_def create_def unchecked_from_def forfeit_account_def sub_balance_def sub_balance_yta_def
  sub_amount_def add_balance_def is_frozen_def get_deposit_def get_lock_asset_def locks_of_def add_pool_amount_def

lemma demo_token_inv: "token_inv demo_token"
  by (auto simp: token_inv_def token_inv_debt_def demo_token_def twf_def stats_ok_def balance_ok_def
      bal_row_def supply_of_def max_amount_def split: if_splits)

lemma demo_holds: "holds_sane demo_world u"
  by (simp add: holds_sane_def lock_inv_def locks_of_def grants_def pool_sane_def max_amount_def)

lemma not_isl_Inr: "\<not> isl r \<Longrightarrow> \<exists>y. r = Inr y"
  by (cases r) auto

lemma demo_transfer: "\<not> isl (transfer (demo_ctx [1]) 1 2 (yta 50) ''x'' demo_world)"
  by (simp add: run_simps acct_simps)

end
