(* ===== verification/Ledger_Props.thy ===== *)
theory Ledger_Props
  imports Examples
begin

text \<open>
  Properties of the token contract, of the locks and of the deposits: the ledger
  invariant and its refinement of abstract balances, what a transfer leaves with the
  sender, the failure of an overdraft, and the accounting of the deposit pools.
\<close>

subsection \<open>The token ledger\<close>



text \<open>
  C3. A successful transfer refines the transfer of the abstract ledger: it moves the
  amount from the balance of the sender to that of the receiver and changes no other
  balance, no supply and no table of another contract, whatever the holds of the sender are.
\<close>

theorem transfer_refines_ledger:
  assumes "token_inv (tok w)" and "transfer c from to q memo w = Inr w'"
  shows "ledger_of (tok w') = spec_transfer from to (sym_name (symbol q)) (amount q) (ledger_of (tok w))
    \<and> lck w' = lck w \<and> dep w' = dep w \<and> pool w' = pool w \<and> chn w' = chn w \<and> syst w' = syst w"
  using transfer_books(1,2) [OF assms] by blast

theorem transfer_refines_ledger_witness:
  "\<exists>w'. transfer (demo_ctx [1]) 1 2 (yta 50) ''x'' demo_world = Inr w'
    \<and> bal (tok w') 1 (sym_name CORE_SYMBOL) = 650 \<and> bal (tok w') 2 (sym_name CORE_SYMBOL) = 350"
proof -
  obtain w' where w': "transfer (demo_ctx [1]) 1 2 (yta 50) ''x'' demo_world = Inr w'"
    using not_isl_Inr [OF demo_transfer] by auto
  have "ledger_of (tok w') = spec_transfer 1 2 (sym_name CORE_SYMBOL) 50 (ledger_of demo_token)"
    using transfer_refines_ledger [OF _ w'] by (simp add: demo_token_inv)
  then have "bal (tok w') = credit 2 (sym_name CORE_SYMBOL) 50 (credit 1 (sym_name CORE_SYMBOL) (- 50) (bal demo_token))"
    by (simp add: ledger_of_def spec_transfer_def)
  then show ?thesis using w' by (simp add: credit_def bal_def [of demo_token])
qed

text \<open>
  C7. A transfer on the checked branch leaves the sender with at least the hold that the
  contract reads: the storage deposit and, unless it is a stake, the locked part of the
  grants, added up in 64 bits.  Where deposits and grants are sane amounts (\<open>holds_sane\<close>:
  positive grants of at most \<open>2^51\<close> each, which \<open>hddlock\<close> does not enforce) the hold is the
  exact sum of the deposit and a locked part that is not negative.
\<close>

theorem transfer_leaves_holds_covered:
  assumes "token_inv (tok w)" and "transfer c from to q memo w = Inr w'" and "checked_transfer from to q"
  shows "\<exists>h. hold_of c w' from to = Inr h \<and> h \<le> bal (tok w') from (sym_name (symbol q))
    \<and> (holds_sane w' from \<longrightarrow> (\<exists>l. 0 \<le> l \<and> h = deposit_of w' from + l
         \<and> (to \<noteq> eosio_stake \<longrightarrow> get_lock_asset c w' from = Inr \<lparr>amount = l, symbol = CORE_SYMBOL\<rparr>)))"
proof -
  obtain h where "hold_of c w' from to = Inr h" "h \<le> bal (tok w') from (sym_name (symbol q))"
    using checked_transfer_covered [OF assms] by blast
  then show ?thesis using hold_of_sane by (intro exI [of _ h]) simp
qed

theorem transfer_leaves_holds_covered_witness:
  "\<exists>w' h. transfer (demo_ctx [1]) 1 2 (yta 50) ''x'' demo_world = Inr w' \<and> hold_of (demo_ctx [1]) w' 1 2 = Inr h
     \<and> h \<le> bal (tok w') 1 (sym_name CORE_SYMBOL)"
proof -
  obtain w' where w': "transfer (demo_ctx [1]) 1 2 (yta 50) ''x'' demo_world = Inr w'"
    using not_isl_Inr [OF demo_transfer] by auto
  have "checked_transfer 1 2 (yta 50)" by (simp add: checked_transfer_def unchecked_from_def forfeit_account_def acct_simps)
  then show ?thesis using transfer_leaves_holds_covered [OF _ w'] w' by (auto simp: demo_token_inv)
qed



text \<open>
  C25. Issuing needs the authority of the issuer, never exceeds the maximum supply, and
  refines minting on the abstract ledger: balance of the issuer and supply grow together.
\<close>

theorem issue_refines_mint:
  assumes "token_inv (tok w)" and "issue c to q memo w = Inr w'"
  shows "\<exists>st. map_of (stats (tok w)) (sym_name (symbol q)) = Some st \<and> st_issuer st \<in> set (auths c)
    \<and> amount (st_supply st) + amount q \<le> amount (st_max_supply st)
    \<and> ledger_of (tok w') = spec_mint (st_issuer st) (sym_name (symbol q)) (amount q) (ledger_of (tok w))"
  by (rule issue_effect(2) [OF assms])

lemma demo_issue: "\<not> isl (issue (demo_ctx [system_account]) system_account (yta 4000) [] demo_world)"
  by (simp add: run_simps acct_simps)

theorem issue_refines_mint_witness:
  "\<exists>w'. issue (demo_ctx [system_account]) system_account (yta 4000) [] demo_world = Inr w'
    \<and> supply_of (tok w') (sym_name CORE_SYMBOL) = 5000"
proof -
  obtain w' where w': "issue (demo_ctx [system_account]) system_account (yta 4000) [] demo_world = Inr w'"
    using not_isl_Inr [OF demo_issue] by blast
  have "ledger_of (tok w') = spec_mint system_account (sym_name CORE_SYMBOL) 4000 (ledger_of demo_token)"
    using issue_refines_mint [OF _ w'] by (auto simp: demo_token_inv)
  then have "supply_of (tok w') (sym_name CORE_SYMBOL) = supply_of demo_token (sym_name CORE_SYMBOL) + 4000"
    by (simp add: ledger_of_def spec_mint_def)
  then show ?thesis using w' by (simp add: supply_of_def [of demo_token])
qed

subsection \<open>Account names\<close>

text \<open>
  C24. Printing an account name and reading it back gives the same 64-bit value, for
  every value.
\<close>

theorem account_name_round_trip: "string_to_name (to_string n) = n"
  by (rule name_round_trip)

subsection \<open>Locks\<close>

text \<open>
  C19. The locked part of the grants of a user is computed without error and lies
  between zero and the sum of the grants, for grants of at most \<open>2^51\<close> each, which are
  exact in double precision, with a sum in the range of assets.
\<close>

theorem lock_asset_bounded:
  assumes "lock_inv (lck w)" and "\<forall>l\<in>set (locks_of (lck w) u). amount (al_quantity l) \<le> 2 ^ 51"
    and "grants (locks_of (lck w) u) \<le> max_amount"
  shows "\<exists>x. get_lock_asset c w u = Inr \<lparr>amount = x, symbol = CORE_SYMBOL\<rparr> \<and> 0 \<le> x \<and> x \<le> grants (locks_of (lck w) u)"
  by (rule get_lock_asset_bounds [OF assms])

definition demo_rule :: lockrule where
  "demo_rule = \<lparr>lr_times = [1500000000, 1700000000], lr_percentage = [40, 100], lr_desc = []\<rparr>"

definition demo_grant :: "int \<Rightarrow> acclock" where
  "demo_grant x = \<lparr>al_quantity = yta x, al_lockruleid = 7, al_user = 2, al_from = 1, al_memo = [], al_time = 0\<rparr>"

definition demo_locked :: world where
  "demo_locked = demo_world\<lparr>lck := \<lparr>lockrules = [(7, demo_rule)], acclocks = [((2, 7), demo_grant 1000)],
     accbigs = [(1, [])], accfrozens = []\<rparr>\<rparr>"

lemma demo_locked_inv: "lock_inv (lck demo_locked)"
  by (auto simp: demo_locked_def lock_inv_def twf_def lockrule_ok_def acclock_ok_def demo_rule_def demo_grant_def
      has_key_def max_amount_def split: if_splits)

theorem lock_asset_bounded_witness:
  "\<exists>x. get_lock_asset (demo_ctx []) demo_locked 2 = Inr \<lparr>amount = x, symbol = CORE_SYMBOL\<rparr> \<and> 0 \<le> x \<and> x \<le> 1000"
proof -
  have l: "locks_of (lck demo_locked) 2 = [demo_grant 1000]" by (simp add: demo_locked_def locks_of_def)
  show ?thesis using lock_asset_bounded [OF demo_locked_inv, of 2 "demo_ctx []"] unfolding l
    by (simp add: demo_grant_def grants_def max_amount_def)
qed

text \<open>
  C31. Every action of the lock contract keeps its tables well formed, if the granted
  quantity is in the range of assets: the rules have as many percentages as dates, and a
  grant is positive and refers to a rule.
\<close>

theorem lock_action_keeps_tables:
  assumes "lock_inv (lck w)" and "hddlock_apply c a w = Inr w'"
    and "\<And>k f t q x m. a = Locktransfer k f t q x m \<Longrightarrow> amount q \<le> max_amount"
  shows "lock_inv (lck w')"
  by (rule hddlock_apply_inv [OF assms])

lemma demo_locktransfer:
  "\<not> isl (hddlock_apply (demo_ctx [1]) (Locktransfer 7 1 2 (yta 500) (yta 20) []) demo_locked)"
  by (simp add: demo_locked_def demo_grant_def locktransfer_def run_simps)

theorem lock_action_keeps_tables_witness:
  "\<exists>w'. hddlock_apply (demo_ctx [1]) (Locktransfer 7 1 2 (yta 500) (yta 20) []) demo_locked = Inr w' \<and> lock_inv (lck w')"
proof -
  obtain w' where w': "hddlock_apply (demo_ctx [1]) (Locktransfer 7 1 2 (yta 500) (yta 20) []) demo_locked = Inr w'"
    using not_isl_Inr [OF demo_locktransfer] by blast
  have "lock_inv (lck w')"
    by (rule lock_action_keeps_tables [OF demo_locked_inv w']) (simp add: max_amount_def)
  then show ?thesis using w' by blast
qed

text \<open>
  The range of the granted quantity is not checked by the action.  After two grants of the
  largest 64-bit quantity the stored grant has wrapped around and is negative, and with it the
  hold of the receiver of the grants.
\<close>

lemma lock_grant_wraps:
  "\<exists>w'. rbind (hddlock_apply (demo_ctx [1]) (Locktransfer 7 1 2 (yta 9223372036854775807) (yta 0) [])
         (demo_locked\<lparr>lck := (lck demo_locked)\<lparr>acclocks := []\<rparr>\<rparr>))
       (hddlock_apply (demo_ctx [1]) (Locktransfer 7 1 2 (yta 9223372036854775807) (yta 0) [])) = Inr w'
    \<and> map_option (amount \<circ> al_quantity) (map_of (acclocks (lck w')) (2, 7)) = Some (- 2)"
  by (simp add: demo_locked_def demo_grant_def locktransfer_def run_simps)

subsection \<open>Deposits\<close>

text \<open>
  C6. Every action of the deposit contract keeps the accounting of the deposit pools:
  in both pools the part of a user's deposit that is not free is the sum of the deposits
  of the miners the user backs, and free, total and historical deposit are ordered.
\<close>

theorem deposit_action_keeps_accounting:
  assumes "dep_inv (dep w)" and "balances_sane w" and "dep_act_ok a" and "hdddeposit_apply c a w = Inr w'"
  shows "dep_inv (dep w')"
  by (rule hdddeposit_apply_inv [OF assms])

definition demo_deposit :: world where
  "demo_deposit = demo_world\<lparr>dep := \<lparr>depositpools = [(1, \<lparr>dp_account_name = 1, dp_pool_type = 0, deposit_total = yta 500,
       deposit_free = yta 200, deposit_his = yta 500\<rparr>)], depositpools2 = [], storedeposits = [],
     miner2deps = [(9, \<lparr>md_miner_type = 0, md_account_name = 1, md_deposit = yta 300, md_dep_total = yta 300\<rparr>)],
     gdepositrate = None\<rparr>\<rparr>"

lemma demo_deposit_inv: "dep_inv (dep demo_deposit)" "balances_sane demo_deposit"
  by (auto simp: demo_deposit_def dep_inv_def pools_ok_def miners_ok_def pool_ok_def miner_dep_ok_def twf_def dep_row_def used_def
      balances_sane_def max_amount_def split: if_splits)

lemma demo_unpay: "\<not> isl (hdddeposit_apply (demo_ctx [1]) (Unpaydeppool 1 (yta 150)) demo_deposit)"
  by (simp add: demo_deposit_def unpaydeppool_def unpay_row_def send_changevotes_def isActiveVoter_def run_simps)

theorem deposit_action_keeps_accounting_witness:
  "\<exists>w'. hdddeposit_apply (demo_ctx [1]) (Unpaydeppool 1 (yta 150)) demo_deposit = Inr w' \<and> dep_inv (dep w')"
proof -
  obtain w' where w': "hdddeposit_apply (demo_ctx [1]) (Unpaydeppool 1 (yta 150)) demo_deposit = Inr w'"
    using not_isl_Inr [OF demo_unpay] by blast
  have "dep_inv (dep w')" by (rule deposit_action_keeps_accounting [OF demo_deposit_inv _ w']) simp
  then show ?thesis using w' by blast
qed

text \<open>
  C20. A deposit into the first pool is accepted only if the balance of the user covers
  it together with all that is already deposited in both pools.
\<close>

theorem deposit_covered_by_balance:
  assumes "dep_inv (dep w)" and "balances_sane w" and "paydeppool c u q w = Inr w'"
  shows "\<exists>b. map_of (accounts (tok w)) (u, sym_name CORE_SYMBOL) = Some b
     \<and> amount q + pool_total (depositpools (dep w)) u + pool_total (depositpools2 (dep w)) u \<le> amount b"
  using paydeppool_covered [OF assms] by blast

lemma demo_pay: "\<not> isl (paydeppool (demo_ctx [1]) 1 (yta 200) demo_deposit)"
  by (simp add: demo_deposit_def paydeppool_def get_balance_def pay_row_def send_changevotes_def isActiveVoter_def run_simps)

theorem deposit_covered_by_balance_witness:
  "\<exists>w'. paydeppool (demo_ctx [1]) 1 (yta 200) demo_deposit = Inr w'
    \<and> (\<exists>b. map_of (accounts (tok demo_deposit)) (1, sym_name CORE_SYMBOL) = Some b \<and> 700 \<le> amount b)"
proof -
  obtain w' where w': "paydeppool (demo_ctx [1]) 1 (yta 200) demo_deposit = Inr w'"
    using not_isl_Inr [OF demo_pay] by blast
  have "pool_total (depositpools (dep demo_deposit)) 1 + pool_total (depositpools2 (dep demo_deposit)) 1 = 500"
    by (simp add: demo_deposit_def pool_total_def)
  then show ?thesis using deposit_covered_by_balance [OF demo_deposit_inv w'] w' by auto
qed

text \<open>
  C27. A withdrawal of more than the free part of the deposit aborts: what backs a miner
  cannot be taken out.
\<close>

theorem withdrawal_beyond_free_aborts:
  assumes "map_of (depositpools (dep w)) u = Some p" and "amount (deposit_free p) < amount q"
  shows "isl (unpaydeppool c u q w)"
proof (rule ccontr)
  assume "\<not> isl (unpaydeppool c u q w)"
  then obtain w' where "unpaydeppool c u q w = Inr w'" using not_isl_Inr by blast
  then show False using assms by (auto simp: unpaydeppool_def unpay_row_def)
qed

theorem withdrawal_beyond_free_aborts_witness: "isl (unpaydeppool (demo_ctx [1]) 1 (yta 201) demo_deposit)"
  by (rule withdrawal_beyond_free_aborts [where p = "the (map_of (depositpools (dep demo_deposit)) 1)"])
     (simp_all add: demo_deposit_def)

end
