(* ===== verification/Channel_Props.thy ===== *)
theory Channel_Props
  imports Examples
begin

text \<open>
  Properties of \<open>channel.sys\<close>: the balances it keeps for the users change only as the
  actions say, a memo written by another contract is read back as it was meant, and the
  split of the gas fund stays in its bounds.
\<close>

text \<open>
  C11. An action of the channel keeps every balance non-negative and changes the sum of
  all balances by exactly what the action pays out of the channel.
\<close>

theorem channel_action_conserves:
  assumes "channel_inv (chn w)" and "channel_apply c a w = Inr w'" and "channel_act_ok a (chn w)"
  shows "channel_inv (chn w') \<and> channel_total (chn w') = channel_total (chn w) - paid_out a"
  using channel_apply_effect [OF assms] by blast

definition demo_channel :: world where
  "demo_channel = demo_world\<lparr>chn := \<lparr>cbalances = [((1, 1), yta 500), ((1, 2), yta 40)]\<rparr>\<rparr>"

lemma demo_channel_inv: "channel_inv (chn demo_channel)"
  by (auto simp: demo_channel_def channel_inv_def twf_def cbalance_ok_def max_amount_def split: if_splits)

lemma demo_mapc: "\<not> isl (channel_apply (demo_ctx [1]) (Mapc 1 (yta 300) (yta 20) []) demo_channel)"
  by (simp add: demo_channel_def mapc_def asset_cmp_def on_chn_def sub_cbalance_def send_channellog_def run_simps acct_simps)

theorem channel_action_conserves_witness:
  "\<exists>w'. channel_apply (demo_ctx [1]) (Mapc 1 (yta 300) (yta 20) []) demo_channel = Inr w' \<and> channel_total (chn w') = 220"
proof -
  obtain w' where w': "channel_apply (demo_ctx [1]) (Mapc 1 (yta 300) (yta 20) []) demo_channel = Inr w'"
    using not_isl_Inr [OF demo_mapc] by blast
  have "channel_total (chn w') = channel_total (chn demo_channel) - 320"
    using channel_action_conserves [OF demo_channel_inv w'] by (simp add: max_amount_def)
  then show ?thesis using w' by (simp add: demo_channel_def channel_total_def [of "\<lparr>cbalances = _\<rparr>"])
qed

text \<open>
  C23. The memo under which the deposit contract sends a returned deposit to the channel
  is read back by the channel: the deposit is booked for that user, with type 3.
\<close>

theorem returned_deposit_memo_round_trip:
  assumes "symbol q = CORE_SYMBOL"
  shows "transfercore c from channel_sys q (undeppool2_memo u) w = book_transfer c from q 3 u w"
proof -
  have "memo_type ''3'' = 3"
    by code_simp
  then show ?thesis
    using transfercore_memo [OF assms, of "''3''" c "from" u "''0''" w] by (simp add: undeppool2_memo_def)
qed

theorem returned_deposit_memo_round_trip_witness:
  "\<exists>w'. transfercore (demo_ctx []) store_sys channel_sys (yta 25) (undeppool2_memo 1) demo_channel = Inr w'
    \<and> map_of (cbalances (chn w')) (1, 1) = Some (yta 525)"
proof -
  have "transfercore (demo_ctx []) store_sys channel_sys (yta 25) (undeppool2_memo 1) demo_channel
      = book_transfer (demo_ctx []) store_sys (yta 25) 3 1 demo_channel"
    by (rule returned_deposit_memo_round_trip) simp
  then show ?thesis by (simp add: demo_channel_def book_transfer_def on_chn_def add_cbalance_def run_simps)
qed

text \<open>
  C30. The share of the gas fund that goes to the nodes is between 20 and 80 percent for
  every pair of prices, as long as the dollar price is not zero: the range check of the
  action never fails.
\<close>

theorem split_rate_in_range:
  assumes "usd \<noteq> 0"
  shows "\<exists>r. split_rate price usd = Inr r \<and> 20 \<le> r \<and> r \<le> 80"
  by (rule split_rate_bounds [OF assms])

theorem split_rate_in_range_witness: "\<exists>r. split_rate 350 (2 ^ 40) = Inr r \<and> 20 \<le> r \<and> r \<le> 80"
  by (rule split_rate_in_range) simp

end
