(* ===== verification/System_Market.thy ===== *)
theory System_Market
  imports Frames
begin

text \<open>
  \<open>eosio.system\<close>: the constructor of the contract, its exchange of RAM for tokens
  (\<open>exchange_state.cpp\<close>) and the actions that buy and sell RAM or change its size
  (\<open>delegate_bandwidth.cpp\<close>, \<open>eosio.system.cpp\<close>).

  The contract reads its global state when it is constructed and writes it back when it is
  destroyed; the model works on the stored state, which the constructor has set.  The price
  of the exchange is computed in floating point with \<open>pow\<close>.
\<close>

definition eosio_ram :: name where "eosio_ram = string_to_name ''eosio.ram''"
definition eosio_ramfee :: name where "eosio_ramfee = string_to_name ''eosio.ramfee''"
definition RAMCORE :: u64 where "RAMCORE = string_to_symbol 4 ''RAMCORE''"
definition RAM :: u64 where "RAM = string_to_symbol 0 ''RAM''"

definition now_seconds :: "ctx \<Rightarrow> u32" where
  "now_seconds c = ucast (current_time c div 1000000)"

definition gs :: "system_db \<Rightarrow> eosio_global_state" where
  "gs db = get_or_default (gsystem db) (global_default (chain_params db))"

definition gs2 :: "system_db \<Rightarrow> eosio_global_state2" where
  "gs2 db = get_or_default (gsystemext db) global2_default"

definition on_gs :: "(eosio_global_state \<Rightarrow> eosio_global_state) \<Rightarrow> system_db \<Rightarrow> system_db" where
  "on_gs f db = db\<lparr>gsystem := Some (f (gs db))\<rparr>"

definition on_gs2 :: "(eosio_global_state2 \<Rightarrow> eosio_global_state2) \<Rightarrow> system_db \<Rightarrow> system_db" where
  "on_gs2 f db = db\<lparr>gsystemext := Some (f (gs2 db))\<rparr>"

definition on_sys :: "(system_db \<Rightarrow> system_db result) \<Rightarrow> world \<Rightarrow> world result" where
  "on_sys f w = rbind (f (syst w)) (\<lambda>db. Inr (w\<lparr>syst := db\<rparr>))"

definition free_ram :: "eosio_global_state \<Rightarrow> u64" where
  "free_ram g = max_ram_size g - total_ram_bytes_reserved g"

subsection \<open>The constructor\<close>

definition new_market :: "eosio_global_state \<Rightarrow> int \<Rightarrow> exchange_state" where
  "new_market g supply =
     \<lparr>ex_supply = \<lparr>amount = 100000000000000, symbol = RAMCORE\<rparr>,
      ex_base = \<lparr>cn_balance = \<lparr>amount = i64 (uint (free_ram g)), symbol = RAM\<rparr>, cn_weight = Fin (1 / 2)\<rparr>,
      ex_quote = \<lparr>cn_balance = \<lparr>amount = tdiv supply 1000, symbol = CORE_SYMBOL\<rparr>, cn_weight = Fin (1 / 2)\<rparr>\<rparr>"

definition system_ctor :: "world \<Rightarrow> world result" where
  "system_ctor w =
     (let db = on_gs2 id (on_gs id (syst w)) in
      case map_of (rammarket db) RAMCORE of
        Some _ \<Rightarrow> Inr (w\<lparr>syst := db\<rparr>)
      | None \<Rightarrow>
          rbind (get_supply w (sym_name CORE_SYMBOL)) (\<lambda>s.
          if amount s > 0 then
            rbind (emplace RAMCORE (new_market (gs db) (amount s)) (rammarket db)) (\<lambda>t.
            Inr (w\<lparr>syst := db\<lparr>rammarket := t\<rparr>\<rparr>))
          else Inr (w\<lparr>syst := db\<rparr>)))"

subsection \<open>The exchange\<close>

definition shift_balance :: "int \<Rightarrow> connector \<Rightarrow> connector" where
  "shift_balance x cn = cn\<lparr>cn_balance := (cn_balance cn)\<lparr>amount := i64 (amount (cn_balance cn) + x)\<rparr>\<rparr>"

definition convert_to_exchange :: "ctx \<Rightarrow> asset \<Rightarrow> connector \<Rightarrow> asset \<Rightarrow> (asset \<times> connector \<times> asset) result" where
  "convert_to_exchange c supply cn input =
     (let R = f64_of_int (amount supply);
          C = f64_of_int (i64 (amount (cn_balance cn) + amount input));
          F = fdiv (cn_weight cn) (Fin 1000);
          T = f64_of_int (amount input);
          E = fmul (fneg R) (fsub (Fin 1) (libm_pow c (fadd (Fin 1) (fdiv T C)) F)) in
      rbind (f64_trunc_i64s E) (\<lambda>issued.
      rbind (mk_asset issued (symbol supply)) (\<lambda>out.
      Inr (supply\<lparr>amount := i64 (amount supply + issued)\<rparr>, shift_balance (amount input) cn, out))))"

definition convert_from_exchange :: "ctx \<Rightarrow> asset \<Rightarrow> connector \<Rightarrow> asset \<Rightarrow> (asset \<times> connector \<times> asset) result" where
  "convert_from_exchange c supply cn input =
     ensure (symbol input = symbol supply) ''unexpected asset symbol input'' (
     let R = f64_of_int (i64 (amount supply - amount input));
         C = f64_of_int (amount (cn_balance cn));
         F = fdiv (Fin 1000) (cn_weight cn);
         E = f64_of_int (amount input);
         T = fmul C (fsub (libm_pow c (fadd (Fin 1) (fdiv E R)) F) (Fin 1)) in
     rbind (f64_trunc_i64s T) (\<lambda>out.
     rbind (mk_asset out (symbol (cn_balance cn))) (\<lambda>res.
     Inr (supply\<lparr>amount := i64 (amount supply - amount input)\<rparr>, shift_balance (- out) cn, res))))"

definition via_base :: "(asset \<Rightarrow> connector \<Rightarrow> asset \<Rightarrow> (asset \<times> connector \<times> asset) result) \<Rightarrow>
    exchange_state \<Rightarrow> asset \<Rightarrow> (exchange_state \<times> asset) result" where
  "via_base f es a =
     rbind (f (ex_supply es) (ex_base es) a) (\<lambda>(s, cn, r). Inr (es\<lparr>ex_supply := s, ex_base := cn\<rparr>, r))"

definition via_quote :: "(asset \<Rightarrow> connector \<Rightarrow> asset \<Rightarrow> (asset \<times> connector \<times> asset) result) \<Rightarrow>
    exchange_state \<Rightarrow> asset \<Rightarrow> (exchange_state \<times> asset) result" where
  "via_quote f es a =
     rbind (f (ex_supply es) (ex_quote es) a) (\<lambda>(s, cn, r). Inr (es\<lparr>ex_supply := s, ex_quote := cn\<rparr>, r))"

definition convert_once :: "ctx \<Rightarrow> exchange_state \<Rightarrow> asset \<Rightarrow> u64 \<Rightarrow> (exchange_state \<times> asset) result" where
  "convert_once c es from to =
     (let base_symbol = symbol (cn_balance (ex_base es)); quote_symbol = symbol (cn_balance (ex_quote es)) in
      if symbol from \<noteq> symbol (ex_supply es) then
        (if symbol from = base_symbol then via_base (convert_to_exchange c) es from
         else if symbol from = quote_symbol then via_quote (convert_to_exchange c) es from
         else Inl (Eosio_assert ''invalid sell''))
      else
        (if to = base_symbol then via_base (convert_from_exchange c) es from
         else if to = quote_symbol then via_quote (convert_from_exchange c) es from
         else Inl (Eosio_assert ''invalid conversion'')))"

text \<open>The source calls itself until the symbol is reached; the first argument is the depth of calls that is left.\<close>

fun convert :: "nat \<Rightarrow> ctx \<Rightarrow> exchange_state \<Rightarrow> asset \<Rightarrow> u64 \<Rightarrow> (exchange_state \<times> asset) result" where
  "convert 0 c es from to = Inl (Wasm_trap ''call depth exceeded'')"
| "convert (Suc d) c es from to =
     rbind (convert_once c es from to) (\<lambda>(es, from).
     if to \<noteq> symbol from then convert d c es from to else Inr (es, from))"

subsection \<open>Actions\<close>

definition check_yta_account :: "name \<Rightarrow> 'a result \<Rightarrow> 'a result" where
  "check_yta_account user rest =
     (if user = hdd_pool_account \<or> user = hdd_deposit_account \<or> user = hdd_lock_account \<or> user = fund_sys \<or> user = channel_sys
      then Inl (Eosio_assert ''can not delegatebe and buy ram for this user'') else rest)"

definition send_transfer :: "ctx \<Rightarrow> name \<Rightarrow> name \<Rightarrow> asset \<Rightarrow> string \<Rightarrow> world \<Rightarrow> world result" where
  "send_transfer c from to quantity memo w =
     send c system_account (mk_act from token_account (Tok (Transfer from to quantity memo))) w"

definition ram_fee :: "int \<Rightarrow> int" where
  "ram_fee x = tdiv (i64 (x + 199)) 200"

definition add_ram :: "name \<Rightarrow> int \<Rightarrow> system_db \<Rightarrow> system_db" where
  "add_ram receiver bytes db =
     (let res = (case map_of (userres db) receiver of
                   None \<Rightarrow> user_resources_default\<lparr>ram_bytes := bytes\<rparr>
                 | Some r \<Rightarrow> r\<lparr>ram_bytes := i64 (ram_bytes r + bytes)\<rparr>) in
      db\<lparr>userres := tput receiver res (userres db)\<rparr>)"

definition buyram :: "ctx \<Rightarrow> name \<Rightarrow> name \<Rightarrow> asset \<Rightarrow> world \<Rightarrow> world result" where
  "buyram c payer receiver quant w =
     require_auth c payer (
     ensure (amount quant > 0) ''must purchase a positive amount'' (
     check_yta_account receiver (
     let fee = quant\<lparr>amount := ram_fee (amount quant)\<rparr>;
         quant_after_fee = quant\<lparr>amount := i64 (amount quant - amount fee)\<rparr> in
     rbind (send_transfer c payer eosio_ram quant_after_fee ''buy ram'' w) (\<lambda>w.
     rbind (if amount fee > 0 then send_transfer c payer eosio_ramfee fee ''ram fee'' w else Inr w) (\<lambda>w.
     fetch (rammarket (syst w)) RAMCORE ''ram market does not exist'' (\<lambda>market.
     rbind (convert (call_depth c) c market quant_after_fee RAM) (\<lambda>(es, bytes_out).
     ensure (amount bytes_out > 0) ''must reserve a positive amount'' (
     let db = (syst w)\<lparr>rammarket := tput RAMCORE es (rammarket (syst w))\<rparr>;
         db = on_gs (\<lambda>g. g\<lparr>total_ram_bytes_reserved := total_ram_bytes_reserved g + word_of_int (amount bytes_out),
                            total_ram_stake := i64 (total_ram_stake g + amount quant_after_fee)\<rparr>) db in
     Inr (w\<lparr>syst := add_ram receiver (amount bytes_out) db\<rparr>)))))))))"

definition buyrambytes :: "ctx \<Rightarrow> name \<Rightarrow> name \<Rightarrow> u32 \<Rightarrow> world \<Rightarrow> world result" where
  "buyrambytes c payer receiver bytes w =
     (case map_of (rammarket (syst w)) RAMCORE of
        None \<Rightarrow> Inl (Wasm_trap ''dereference of an end iterator'')
      | Some tmp \<Rightarrow>
          rbind (mk_asset (uint bytes) RAM) (\<lambda>a.
          rbind (convert (call_depth c) c tmp a CORE_SYMBOL) (\<lambda>(es, eosout).
          buyram c payer receiver eosout w)))"

definition sellram :: "ctx \<Rightarrow> name \<Rightarrow> int \<Rightarrow> world \<Rightarrow> world result" where
  "sellram c account bytes w =
     require_auth c account (
     ensure (bytes > 0) ''cannot sell negative byte'' (
     check_yta_account account (
     fetch (userres (syst w)) account ''no resource row'' (\<lambda>res.
     ensure (ram_bytes res \<ge> bytes) ''insufficient quota'' (
     fetch (rammarket (syst w)) RAMCORE ''cannot pass end iterator to modify'' (\<lambda>market.
     rbind (mk_asset bytes RAM) (\<lambda>a.
     rbind (convert (call_depth c) c market a CORE_SYMBOL) (\<lambda>(es, tokens_out).
     ensure (amount tokens_out > 1) ''token amount received from selling ram is too low'' (
     let db = (syst w)\<lparr>rammarket := tput RAMCORE es (rammarket (syst w))\<rparr>;
         db = on_gs (\<lambda>g. g\<lparr>total_ram_bytes_reserved := total_ram_bytes_reserved g - word_of_int bytes,
                            total_ram_stake := i64 (total_ram_stake g - amount tokens_out)\<rparr>) db in
     ensure (total_ram_stake (gs db) \<ge> 0) ''error, attempt to unstake more tokens than previously staked'' (
     let w = w\<lparr>syst := db\<lparr>userres := tput account (res\<lparr>ram_bytes := i64 (ram_bytes res - bytes)\<rparr>) (userres db)\<rparr>\<rparr> in
     rbind (send_transfer c eosio_ram account tokens_out ''sell ram'' w) (\<lambda>w.
     let fee = ram_fee (amount tokens_out) in
     if fee > 0 then
       rbind (mk_asset fee CORE_SYMBOL) (\<lambda>fee.
       send_transfer c account eosio_ramfee fee ''sell ram fee'' w)
     else Inr w)))))))))))"

definition setram :: "ctx \<Rightarrow> u64 \<Rightarrow> world \<Rightarrow> world result" where
  "setram c new_size w =
     require_auth c system_account (
     let g = gs (syst w) in
     ensure (max_ram_size g < new_size) ''ram may only be increased'' (
     ensure (new_size < 1125899906842624) ''ram size is unrealistic'' (
     ensure (new_size > total_ram_bytes_reserved g) ''attempt to set max below reserved'' (
     let delta = i64 (i64 (uint new_size) - i64 (uint (max_ram_size g))) in
     fetch (rammarket (syst w)) RAMCORE ''cannot pass end iterator to modify'' (\<lambda>m.
     let db = (syst w)\<lparr>rammarket := tput RAMCORE (m\<lparr>ex_base := shift_balance delta (ex_base m)\<rparr>) (rammarket (syst w))\<rparr> in
     Inr (w\<lparr>syst := on_gs (\<lambda>g. g\<lparr>max_ram_size := new_size\<rparr>) db\<rparr>))))))"

lemmas market_defs = buyram_def sellram_def setram_def send_transfer_def check_yta_account_def

end
