(* ===== verification/System_Voting.thy ===== *)
theory System_Voting
  imports System_Market
begin

text \<open>
  \<open>eosio.system\<close>: producers and votes (\<open>voting.cpp\<close>).  Beside the table of producers the
  chain keeps two lists, the main producers and the candidates; only producers of these
  lists produce blocks and are paid.  A voter votes for one producer with the stake and the
  free part of the storage deposit.

  \<open>update_elected_producers\<close>, which nothing calls any more, is left out.
\<close>

definition ytaadminuser :: name where "ytaadminuser = string_to_name ''ytaadminuser''"
definition ytarewardusr :: name where "ytarewardusr = string_to_name ''ytarewardusr''"

definition useconds_per_day :: u64 where "useconds_per_day = 86400000000"
definition level_one_max :: nat where "level_one_max = 21"
definition level_two_max :: nat where "level_two_max = 105"
definition min_activated_stake :: int where "min_activated_stake = 0"

subsection \<open>The lists of producers\<close>

text \<open>The first entry of a producer is replaced by what the function gives: nothing to erase it.\<close>

fun first_owner :: "name \<Rightarrow> (yta_prod_info \<Rightarrow> yta_prod_info list) \<Rightarrow> yta_prod_info list \<Rightarrow> yta_prod_info list" where
  "first_owner p f [] = []"
| "first_owner p f (x # xs) = (if yp_owner x = p then f x @ xs else x # first_owner p f xs)"

definition level_change :: "name \<Rightarrow> (yta_prod_info \<Rightarrow> yta_prod_info list) \<Rightarrow> system_db \<Rightarrow> system_db" where
  "level_change p f db =
     (case all_prods db of
        None \<Rightarrow> db
      | Some a \<Rightarrow>
          if p \<in> yp_owner ` set (prods_l1 a) then db\<lparr>all_prods := Some (a\<lparr>prods_l1 := first_owner p f (prods_l1 a)\<rparr>)\<rparr>
          else if p \<in> yp_owner ` set (prods_l2 a) then db\<lparr>all_prods := Some (a\<lparr>prods_l2 := first_owner p f (prods_l2 a)\<rparr>)\<rparr>
          else db)"

definition rm_producer_yta :: "name \<Rightarrow> system_db \<Rightarrow> system_db" where
  "rm_producer_yta producer = level_change producer (\<lambda>_. [])"

definition update_producers_yta_totalvotes :: "name \<Rightarrow> f64 \<Rightarrow> system_db \<Rightarrow> system_db" where
  "update_producers_yta_totalvotes owner votes = level_change owner (\<lambda>x. [x\<lparr>yp_total_votes := votes\<rparr>])"

definition add_producer_yta :: "name \<Rightarrow> u8 \<Rightarrow> system_db \<Rightarrow> system_db result" where
  "add_producer_yta producer level db =
     fetch (producers db) producer ''producer not found'' (\<lambda>prod.
     let prodyta = \<lparr>yp_owner = producer, yp_total_votes = pi_total_votes prod, yp_producer_key = pi_producer_key prod,
           yp_is_active = pi_is_active prod, yp_location = pi_location prod, yp_is_in_grace = False, yp_grace_start_time = 0\<rparr>;
         a = get_or_default (all_prods db) all_prods_default in
     if level = 1 then
       ensure (length (prods_l1 a) < level_one_max) ''too many level one bp'' (
       Inr (db\<lparr>all_prods := Some (a\<lparr>prods_l1 := prods_l1 a @ [prodyta]\<rparr>)\<rparr>))
     else if level = 2 then
       ensure (length (prods_l2 a) < level_two_max) ''too many level two bp'' (
       Inr (db\<lparr>all_prods := Some (a\<lparr>prods_l2 := prods_l2 a @ [prodyta]\<rparr>)\<rparr>))
     else Inr (db\<lparr>all_prods := Some a\<rparr>))"

definition delproducer :: "name \<Rightarrow> system_db \<Rightarrow> system_db" where
  "delproducer producer db =
     (let db = (case map_of (producers db) producer of
                  None \<Rightarrow> db
                | Some p \<Rightarrow>
                    (on_gs (\<lambda>g. g\<lparr>total_unpaid_blocks := total_unpaid_blocks g - pi_unpaid_blocks p,
                       total_producer_vote_weight := fsub (total_producer_vote_weight g) (pi_total_votes p)\<rparr>) db)
                    \<lparr>producers := tdel producer (producers db)\<rparr>) in
      case map_of (producersext db) producer of
        None \<Rightarrow> db
      | Some px \<Rightarrow>
          rm_producer_yta producer
            ((on_gs2 (\<lambda>g. g\<lparr>total_unpaid_base_cnt := total_unpaid_base_cnt g - px_unpaid_base_cnt px\<rparr>) db)
             \<lparr>producersext := tdel producer (producersext db)\<rparr>))"

definition change_producer_yta_info :: "name \<Rightarrow> public_key \<Rightarrow> bool \<Rightarrow> system_db \<Rightarrow> system_db" where
  "change_producer_yta_info producer key isactive db =
     (if \<not> isactive then delproducer producer db
      else level_change producer (\<lambda>x. [x\<lparr>yp_is_active := isactive, yp_producer_key := key\<rparr>]) db)"

subsection \<open>Registration\<close>

definition regproducer :: "ctx \<Rightarrow> name \<Rightarrow> public_key \<Rightarrow> string \<Rightarrow> u16 \<Rightarrow> world \<Rightarrow> world result" where
  "regproducer c producer key url loc w =
     ensure (length url < 512) ''url too long'' (
     ensure (key \<noteq> default_key) ''public key should not be the default value'' (
     require_auth c ytaadminuser (
     let db = syst w in
     case map_of (producers db) producer of
       Some p \<Rightarrow>
         let db = db\<lparr>producers := tput producer
               (p\<lparr>pi_producer_key := key, pi_is_active := True, pi_url := url, pi_location := loc\<rparr>) (producers db)\<rparr> in
         Inr (w\<lparr>syst := change_producer_yta_info producer key True db\<rparr>)
     | None \<Rightarrow>
         rbind (emplace producer \<lparr>pi_total_votes = Fin 0, pi_producer_key = key, pi_is_active = True, pi_url = url,
             pi_unpaid_blocks = 0, pi_last_claim_time = 0, pi_location = loc\<rparr> (producers db)) (\<lambda>t.
         Inr (w\<lparr>syst := db\<lparr>producers := t\<rparr>\<rparr>)))))"

definition unregprod :: "name \<Rightarrow> world \<Rightarrow> world result" where
  "unregprod producer w = Inl (Eosio_assert ''unregprod is disabled'')"

definition seqproducer :: "ctx \<Rightarrow> name \<Rightarrow> name \<Rightarrow> u16 \<Rightarrow> u8 \<Rightarrow> world \<Rightarrow> world result" where
  "seqproducer c producer shadow sq level w =
     require_auth c ytaadminuser (
     ensure (has_key (producers (syst w)) producer) ''producer not found'' (
     ensure (1 \<le> sq \<and> sq \<le> 21) ''invalidate seq number'' (
     ensure (1 \<le> level \<and> level \<le> 3) ''invalidate level number'' (
     on_sys (\<lambda>db.
       case map_of (producersext db) producer of
         None \<Rightarrow>
           rbind (emplace producer \<lparr>px_seq_num = sq, px_level = level, px_unpaid_base_cnt = 0, px_unpaid_amount = 0,
               px_shadow = shadow\<rparr> (producersext db)) (\<lambda>t.
           add_producer_yta producer level (db\<lparr>producersext := t\<rparr>))
       | Some px \<Rightarrow>
           add_producer_yta producer level (rm_producer_yta producer (db\<lparr>producersext := tput producer
             (px\<lparr>px_seq_num := sq, px_level := level, px_shadow := shadow\<rparr>) (producersext db)\<rparr>))) w))))"

definition rmvproducer :: "ctx \<Rightarrow> name \<Rightarrow> world \<Rightarrow> world result" where
  "rmvproducer c producer w =
     require_auth c ytaadminuser (
     fetch (producers (syst w)) producer ''producer not found'' (\<lambda>p.
     let db = (syst w)\<lparr>producers := tput producer (p\<lparr>pi_producer_key := default_key, pi_is_active := False\<rparr>)
           (producers (syst w))\<rparr> in
     Inr (w\<lparr>syst := change_producer_yta_info producer default_key False db\<rparr>)))"

subsection \<open>Levels\<close>

text \<open>A producer below the votes of its level has a day of grace before it is removed from the list.\<close>

definition grace_step :: "u64 \<Rightarrow> int \<Rightarrow> yta_prod_info \<Rightarrow> (yta_prod_info option \<times> bool) result" where
  "grace_step ct limit p =
     rbind (f64_trunc_i64s (yp_total_votes p)) (\<lambda>votes.
     let (is_remove, q, ischanged) =
       (if votes < limit then
          if yp_is_in_grace p then
            if ct - yp_grace_start_time p > useconds_per_day then (True, p\<lparr>yp_is_in_grace := False\<rparr>, True)
            else (\<not> yp_is_active p, p, False)
          else (\<not> yp_is_active p, p\<lparr>yp_is_in_grace := True, yp_grace_start_time := ct\<rparr>, True)
        else if yp_is_in_grace p then (\<not> yp_is_active p, p\<lparr>yp_is_in_grace := False\<rparr>, True)
        else (\<not> yp_is_active p, p, False)) in
     Inr (if is_remove then (None, True) else (Some q, ischanged)))"

fun grace_loop :: "u64 \<Rightarrow> int \<Rightarrow> yta_prod_info list \<Rightarrow> (yta_prod_info list \<times> bool) result" where
  "grace_loop ct limit [] = Inr ([], False)"
| "grace_loop ct limit (p # ps) =
     rbind (grace_step ct limit p) (\<lambda>(q, ch).
     rbind (grace_loop ct limit ps) (\<lambda>(qs, chs).
     Inr ((case q of None \<Rightarrow> qs | Some q \<Rightarrow> q # qs), ch \<or> chs)))"

fun promote :: "yta_prod_info list \<Rightarrow> yta_prod_info list \<Rightarrow> (yta_prod_info list \<times> yta_prod_info list \<times> bool) result" where
  "promote l1 [] = Inr (l1, [], False)"
| "promote l1 (p # ps) =
     rbind (f64_trunc_i64s (yp_total_votes p)) (\<lambda>votes.
     if votes \<ge> 50000000000 then
       if length l1 < level_one_max then rbind (promote (l1 @ [p]) ps) (\<lambda>(a, b, ch). Inr (a, b, True))
       else Inr (l1, p # ps, False)
     else rbind (promote l1 ps) (\<lambda>(a, b, ch). Inr (a, p # b, ch)))"

definition update_producer_level :: "ctx \<Rightarrow> system_db \<Rightarrow> system_db result" where
  "update_producer_level c db =
     (case all_prods db of
        None \<Rightarrow> Inr db
      | Some a \<Rightarrow>
          rbind (grace_loop (current_time c) 50000000000 (prods_l1 a)) (\<lambda>(l1, ch1).
          rbind (grace_loop (current_time c) 20000000000 (prods_l2 a)) (\<lambda>(l2, ch2).
          rbind (if length l1 < level_one_max then promote l1 (sort_votes c l2) else Inr (l1, l2, False)) (\<lambda>(l1, l2, ch3).
          Inr (if ch1 \<or> ch2 \<or> ch3 then db\<lparr>all_prods := Some (a\<lparr>prods_l1 := l1, prods_l2 := l2\<rparr>)\<rparr> else db)))))"

definition reprodlevel :: "ctx \<Rightarrow> world \<Rightarrow> world result" where
  "reprodlevel c w =
     require_auth c ytarewardusr (
     if last_pervote_bucket_fill (gs (syst w)) = 0 then Inr w
     else on_sys (update_producer_level c) w)"

definition setautosche :: "ctx \<Rightarrow> bool \<Rightarrow> u8 \<Rightarrow> u8 \<Rightarrow> world \<Rightarrow> world result" where
  "setautosche c auto_sche l1 l2 w =
     require_auth c ytaadminuser (
     let s = get_or_default (gsystem3 (syst w)) global3_default in
     Inr (w\<lparr>syst := (syst w)\<lparr>gsystem3 := Some (s\<lparr>is_schedule := auto_sche, min_l1 := l1, max_l2 := l2\<rparr>)\<rparr>\<rparr>))"

subsection \<open>The schedule\<close>

definition max_producers :: nat where "max_producers = 125"

definition set_proposed_producers :: "ctx \<Rightarrow> producer_key list \<Rightarrow> system_db \<Rightarrow> (system_db \<times> bool) result" where
  "set_proposed_producers c ps db =
     (if length ps > max_producers then Inl (Chain_error ''Producer schedule exceeds the maximum producer count for this chain'')
      else if \<not> list_all (\<lambda>(n, k). is_account c n) ps then Inl (Chain_error ''producer schedule includes a nonexisting account'')
      else if \<not> list_all (\<lambda>(n, k). key_valid c k) ps then Inl (Chain_error ''producer schedule includes an invalid key'')
      else if \<not> distinct (map fst ps) then Inl (Chain_error ''duplicate producer name in producer schedule'')
      else if takes_schedule c ps then Inr (db\<lparr>proposed := Some ps\<rparr>, True) else Inr (db, False))"

definition schedule_entry :: "yta_prod_info \<Rightarrow> producer_key \<times> u16" where
  "schedule_entry p = ((yp_owner p, yp_producer_key p), yp_location p)"

definition top_producers :: "ctx \<Rightarrow> eosio_global_state3 \<Rightarrow> all_prods_level \<Rightarrow> (producer_key \<times> u16) list" where
  "top_producers c s a =
     (let top = map schedule_entry (prods_l1 a) in
      if max_l2 s > 0 \<and> length top < 21
      then top @ map schedule_entry (take (min (21 - length top) (unat (max_l2 s))) (sort_votes c (prods_l2 a)))
      else top)"

definition update_elected_producers_yta :: "ctx \<Rightarrow> u32 \<Rightarrow> system_db \<Rightarrow> system_db result" where
  "update_elected_producers_yta c block_time db =
     (let db = on_gs (\<lambda>g. g\<lparr>last_producer_schedule_update := block_time\<rparr>) db;
          s = get_or_default (gsystem3 db) global3_default in
      if \<not> is_schedule s then Inr db
      else case all_prods db of
             None \<Rightarrow> Inr db
           | Some a \<Rightarrow>
               if length (prods_l1 a) < unat (min_l1 s) then Inr db
               else
                 let top = top_producers c s a in
                 rbind (set_proposed_producers c (map fst (sort_key (\<lambda>((n, k), loc). (n, loc)) top)) db) (\<lambda>(db, ok).
                 Inr (if ok then on_gs (\<lambda>g. g\<lparr>last_producer_schedule_size := of_nat (length top)\<rparr>) db else db)))"

subsection \<open>Votes\<close>

definition stake2vote :: "int \<Rightarrow> f64" where
  "stake2vote staked = f64_of_int staked"

fun fabs64 :: "f64 \<Rightarrow> f64" where
  "fabs64 (Fin a) = Fin \<bar>a\<bar>"
| "fabs64 NInf = PInf"
| "fabs64 x = x"

fun add_votes :: "f64 \<Rightarrow> name list \<Rightarrow> system_db \<Rightarrow> system_db result" where
  "add_votes delta [] db = Inr db"
| "add_votes delta (p # ps) db =
     fetch (producers db) p ''producer not found'' (\<lambda>pr.
     add_votes delta ps (on_gs (\<lambda>g. g\<lparr>total_producer_vote_weight := fadd (total_producer_vote_weight g) delta\<rparr>)
       (db\<lparr>producers := tput p (pr\<lparr>pi_total_votes := fadd (pi_total_votes pr) delta\<rparr>) (producers db)\<rparr>)))"

text \<open>The weight of a voter changes that of its proxy, and so on; the first argument is the depth of calls that is left.\<close>

fun propagate_weight_change :: "nat \<Rightarrow> name \<Rightarrow> system_db \<Rightarrow> system_db result" where
  "propagate_weight_change 0 n db = Inl (Wasm_trap ''call depth exceeded'')"
| "propagate_weight_change (Suc d) n db =
     fetch (voters db) n ''unable to find key'' (\<lambda>voter.
     ensure (vi_proxy voter = 0 \<or> \<not> vi_is_proxy voter) ''account registered as a proxy is not allowed to use a proxy'' (
     let new_weight = (if vi_is_proxy voter then fadd (stake2vote (vi_staked voter)) (vi_proxied_vote_weight voter)
                       else stake2vote (vi_staked voter));
         delta = fsub new_weight (vi_last_vote_weight voter) in
     rbind (if flt (Fin 1) (fabs64 delta) then
              (if vi_proxy voter \<noteq> 0 then
                 fetch (voters db) (vi_proxy voter) ''proxy not found'' (\<lambda>proxy.
                 propagate_weight_change d (vi_proxy voter) (db\<lparr>voters := tput (vi_proxy voter)
                   (proxy\<lparr>vi_proxied_vote_weight := fadd (vi_proxied_vote_weight proxy) delta\<rparr>) (voters db)\<rparr>))
               else add_votes delta (vi_producers voter) db)
            else Inr db) (\<lambda>db.
     fetch (voters db) n ''unable to find key'' (\<lambda>voter.
     Inr (db\<lparr>voters := tput n (voter\<lparr>vi_last_vote_weight := new_weight\<rparr>) (voters db)\<rparr>)))))"

text \<open>The map of changes: for each producer the difference of votes and whether it is voted for now.\<close>

type_synonym deltas = "(name, f64 \<times> bool) table"

definition add_delta :: "(f64 \<Rightarrow> f64) \<Rightarrow> bool \<Rightarrow> deltas \<Rightarrow> name \<Rightarrow> deltas" where
  "add_delta f new ds p = tput p (f (fst (get_or_default (map_of ds p) (Fin 0, False))), new) ds"

fun apply_deltas :: "bool \<Rightarrow> deltas \<Rightarrow> system_db \<Rightarrow> name \<Rightarrow> (system_db \<times> name) result" where
  "apply_deltas voting [] db missing = Inr (db, missing)"
| "apply_deltas voting ((p, (d, is_new)) # ds) db missing =
     rbind (case map_of (producers db) p of
              Some pr \<Rightarrow>
                ensure (\<not> voting \<or> pi_is_active pr \<or> \<not> is_new) ''producer is not currently registered'' (
                let votes = fadd (pi_total_votes pr) d;
                    votes = (if flt votes (Fin 0) then Fin 0 else votes) in
                Inr (on_gs (\<lambda>g. g\<lparr>total_producer_vote_weight := fadd (total_producer_vote_weight g) d\<rparr>)
                       (db\<lparr>producers := tput p (pr\<lparr>pi_total_votes := votes\<rparr>) (producers db)\<rparr>), votes, missing))
            | None \<Rightarrow> ensure (\<not> (voting \<and> is_new)) ''producer is not registered'' (Inr (db, Fin 0, p))) (\<lambda>(db, votes, missing).
     rbind (if has_key (producersext db) p then Inr (update_producers_yta_totalvotes p votes db)
            else ensure (\<not> (voting \<and> is_new)) ''producer is not registered'' (Inr db)) (\<lambda>db.
     apply_deltas voting ds db missing))"

definition activate_stake :: "ctx \<Rightarrow> voter_info \<Rightarrow> system_db \<Rightarrow> system_db" where
  "activate_stake c voter db =
     (if fle (vi_last_vote_weight voter) (Fin 0) then
        on_gs (\<lambda>g. let s = i64 (total_activated_stake g + vi_staked voter) in
          g\<lparr>total_activated_stake := s,
             thresh_activated_stake_time := (if s \<ge> min_activated_stake \<and> thresh_activated_stake_time g = 0 then current_time c
               else thresh_activated_stake_time g)\<rparr>) db
      else db)"

definition vote_weight :: "world \<Rightarrow> name \<Rightarrow> voter_info \<Rightarrow> f64 result" where
  "vote_weight w voter_name voter =
     rbind (get_depositfree w voter_name) (\<lambda>free.
     let weight = fadd (stake2vote (vi_staked voter)) (f64_of_int (amount free)) in
     Inr (if vi_is_proxy voter then fadd weight (vi_proxied_vote_weight voter) else weight))"

definition undo_votes :: "ctx \<Rightarrow> voter_info \<Rightarrow> system_db \<Rightarrow> (system_db \<times> deltas) result" where
  "undo_votes c voter db =
     (let last_weight = vi_last_vote_weight voter in
      if flt (Fin 0) last_weight then
        if vi_proxy voter \<noteq> 0 then
          fetch (voters db) (vi_proxy voter) ''old proxy not found'' (\<lambda>old_proxy.
          rbind (propagate_weight_change (call_depth c) (vi_proxy voter) (db\<lparr>voters := tput (vi_proxy voter)
            (old_proxy\<lparr>vi_proxied_vote_weight := fsub (vi_proxied_vote_weight old_proxy) last_weight\<rparr>) (voters db)\<rparr>)) (\<lambda>db.
          Inr (db, [])))
        else Inr (db, foldl (add_delta (\<lambda>x. fsub x last_weight) False) [] (vi_producers voter))
      else Inr (db, []))"

definition cast_votes :: "ctx \<Rightarrow> name \<Rightarrow> name list \<Rightarrow> bool \<Rightarrow> f64 \<Rightarrow> system_db \<Rightarrow> deltas \<Rightarrow> (system_db \<times> deltas) result" where
  "cast_votes c proxy prods voting weight db ds =
     (if proxy \<noteq> 0 then
        fetch (voters db) proxy ''invalid proxy specified'' (\<lambda>new_proxy.
        ensure (\<not> voting \<or> vi_is_proxy new_proxy) ''proxy not found'' (
        if fle (Fin 0) weight then
          rbind (propagate_weight_change (call_depth c) proxy (db\<lparr>voters := tput proxy
            (new_proxy\<lparr>vi_proxied_vote_weight := fadd (vi_proxied_vote_weight new_proxy) weight\<rparr>) (voters db)\<rparr>)) (\<lambda>db.
          Inr (db, ds))
        else Inr (db, ds)))
      else Inr (db, if fle (Fin 0) weight then foldl (add_delta (\<lambda>x. fadd x weight) True) ds prods else ds))"

definition update_votes :: "ctx \<Rightarrow> name \<Rightarrow> name \<Rightarrow> name list \<Rightarrow> bool \<Rightarrow> world \<Rightarrow> world result" where
  "update_votes c voter_name proxy prods voting w =
     rbind (if proxy \<noteq> 0 then
              ensure (length prods = 0) ''cannot vote for producers and proxy at same time'' (
              ensure (voter_name \<noteq> proxy) ''cannot proxy to self'' (
              Inr (require_recipient proxy w)))
            else
              ensure (length prods \<le> 1) ''attempt to vote for too many producers'' (
              ensure (sorted_wrt (<) prods) ''producer votes must be unique and sorted'' (
              Inr w))) (\<lambda>w.
     fetch (voters (syst w)) voter_name ''user must stake before they can vote'' (\<lambda>voter.
     ensure (proxy = 0 \<or> \<not> vi_is_proxy voter) ''account registered as a proxy is not allowed to use a proxy'' (
     rbind (vote_weight w voter_name voter) (\<lambda>new_vote_weight.
     rbind (undo_votes c voter (activate_stake c voter (syst w))) (\<lambda>(db, ds).
     rbind (cast_votes c proxy prods voting new_vote_weight db ds) (\<lambda>(db, ds).
     rbind (apply_deltas voting ds db 0) (\<lambda>(db, missing).
     fetch (voters db) voter_name ''unable to find key'' (\<lambda>voter.
     let voter = voter\<lparr>vi_last_vote_weight := new_vote_weight, vi_proxy := proxy,
           vi_producers := (if missing \<noteq> 0 then remove1 missing prods else prods)\<rparr> in
     Inr (w\<lparr>syst := db\<lparr>voters := tput voter_name voter (voters db)\<rparr>\<rparr>)))))))))"

definition voteproducer :: "ctx \<Rightarrow> name \<Rightarrow> name \<Rightarrow> name list \<Rightarrow> world \<Rightarrow> world result" where
  "voteproducer c voter_name proxy prods w = require_auth c voter_name (update_votes c voter_name proxy prods True w)"

text \<open>Votes again as before, with the present stake and deposit.\<close>

definition revote :: "ctx \<Rightarrow> name \<Rightarrow> voter_info \<Rightarrow> world \<Rightarrow> world result" where
  "revote c n voter w =
     (if length (vi_producers voter) \<noteq> 0 \<or> vi_proxy voter \<noteq> 0
      then update_votes c n (vi_proxy voter) (vi_producers voter) False w else Inr w)"

definition changevotes :: "ctx \<Rightarrow> name \<Rightarrow> world \<Rightarrow> world result" where
  "changevotes c voter_name w =
     require_auth c voter_name (
     case map_of (voters (syst w)) voter_name of
       None \<Rightarrow> Inr w
     | Some voter \<Rightarrow> revote c voter_name voter w)"

definition regproxy :: "name \<Rightarrow> bool \<Rightarrow> world \<Rightarrow> world result" where
  "regproxy proxy isproxy w = Inl (Eosio_assert ''proxy not supported.'')"

lemmas voting_defs = regproducer_def unregprod_def seqproducer_def rmvproducer_def reprodlevel_def setautosche_def
  voteproducer_def changevotes_def revote_def update_votes_def regproxy_def

end
