(* ===== verification/System_Stake.thy ===== *)
theory System_Stake
  imports System_Voting
begin

text \<open>
  \<open>eosio.system\<close>: staking of tokens for bandwidth (\<open>delegate_bandwidth.cpp\<close>).  Staked tokens
  are held by the account \<open>eosio.stake\<close>; what is unstaked waits as a refund request, which a
  deferred transaction pays after three days, and which is used first when its owner stakes
  again.
\<close>

definition refund_delay :: u32 where "refund_delay = 259200"

definition abs64 :: "int \<Rightarrow> int" where
  "abs64 x = i64 \<bar>x\<bar>"

definition is_zero :: "asset \<Rightarrow> asset \<Rightarrow> bool result" where
  "is_zero a b =
     rbind (asset_cmp (=) a core_zero) (\<lambda>z. if z then asset_cmp (=) b core_zero else Inr False)"

definition any_negative :: "asset \<Rightarrow> asset \<Rightarrow> bool result" where
  "any_negative a b =
     rbind (asset_cmp (<) a core_zero) (\<lambda>n. if n then Inr True else asset_cmp (<) b core_zero)"

definition add_both :: "asset \<Rightarrow> asset \<Rightarrow> asset \<Rightarrow> asset \<Rightarrow> (asset \<times> asset) result" where
  "add_both n u net cpu = rbind (asset_add n net) (\<lambda>n. rbind (asset_add u cpu) (\<lambda>u. Inr (n, u)))"

definition both_nonneg :: "string \<Rightarrow> string \<Rightarrow> asset \<Rightarrow> asset \<Rightarrow> 'a result \<Rightarrow> 'a result" where
  "both_nonneg msg1 msg2 n u rest =
     rbind (asset_cmp (\<le>) core_zero n) (\<lambda>ok. ensure ok msg1 (
     rbind (asset_cmp (\<le>) core_zero u) (\<lambda>ok. ensure ok msg2 rest)))"

subsection \<open>The three tables\<close>

definition change_delband :: "name \<Rightarrow> name \<Rightarrow> asset \<Rightarrow> asset \<Rightarrow> system_db \<Rightarrow> system_db result" where
  "change_delband from receiver net cpu db =
     rbind (case map_of (delband db) (from, receiver) of
              None \<Rightarrow> Inr (net, cpu)
            | Some r \<Rightarrow> add_both (db_net_weight r) (db_cpu_weight r) net cpu) (\<lambda>(n, u).
     both_nonneg ''insufficient staked net bandwidth'' ''insufficient staked cpu bandwidth'' n u (
     rbind (is_zero n u) (\<lambda>z.
     Inr (db\<lparr>delband := (if z then tdel (from, receiver) (delband db)
                           else tput (from, receiver) \<lparr>db_net_weight = n, db_cpu_weight = u\<rparr> (delband db))\<rparr>))))"

definition change_totals :: "name \<Rightarrow> asset \<Rightarrow> asset \<Rightarrow> system_db \<Rightarrow> system_db result" where
  "change_totals receiver net cpu db =
     rbind (case map_of (userres db) receiver of
              None \<Rightarrow> Inr (net, cpu, 0)
            | Some r \<Rightarrow> rbind (add_both (ur_net_weight r) (ur_cpu_weight r) net cpu) (\<lambda>(n, u). Inr (n, u, ram_bytes r)))
       (\<lambda>(n, u, ram).
     both_nonneg ''insufficient staked total net bandwidth'' ''insufficient staked total cpu bandwidth'' n u (
     rbind (is_zero n u) (\<lambda>z.
     Inr (db\<lparr>userres := (if z \<and> ram = 0 then tdel receiver (userres db)
             else tput receiver \<lparr>ur_net_weight = n, ur_cpu_weight = u, ram_bytes = ram\<rparr> (userres db))\<rparr>))))"

text \<open>What is left of a refund and of a stake when the refund is used for it.\<close>

definition lower_refund :: "asset \<Rightarrow> asset \<Rightarrow> (asset \<times> asset) result" where
  "lower_refund r balance =
     rbind (asset_sub r balance) (\<lambda>r.
     rbind (asset_cmp (<) r core_zero) (\<lambda>neg.
     Inr (if neg then (core_zero, asset_neg r) else (r, core_zero))))"

definition new_refund :: "asset \<Rightarrow> (asset \<times> asset) result" where
  "new_refund balance =
     rbind (asset_cmp (<) balance core_zero) (\<lambda>neg.
     Inr (if neg then (asset_neg balance, core_zero) else (core_zero, balance)))"

definition change_refund :: "ctx \<Rightarrow> name \<Rightarrow> asset \<Rightarrow> asset \<Rightarrow> system_db \<Rightarrow> (system_db \<times> asset \<times> asset \<times> bool) result" where
  "change_refund c from net cpu db =
     (case map_of (refunds db) from of
        Some r \<Rightarrow>
          rbind (any_negative net cpu) (\<lambda>neg.
          rbind (lower_refund (net_amount r) net) (\<lambda>(n, net).
          rbind (lower_refund (cpu_amount r) cpu) (\<lambda>(u, cpu).
          both_nonneg ''negative net refund amount'' ''negative cpu refund amount'' n u (
          rbind (is_zero n u) (\<lambda>z.
          if z then Inr (db\<lparr>refunds := tdel from (refunds db)\<rparr>, net, cpu, False)
          else Inr (db\<lparr>refunds := tput from \<lparr>request_time = (if neg then now_seconds c else request_time r), net_amount = n, cpu_amount = u\<rparr>
                  (refunds db)\<rparr>, net, cpu, True))))))
      | None \<Rightarrow>
          rbind (any_negative net cpu) (\<lambda>neg.
          if neg then
            rbind (new_refund net) (\<lambda>(n, net).
            rbind (new_refund cpu) (\<lambda>(u, cpu).
            rbind (emplace from \<lparr>request_time = now_seconds c, net_amount = n, cpu_amount = u\<rparr> (refunds db)) (\<lambda>t.
            Inr (db\<lparr>refunds := t\<rparr>, net, cpu, True))))
          else Inr (db, net, cpu, False)))"

definition cancel_deferred :: "name \<Rightarrow> world \<Rightarrow> world" where
  "cancel_deferred n w = w\<lparr>deferred := filter (\<lambda>d. fst d \<noteq> (system_account, n)) (deferred w)\<rparr>"

definition defer_refund :: "name \<Rightarrow> world \<Rightarrow> world" where
  "defer_refund n w = w\<lparr>deferred := deferred w @ [((system_account, n), mk_act n system_account (Sys (Refund n)))]\<rparr>"

definition change_refund_and_pay :: "ctx \<Rightarrow> name \<Rightarrow> name \<Rightarrow> name \<Rightarrow> asset \<Rightarrow> asset \<Rightarrow> bool \<Rightarrow> world \<Rightarrow> world result" where
  "change_refund_and_pay c source from receiver net cpu transfer w =
     rbind (if (\<not> transfer \<and> from = receiver) \<or> i64 (amount net + amount cpu) < 0
            then change_refund c from net cpu (syst w) else Inr (syst w, net, cpu, False)) (\<lambda>(db, net, cpu, need_deferred_trx).
     let w = cancel_deferred from (w\<lparr>syst := db\<rparr>);
         w = (if need_deferred_trx then defer_refund from w else w) in
     rbind (asset_add net cpu) (\<lambda>transfer_amount.
     rbind (asset_cmp (<) core_zero transfer_amount) (\<lambda>pos.
     if pos then send_transfer c source eosio_stake transfer_amount ''stake bandwidth'' w else Inr w)))"

definition change_staked :: "name \<Rightarrow> int \<Rightarrow> system_db \<Rightarrow> (system_db \<times> voter_info) result" where
  "change_staked from x db =
     (let v = (case map_of (voters db) from of
                 None \<Rightarrow> voter_default\<lparr>vi_staked := x\<rparr>
               | Some v \<Rightarrow> v\<lparr>vi_staked := i64 (vi_staked v + x)\<rparr>) in
      ensure (0 \<le> vi_staked v) ''stake for voting cannot be negative'' (
      Inr (db\<lparr>voters := tput from v (voters db)\<rparr>, v)))"

subsection \<open>Actions\<close>

definition changebw :: "ctx \<Rightarrow> name \<Rightarrow> name \<Rightarrow> asset \<Rightarrow> asset \<Rightarrow> bool \<Rightarrow> world \<Rightarrow> world result" where
  "changebw c source receiver net cpu transfer w =
     require_auth c source (
     rbind (is_zero net cpu) (\<lambda>z. ensure (\<not> z) ''should stake non-zero amount'' (
     rbind (asset_add net cpu) (\<lambda>total_update.
     ensure (abs64 (amount total_update) \<ge> max (abs64 (amount net)) (abs64 (amount cpu)))
       ''net and cpu deltas cannot be opposite signs'' (
     check_yta_account receiver (
     let from = (if transfer then receiver else source) in
     rbind (on_sys (change_delband from receiver net cpu) w) (\<lambda>w.
     rbind (on_sys (change_totals receiver net cpu) w) (\<lambda>w.
     rbind (if source \<noteq> eosio_stake then change_refund_and_pay c source from receiver net cpu transfer w else Inr w) (\<lambda>w.
     rbind (change_staked from (amount total_update) (syst w)) (\<lambda>(db, voter).
     revote c from voter (w\<lparr>syst := db\<rparr>)))))))))))"

definition delegatebw :: "ctx \<Rightarrow> name \<Rightarrow> name \<Rightarrow> asset \<Rightarrow> asset \<Rightarrow> bool \<Rightarrow> world \<Rightarrow> world result" where
  "delegatebw c from receiver net cpu transfer w =
     rbind (asset_cmp (\<ge>) cpu core_zero) (\<lambda>ok. ensure ok ''must stake a positive amount'' (
     rbind (asset_cmp (\<ge>) net core_zero) (\<lambda>ok. ensure ok ''must stake a positive amount'' (
     rbind (asset_add net cpu) (\<lambda>total.
     rbind (asset_cmp (>) total core_zero) (\<lambda>ok. ensure ok ''must stake a positive amount'' (
     ensure (\<not> transfer \<or> from \<noteq> receiver) ''cannot use transfer flag if delegating to self'' (
     rbind (if transfer then
              rbind (get_balance w from (sym_name CORE_SYMBOL)) (\<lambda>balance.
              rbind (get_deposit w from) (\<lambda>frozen.
              rbind (get_lock_asset c w from) (\<lambda>lock.
              ensure (symbol frozen = symbol lock) ''deposit and lock symbol precision mismatch'' (
              rbind (asset_add frozen lock) (\<lambda>frozen.
              ensure (symbol frozen = CORE_SYMBOL) ''deposit symbol not core symbol'' (
              rbind (asset_sub balance frozen) (\<lambda>rest.
              rbind (asset_cmp (\<ge>) rest total) (\<lambda>ok.
              ensure ok ''overdrawn balance for transfer bw'' (Inr ())))))))))
            else Inr ()) (\<lambda>_.
     changebw c from receiver net cpu transfer w)))))))))"

definition undelegatebw :: "ctx \<Rightarrow> name \<Rightarrow> name \<Rightarrow> asset \<Rightarrow> asset \<Rightarrow> world \<Rightarrow> world result" where
  "undelegatebw c from receiver net cpu w =
     rbind (asset_cmp (\<le>) core_zero cpu) (\<lambda>ok. ensure ok ''must unstake a positive amount'' (
     rbind (asset_cmp (\<le>) core_zero net) (\<lambda>ok. ensure ok ''must unstake a positive amount'' (
     rbind (asset_add cpu net) (\<lambda>total.
     rbind (asset_cmp (<) core_zero total) (\<lambda>ok. ensure ok ''must unstake a positive amount'' (
     ensure (total_activated_stake (gs (syst w)) \<ge> min_activated_stake) ''cannot undelegate bandwidth until the chain is activated (at least 15% of all tokens participate in voting)'' (
     changebw c from receiver (asset_neg net) (asset_neg cpu) False w))))))))"

definition refund :: "ctx \<Rightarrow> name \<Rightarrow> world \<Rightarrow> world result" where
  "refund c owner w =
     require_auth c owner (
     fetch (refunds (syst w)) owner ''refund request not found'' (\<lambda>req.
     ensure (request_time req + refund_delay \<le> now_seconds c) ''refund is not available yet'' (
     rbind (asset_add (net_amount req) (cpu_amount req)) (\<lambda>total.
     rbind (send_transfer c eosio_stake owner total ''unstake'' w) (\<lambda>w.
     Inr (w\<lparr>syst := (syst w)\<lparr>refunds := tdel owner (refunds (syst w))\<rparr>\<rparr>))))))"

end
