(* ===== verification/System_Pay.thy ===== *)
theory System_Pay
  imports System_Stake
begin

text \<open>
  \<open>eosio.system\<close>: the pay of producers and the action of every block (\<open>producer_pay.cpp\<close>), the
  auction of names, new accounts and the settings of the chain (\<open>eosio.system.cpp\<close>, and
  \<open>chain_config.cpp\<close> for the check of the parameters).
\<close>

definition eosio_names :: name where "eosio_names = string_to_name ''eosio.names''"

definition blocks_per_day2 :: u32 where "blocks_per_day2 = 172800"
definition seconds_per_year :: int where "seconds_per_year = 31449600"
definition useconds_per_year :: int where "useconds_per_year = 31449600000000"
definition block_initial_timestamp :: int where "block_initial_timestamp = 1578621600"
definition yta_seo_year :: "int list" where
  "yta_seo_year = [1000, 300, 300, 300, 300, 300, 300, 300, 300, 300, 300, 300]"
definition yta_seo_base :: int where "yta_seo_base = 100000"

subsection \<open>Pay of the producers\<close>

definition startreward :: "ctx \<Rightarrow> world \<Rightarrow> world result" where
  "startreward c w =
     require_auth c ytarewardusr (
     ensure (last_pervote_bucket_fill (gs (syst w)) = 0) ''already start reward'' (
     case all_prods (syst w) of
       None \<Rightarrow> Inl (Eosio_assert ''can not start reward'')
     | Some a \<Rightarrow>
         ensure (length (prods_l1 a) \<ge> 21) ''main susper producers not enough'' (
         ensure (length (prods_l2 a) \<ge> 42) ''super producers not enouth'' (
         Inr (w\<lparr>syst := on_gs (\<lambda>g. g\<lparr>last_pervote_bucket_fill := current_time c\<rparr>) (syst w)\<rparr>)))))"

definition claimrewards :: "name \<Rightarrow> world \<Rightarrow> world result" where
  "claimrewards owner w = Inl (Eosio_assert ''can not claimrewards by self'')"

text \<open>
  The table of yearly amounts is read without a check of its bounds.  What the source gives outside
  the table is undefined in C++; here it is an error.
\<close>

definition seo_token :: "ctx \<Rightarrow> int result" where
  "seo_token c =
     (let idx_year = tdiv (uint (now_seconds c) - block_initial_timestamp) seconds_per_year in
      if 0 \<le> idx_year \<and> idx_year < int (length yta_seo_year)
      then Inr (yta_seo_year ! nat idx_year * yta_seo_base)
      else Inl (Wasm_trap ''array index out of range''))"

definition new_tokens :: "int \<Rightarrow> u64 \<Rightarrow> int result" where
  "new_tokens seo usecs =
     f64_trunc_i64s (fdiv (fmul (fmul (f64_of_int seo) (Fin 10000)) (f64_of_int (uint usecs))) (f64_of_int useconds_per_year))"

definition fill_buckets :: "ctx \<Rightarrow> int \<Rightarrow> world \<Rightarrow> world result" where
  "fill_buckets c tokens w =
     (let to_per_base_pay = tdiv (i64 (tokens * 3)) 5;
          to_producers = i64 (tokens - to_per_base_pay);
          to_per_block_pay = tdiv to_producers 2;
          to_per_vote_pay = i64 (to_producers - to_per_block_pay) in
      rbind (mk_asset tokens CORE_SYMBOL) (\<lambda>q.
      rbind (send c system_account (mk_act system_account token_account
        (Tok (Issue system_account q ''issue tokens for producer pay''))) w) (\<lambda>w.
      rbind (send_transfer c system_account hddbasefound q ''fund total bucket'' w) (\<lambda>w.
      let db = on_gs2 (\<lambda>g. g\<lparr>perbase_bucket := i64 (perbase_bucket g + to_per_base_pay)\<rparr>) (syst w) in
      Inr (w\<lparr>syst := on_gs (\<lambda>g. g\<lparr>pervote_bucket := i64 (pervote_bucket g + to_per_vote_pay),
                                     perblock_bucket := i64 (perblock_bucket g + to_per_block_pay),
                                     last_pervote_bucket_fill := current_time c\<rparr>) db\<rparr>)))))"

text \<open>What has been paid so far: base, block and vote pay, and the total.\<close>

record payments =
  already_base :: int
  already_block :: int
  already_vote :: int
  already_total :: int

definition vote_pay :: "int \<Rightarrow> f64 \<Rightarrow> f64 \<Rightarrow> int result" where
  "vote_pay bucket votes total_weight =
     (if flt (Fin 0) total_weight then f64_trunc_i64s (fdiv (fmul (f64_of_int bucket) votes) total_weight) else Inr 0)"

definition pay_one :: "ctx \<Rightarrow> string \<Rightarrow> int \<Rightarrow> int \<Rightarrow> int \<Rightarrow> f64 \<Rightarrow> int \<Rightarrow> yta_prod_info \<Rightarrow> payments \<times> world \<Rightarrow> (payments \<times> world) result" where
  "pay_one c memo total_pay base_pay block_pay total_weight bucket p s =
     (case s of (paid, w) \<Rightarrow>
      rbind (vote_pay bucket (yp_total_votes p) total_weight) (\<lambda>per_vote.
      let per_total = i64 (i64 (base_pay + block_pay) + per_vote) in
      if per_total > 0 \<and> i64 (per_total + already_total paid) \<le> total_pay then
        rbind (mk_asset per_total CORE_SYMBOL) (\<lambda>q.
        rbind (send_transfer c hddbasefound (yp_owner p) q memo w) (\<lambda>w.
        Inr (\<lparr>already_base = i64 (already_base paid + base_pay), already_block = i64 (already_block paid + block_pay),
              already_vote = i64 (already_vote paid + per_vote), already_total = i64 (already_total paid + per_total)\<rparr>, w)))
      else Inr (paid, w)))"

fun pay_all :: "(yta_prod_info \<Rightarrow> 's \<Rightarrow> 's result) \<Rightarrow> yta_prod_info list \<Rightarrow> 's \<Rightarrow> 's result" where
  "pay_all f [] s = Inr s"
| "pay_all f (p # ps) s = rbind (f p s) (pay_all f ps)"

definition total_votes_of :: "yta_prod_info list \<Rightarrow> f64" where
  "total_votes_of ps = foldl (\<lambda>x p. fadd x (yp_total_votes p)) (Fin 0) ps"

definition clamp_bucket :: "int \<Rightarrow> int \<Rightarrow> int" where
  "clamp_bucket bucket already = (let x = i64 (bucket - already) in if x < 0 then 0 else x)"

definition pay_producers :: "ctx \<Rightarrow> all_prods_level \<Rightarrow> world \<Rightarrow> world result" where
  "pay_producers c a w =
     (let base = perbase_bucket (gs2 (syst w)); block = perblock_bucket (gs (syst w)); vote = pervote_bucket (gs (syst w));
          total_pay = i64 (i64 (base + block) + vote);
          n1 = int (length (prods_l1 a)); n = n1 + int (length (prods_l2 a));
          weight = total_votes_of (prods_l1 a @ prods_l2 a);
          none = \<lparr>already_base = 0, already_block = 0, already_vote = 0, already_total = 0\<rparr> in
      rbind (pay_all (pay_one c ''main producer daily pay'' total_pay (tdiv base n) (tdiv block n1) weight vote) (prods_l1 a) (none, w)) (\<lambda>s.
      rbind (pay_all (pay_one c ''producer daily pay'' total_pay (tdiv base n) 0 weight vote) (prods_l2 a) s) (\<lambda>(paid, w).
      let db = on_gs2 (\<lambda>g. g\<lparr>perbase_bucket := clamp_bucket base (already_base paid)\<rparr>) (syst w) in
      Inr (w\<lparr>syst := on_gs (\<lambda>g. g\<lparr>pervote_bucket := clamp_bucket vote (already_vote paid),
                                     perblock_bucket := clamp_bucket block (already_block paid)\<rparr>) db\<rparr>))))"

definition rewardprods :: "ctx \<Rightarrow> world \<Rightarrow> world result" where
  "rewardprods c w =
     require_auth c ytarewardusr (
     let fill = last_pervote_bucket_fill (gs (syst w)) in
     if fill = 0 then Inr w
     else case all_prods (syst w) of
            None \<Rightarrow> Inr w
          | Some a \<Rightarrow>
              if length (prods_l1 a) < 1 then Inr w
              else
                let w = w\<lparr>syst := on_gs2 (\<lambda>g. g\<lparr>g2_last_claim_time := current_time c\<rparr>) (syst w)\<rparr>;
                    usecs_since_last_fill = current_time c - fill in
                rbind (seo_token c) (\<lambda>seo.
                rbind (if usecs_since_last_fill > 0 \<and> fill > 0
                       then rbind (new_tokens seo usecs_since_last_fill) (\<lambda>tokens. fill_buckets c tokens w)
                       else Inr w) (\<lambda>w.
                pay_producers c a w)))"

subsection \<open>Every block\<close>

text \<open>The bid that comes first in the index by \<open>by_high_bid\<close>, the negated bid as an unsigned number.\<close>

definition bid_rank :: "name \<times> name_bid \<Rightarrow> u64 \<times> name" where
  "bid_rank r = (word_of_int (- high_bid (snd r)), fst r)"

definition highest_bid :: "(name, name_bid) table \<Rightarrow> (name \<times> name_bid) option" where
  "highest_bid t = (case sort_key bid_rank t of [] \<Rightarrow> None | r # _ \<Rightarrow> Some r)"

definition close_auction :: "ctx \<Rightarrow> u32 \<Rightarrow> system_db \<Rightarrow> system_db" where
  "close_auction c slot db =
     (if slot - last_name_close (gs db) > blocks_per_day2 then
        case highest_bid (namebids db) of
          None \<Rightarrow> db
        | Some (n, b) \<Rightarrow>
            if high_bid b > 0 \<and> last_bid_time b < current_time c - useconds_per_day \<and>
               thresh_activated_stake_time (gs db) > 0 \<and>
               current_time c - thresh_activated_stake_time (gs db) > 14 * useconds_per_day
            then (on_gs (\<lambda>g. g\<lparr>last_name_close := slot\<rparr>) db)\<lparr>namebids := tput n (b\<lparr>high_bid := i64 (- high_bid b)\<rparr>) (namebids db)\<rparr>
            else db
      else db)"

definition onblock :: "ctx \<Rightarrow> u32 \<Rightarrow> name \<Rightarrow> world \<Rightarrow> world result" where
  "onblock c slot producer w =
     require_auth c system_account (
     if slot - last_producer_schedule_update (gs (syst w)) > 240 then
       on_sys (\<lambda>db. rbind (update_elected_producers_yta c slot db) (\<lambda>db. Inr (close_auction c slot db))) w
     else if slot \<ge> get_next_reward_slot w then
       send c system_account (mk_act hdd_pool_account hdd_pool_account (Pol (Pool_reward (Onreward slot)))) w
     else if slot \<ge> get_next_build_slot w then
       send c system_account (mk_act hdd_pool_account hdd_pool_account (Pol (Pool_reward (Onbuild slot)))) w
     else Inr w)"

subsection \<open>Names and accounts\<close>

definition bidname :: "ctx \<Rightarrow> name \<Rightarrow> name \<Rightarrow> asset \<Rightarrow> world \<Rightarrow> world result" where
  "bidname c bidder newname bid w =
     require_auth c bidder (
     ensure (name_suffix newname = newname) ''you can only bid on top-level suffix'' (
     ensure (newname \<noteq> 0) ''the empty name is not a valid account name to bid on'' (
     ensure (take_bit 4 newname = 0) ''13 character names are not valid account names to bid on'' (
     ensure (take_bit 5 (drop_bit 4 newname) = 0)
       ''accounts with 12 character names and no dots can be created without bidding required'' (
     ensure (\<not> is_account c newname) ''account already exists'' (
     ensure (symbol bid = CORE_SYMBOL) ''asset must be system token'' (
     ensure (amount bid > 0) ''insufficient bid'' (
     rbind (send_transfer c bidder eosio_names bid (''bid name '' @ to_string newname) w) (\<lambda>w.
     let b = \<lparr>high_bidder = bidder, high_bid = amount bid, last_bid_time = current_time c\<rparr> in
     case map_of (namebids (syst w)) newname of
       None \<Rightarrow>
         rbind (emplace newname b (namebids (syst w))) (\<lambda>t. Inr (w\<lparr>syst := (syst w)\<lparr>namebids := t\<rparr>\<rparr>))
     | Some current \<Rightarrow>
         ensure (high_bid current > 0) ''this auction has already closed'' (
         ensure (i64 (amount bid - high_bid current) > tdiv (high_bid current) 10) ''must increase bid by 10%'' (
         ensure (high_bidder current \<noteq> bidder) ''account is already highest bidder'' (
         rbind (mk_asset (high_bid current) CORE_SYMBOL) (\<lambda>old.
         rbind (send_transfer c eosio_names (high_bidder current) old (''refund bid on name '' @ to_string newname) w) (\<lambda>w.
         Inr (w\<lparr>syst := (syst w)\<lparr>namebids := tput newname b (namebids (syst w))\<rparr>\<rparr>)))))))))))))))"

fun has_dot :: "nat \<Rightarrow> u64 \<Rightarrow> bool" where
  "has_dot 0 tmp = False"
| "has_dot (Suc n) tmp = (take_bit 5 tmp = 0 \<or> has_dot n (drop_bit 5 tmp))"

definition claim_name :: "name \<Rightarrow> name \<Rightarrow> system_db \<Rightarrow> system_db result" where
  "claim_name creator newact db =
     (if creator \<noteq> system_account \<and> has_dot 12 (drop_bit 4 newact) then
        if name_suffix newact = newact then
          fetch (namebids db) newact ''no active bid for name'' (\<lambda>current.
          ensure (high_bidder current = creator) ''only highest bidder can claim'' (
          ensure (high_bid current < 0) ''auction for name is not closed yet'' (
          Inr (db\<lparr>namebids := tdel newact (namebids db)\<rparr>))))
        else ensure (creator = name_suffix newact) ''only suffix may create this account'' (Inr db)
      else Inr db)"

definition newaccount :: "name \<Rightarrow> name \<Rightarrow> world \<Rightarrow> world result" where
  "newaccount creator newact =
     on_sys (\<lambda>db.
     rbind (claim_name creator newact db) (\<lambda>db.
     rbind (emplace newact user_resources_default (userres db)) (\<lambda>t.
     Inr (db\<lparr>userres := t, gcount := Some (get_or_default (gcount db) 1 + 1)\<rparr>))))"

subsection \<open>Settings\<close>

definition chain_config_valid :: "blockchain_parameters \<Rightarrow> bool" where
  "chain_config_valid p \<longleftrightarrow>
     target_block_net_usage_pct p \<le> 10000 \<and> target_block_net_usage_pct p \<ge> 10 \<and>
     target_block_cpu_usage_pct p \<le> 10000 \<and> target_block_cpu_usage_pct p \<ge> 10 \<and>
     ucast (max_transaction_net_usage p) < max_block_net_usage p \<and>
     max_transaction_cpu_usage p < max_block_cpu_usage p \<and>
     base_per_transaction_net_usage p < max_transaction_net_usage p \<and>
     max_transaction_net_usage p - base_per_transaction_net_usage p \<ge> 10240 \<and>
     context_free_discount_net_usage_den p > 0 \<and>
     context_free_discount_net_usage_num p \<le> context_free_discount_net_usage_den p \<and>
     min_transaction_cpu_usage p \<le> max_transaction_cpu_usage p \<and>
     max_transaction_cpu_usage p < max_block_cpu_usage p - min_transaction_cpu_usage p \<and>
     1 \<le> max_authority_depth p"

definition setparams :: "ctx \<Rightarrow> blockchain_parameters \<Rightarrow> world \<Rightarrow> world result" where
  "setparams c p w =
     require_auth c system_account (
     ensure (3 \<le> max_authority_depth p) ''max_authority_depth should be at least 3'' (
     if chain_config_valid p
     then Inr (w\<lparr>syst := (on_gs (\<lambda>g. g\<lparr>gs_params := p\<rparr>) (syst w))\<lparr>chain_params := p\<rparr>\<rparr>)
     else Inl (Chain_error ''invalid chain configuration'')))"

definition setpriv :: "ctx \<Rightarrow> name \<Rightarrow> u8 \<Rightarrow> world \<Rightarrow> world result" where
  "setpriv c account ispriv w =
     require_auth c system_account (
     if is_account c account
     then Inr (w\<lparr>syst := (syst w)\<lparr>privileged := tput account (ispriv \<noteq> 0) (privileged (syst w))\<rparr>\<rparr>)
     else Inl (Chain_error ''unknown key''))"

end
