(* ===== verification/Executor.thy ===== *)
theory Executor
  imports Chain_State
begin

text \<open>
  How the chain runs an action, from \<open>src/libraries/chain/apply_context.cpp\<close> and
  \<open>transaction_context.cpp\<close>: the code of the receiver runs first, then that of the
  accounts it notified in order, and then the inline actions that were sent meanwhile,
  depth first and up to a maximum depth.  The code of the accounts is an argument.  A
  failure anywhere is a failure of the whole transaction.

  The list \<open>inlines\<close> and the list \<open>notified\<close> of a world belong to the action that is
  being run.  The number of notified accounts has no bound in the code other than the
  time limit of the transaction; \<open>fuel\<close> stands for that limit.
\<close>

type_synonym code = "ctx \<Rightarrow> name \<Rightarrow> act \<Rightarrow> world \<Rightarrow> world result"

definition default_max_inline_action_depth :: nat where
  "default_max_inline_action_depth = 4"

definition exec_one :: "code \<Rightarrow> ctx \<Rightarrow> name \<Rightarrow> act \<Rightarrow> world \<Rightarrow> world result" where
  "exec_one code c receiver a w =
     (if is_account c receiver then code c receiver a w else Inl (Chain_error ''unknown key''))"

fun run_notified :: "code \<Rightarrow> nat \<Rightarrow> nat \<Rightarrow> ctx \<Rightarrow> act \<Rightarrow> world \<Rightarrow> world result" where
  "run_notified code 0 i c a w = Inl (Chain_error ''deadline exceeded'')"
| "run_notified code (Suc n) i c a w =
     (if i < length (notified w)
      then rbind (exec_one code c (notified w ! i) a w) (run_notified code n (i + 1) c a)
      else Inr w)"

fun each :: "('a \<Rightarrow> 'b \<Rightarrow> 'b result) \<Rightarrow> 'a list \<Rightarrow> 'b \<Rightarrow> 'b result" where
  "each f [] w = Inr w"
| "each f (x # xs) w = rbind (f x w) (each f xs)"

definition exec_with :: "(act \<Rightarrow> world \<Rightarrow> world result) \<Rightarrow> code \<Rightarrow> nat \<Rightarrow> ctx \<Rightarrow> act \<Rightarrow> world \<Rightarrow> world result" where
  "exec_with inl code fuel c a w =
     rbind (run_notified code fuel 0 (c\<lparr>auths := act_auth a\<rparr>) a (w\<lparr>inlines := [], notified := [act_account a]\<rparr>)) (\<lambda>w.
     each inl (inlines w) w)"

text \<open>The argument \<open>d\<close> is what is left of the maximum depth.\<close>

primrec exec :: "nat \<Rightarrow> code \<Rightarrow> nat \<Rightarrow> ctx \<Rightarrow> act \<Rightarrow> world \<Rightarrow> world result" where
  "exec 0 code fuel c =
     exec_with (\<lambda>_ _. Inl (Chain_error ''max inline action depth per transaction reached'')) code fuel c"
| "exec (Suc d) code fuel c = exec_with (exec d code fuel c) code fuel c"

definition run_transaction :: "code \<Rightarrow> nat \<Rightarrow> ctx \<Rightarrow> act list \<Rightarrow> world \<Rightarrow> world result" where
  "run_transaction code fuel c as w = each (exec default_max_inline_action_depth code fuel c) as w"

subsection \<open>What a transaction keeps\<close>

text \<open>
  The interface between the executor and the code of the accounts: code that is run
  for its own actions keeps an invariant and establishes what it accepted, and code
  that is notified of an accepted action keeps the invariant.
\<close>

locale keeping_code =
  fixes code :: code and good :: "ctx \<Rightarrow> bool" and inv :: "world \<Rightarrow> bool" and acc :: "act \<Rightarrow> bool"
  assumes own: "good c \<Longrightarrow> inv w \<Longrightarrow> code c (act_account a) a w = Inr w' \<Longrightarrow> inv w' \<and> acc a"
    and noted: "good c \<Longrightarrow> inv w \<Longrightarrow> acc a \<Longrightarrow> code c n a w = Inr w' \<Longrightarrow> inv w'"
    and lists: "inv (w\<lparr>inlines := is, notified := ns\<rparr>) = inv w"
    and good_auths: "good (c\<lparr>auths := as\<rparr>) = good c"
begin

lemma run_notified_inv:
  "good c \<Longrightarrow> inv w \<Longrightarrow> acc a \<Longrightarrow> run_notified code n i c a w = Inr w' \<Longrightarrow> inv w'"
  by (induction n arbitrary: i w) (auto simp: exec_one_def split: if_splits dest: noted)

lemma each_inv:
  "\<forall>x w w'. inv w \<longrightarrow> f x w = Inr w' \<longrightarrow> inv w' \<Longrightarrow> inv w \<Longrightarrow> each f xs w = Inr w' \<Longrightarrow> inv w'"
  by (induction xs arbitrary: w) auto

lemma exec_with_inv:
  assumes inl: "\<forall>x w w'. inv w \<longrightarrow> inl x w = Inr w' \<longrightarrow> inv w'" and good: "good c" and inv: "inv w"
    and run: "exec_with inl code fuel c a w = Inr w'"
  shows "inv w'"
proof -
  let ?c = "c\<lparr>auths := act_auth a\<rparr>" and ?w = "w\<lparr>inlines := [], notified := [act_account a]\<rparr>"
  obtain w1 where r: "run_notified code fuel 0 ?c a ?w = Inr w1" and e: "each inl (inlines w1) w1 = Inr w'"
    using run by (auto simp: exec_with_def)
  have g: "good ?c" and i: "inv ?w" using good inv by (simp_all add: good_auths lists)
  obtain n w2 where n: "fuel = Suc n" and o: "code ?c (act_account a) a ?w = Inr w2" and l: "run_notified code n 1 ?c a w2 = Inr w1"
    using r by (cases fuel) (auto simp: exec_one_def split: if_splits)
  have "inv w1" using own [OF g i o] run_notified_inv [OF g _ _ l] by blast
  then show ?thesis using each_inv [OF inl] e by blast
qed

lemma exec_inv: "good c \<Longrightarrow> inv w \<Longrightarrow> exec d code fuel c a w = Inr w' \<Longrightarrow> inv w'"
proof (induction d arbitrary: a w w')
  case 0
  show ?case by (rule exec_with_inv [OF _ 0(1,2) 0(3) [unfolded exec.simps]]) simp
next
  case (Suc d)
  have "\<forall>x w w'. inv w \<longrightarrow> exec d code fuel c x w = Inr w' \<longrightarrow> inv w'" using Suc.IH Suc.prems(1) by blast
  then show ?case by (rule exec_with_inv [OF _ Suc.prems(1,2) Suc.prems(3) [unfolded exec.simps]])
qed

lemma run_transaction_inv: "good c \<Longrightarrow> inv w \<Longrightarrow> run_transaction code fuel c as w = Inr w' \<Longrightarrow> inv w'"
  unfolding run_transaction_def using each_inv [of "exec default_max_inline_action_depth code fuel c"] exec_inv by blast

end

subsection \<open>Restricting the code\<close>

text \<open>Code that stops outside a range of actions and worlds: what it does, the code does too.\<close>

definition guarded :: "(act \<Rightarrow> world \<Rightarrow> bool) \<Rightarrow> code \<Rightarrow> code" where
  "guarded P code c n a w = (if P a w then code c n a w else Inl (Chain_error ''out of range''))"

definition below :: "'a result \<Rightarrow> 'a result \<Rightarrow> bool" where
  "below r s \<longleftrightarrow> (\<forall>x. r = Inr x \<longrightarrow> s = Inr x)"

lemma below_rbind: "below r s \<Longrightarrow> (\<And>x. below (f x) (g x)) \<Longrightarrow> below (rbind r f) (rbind s g)"
  by (cases r) (auto simp: below_def)

lemma below_refl [simp]: "below r r" "below (Inl e) r"
  by (simp_all add: below_def)

lemma run_notified_below: "below (run_notified (guarded P code) n i c a w) (run_notified code n i c a w)"
proof (induction n arbitrary: i w)
  case (Suc n)
  have "below (exec_one (guarded P code) c r a w) (exec_one code c r a w)" for r by (simp add: exec_one_def guarded_def)
  then show ?case using Suc by (simp add: below_rbind)
qed simp

lemma each_below: "(\<And>x w. below (f x w) (g x w)) \<Longrightarrow> below (each f xs w) (each g xs w)"
  by (induction xs arbitrary: w) (simp_all add: below_rbind)

lemma exec_below: "below (exec d (guarded P code) fuel c a w) (exec d code fuel c a w)"
proof (induction d arbitrary: a w)
  case 0
  show ?case unfolding exec.simps exec_with_def by (intro below_rbind run_notified_below below_refl)
next
  case (Suc d)
  show ?case unfolding exec.simps exec_with_def by (intro below_rbind run_notified_below each_below Suc)
qed

lemma run_transaction_below: "below (run_transaction (guarded P code) fuel c as w) (run_transaction code fuel c as w)"
  unfolding run_transaction_def by (intro each_below exec_below)

lemma run_transaction_guarded:
  "run_transaction (guarded P code) fuel c as w = Inr w' \<Longrightarrow> run_transaction code fuel c as w = Inr w'"
  using run_transaction_below [of P code fuel c as w] unfolding below_def by blast

subsection \<open>Blocks\<close>

text \<open>
  The chain moves by transactions and by the deferred transactions that contracts have
  scheduled.  One of those is removed when its turn comes, whether it succeeds, fails or
  has expired.  After a failure the sender is called with \<open>onerror\<close>, for which none of the
  contracts has a handler; the constructor and destructor that then run for \<open>hddpool\<close> only
  store the defaults that the action which scheduled the transaction has stored before.
\<close>

inductive chain_step :: "(ctx \<Rightarrow> bool) \<Rightarrow> code \<Rightarrow> world \<Rightarrow> world \<Rightarrow> bool" for good code where
  Transaction: "good c \<Longrightarrow> run_transaction code fuel c as w = Inr w' \<Longrightarrow> chain_step good code w w'"
| Scheduled: "good c \<Longrightarrow> deferred w = xs @ (i, a) # ys \<Longrightarrow>
    run_transaction code fuel c [a] (w\<lparr>deferred := xs @ ys\<rparr>) = Inr w' \<Longrightarrow> chain_step good code w w'"
| Failed: "deferred w = xs @ (i, a) # ys \<Longrightarrow> chain_step good code w (w\<lparr>deferred := xs @ ys\<rparr>)"

inductive_simps chain_step_iff: "chain_step good code w w'"

definition reachable :: "(ctx \<Rightarrow> bool) \<Rightarrow> code \<Rightarrow> world \<Rightarrow> world \<Rightarrow> bool" where
  "reachable good code = (chain_step good code)\<^sup>*\<^sup>*"

locale keeping_chain = keeping_code +
  assumes queue: "inv (w\<lparr>deferred := d\<rparr>) = inv w"
begin

lemma chain_step_inv: "chain_step good code w w' \<Longrightarrow> inv w \<Longrightarrow> inv w'"
proof (induction rule: chain_step.induct)
  case (Scheduled c w xs i a ys fuel w')
  then show ?case using run_transaction_inv queue by blast
qed (auto simp: queue intro: run_transaction_inv)

lemma reachable_inv: "reachable good code w w' \<Longrightarrow> inv w \<Longrightarrow> inv w'"
  unfolding reachable_def by (induction rule: rtranclp_induct) (auto intro: chain_step_inv)

end

end
