(* ===== verification/Hddpool_Account.thy ===== *)
theory Hddpool_Account
  imports Frames
begin

text \<open>
  The storage accounts of \<open>src/contracts/hddpool/hddpool.cpp\<close>: a user has a
  balance for stored data, which shrinks with the fee per cycle, and a balance of
  mining profit, which grows with the space under production until the old
  economic model ended.  Profit is split nine to one with the ecology fund.
\<close>

subsection \<open>Constants and numeric helpers\<close>

definition fee_cycle :: u64 where "fee_cycle = 86400000"
definition milliseconds_in_one_year :: u64 where "milliseconds_in_one_year = 31536000000"
definition microseconds_in_one_day :: u64 where "microseconds_in_one_day = 86400000000"
definition days_in_one_month :: u64 where "days_in_one_month = 30"
definition hddm_latest_stop_time :: u64 where "hddm_latest_stop_time = 1639745400000000"
definition blocks_per_day :: u32 where "blocks_per_day = 172800"
definition one_gb :: u64 where "one_gb = 65536"
definition max_user_space :: u64 where "max_user_space = 65536 * 1024 * (1024 * 500)"
definition max_profit_space :: u64 where "max_profit_space = 65536 * 1024 * (1024 * 500)"
definition max_pool_space :: u64 where "max_pool_space = 65536 * 1024 * (1024 * 500)"
definition max_miner_space :: u64 where "max_miner_space = 65536 * (1024 * 100)"
definition min_miner_space :: u64 where "min_miner_space = 100 * 65536"
definition max_buy_sell_hdd_amount :: int where "max_buy_sell_hdd_amount = 2 * 1024 * 1024 * 100000000"
definition min_buy_hdd_amount :: int where "min_buy_hdd_amount = 2 * 100000000"
definition profit_percent :: f64 where "profit_percent = f64_of_rat (9 / 10)"
definition defaul_miner_level :: u32 where "defaul_miner_level = 66438"
definition max_hdd_amount :: int where "max_hdd_amount = 4611686018427387903"

definition is_hdd_amount_within_range :: "int \<Rightarrow> bool" where
  "is_hdd_amount_within_range a \<longleftrightarrow> - max_hdd_amount \<le> a \<and> a \<le> max_hdd_amount"

definition f64_of_u64 :: "u64 \<Rightarrow> f64" where
  "f64_of_u64 x = f64_of_int (uint x)"

text \<open>The profit per cycle of a space under production, in units of \<open>10^-8\<close>.\<close>

definition cycle_profit :: "u64 \<Rightarrow> int result" where
  "cycle_profit space =
     f64_trunc_i64s (fmul (fmul (fdiv (f64_of_u64 space) (f64_of_u64 one_gb))
       (fdiv (f64_of_u64 fee_cycle) (f64_of_u64 milliseconds_in_one_year))) (f64_of_int 100000000))"

definition get_newmodel_start_time :: u64 where
  "get_newmodel_start_time = hddm_latest_stop_time"

definition on_pool :: "(pool_db \<Rightarrow> pool_db result) \<Rightarrow> world \<Rightarrow> world result" where
  "on_pool f w = rbind (f (pool w)) (\<lambda>db. Inr (w\<lparr>pool := db\<rparr>))"

text \<open>
  The constructor loads the two counters of the contract, with zero for a missing
  one, and the destructor stores them.
\<close>

definition pool_ctor :: "pool_db \<Rightarrow> pool_db" where
  "pool_ctor db = db\<lparr>gusercount := Some (get_or_default (gusercount db) 0),
     gmacccount := Some (get_or_default (gmacccount db) 0)\<rparr>"

definition gparams_default :: hdd_global_param where
  "gparams_default = \<lparr>hdd_price = 5760, yta_price = 8000, dup_remove_ratio = 10000,
     dup_remove_dist_ratio = 10000, hdd_counter = 2 * 1024 * 1024 * 100000000\<rparr>"

definition gparams_get :: "pool_db \<Rightarrow> hdd_global_param" where
  "gparams_get db = get_or_default (gparams db) gparams_default"

subsection \<open>Balances over time\<close>

definition calculate_fee_balance :: "int \<Rightarrow> int \<Rightarrow> u64 \<Rightarrow> u64 \<Rightarrow> int result" where
  "calculate_fee_balance oldbalance fee last_hdd_time now =
     (if now \<le> last_hdd_time then Inr oldbalance
      else
        let slot_t = (now - last_hdd_time) div 1000;
            tick = fdiv (f64_of_u64 slot_t) (f64_of_u64 fee_cycle) in
        rbind (f64_trunc_i64s (fmul tick (f64_of_int (i64 (0 - fee))))) (\<lambda>delta.
        Inr (i64 (oldbalance + delta))))"

text \<open>The balance and the deadline, which is a reference parameter of the source.\<close>

definition calculate_profit_balance :: "int \<Rightarrow> int \<Rightarrow> u64 \<Rightarrow> u64 \<Rightarrow> u64 \<Rightarrow> (int \<times> u64) result" where
  "calculate_profit_balance oldbalance profit last_hdd_time now deadline_time =
     (let deadline = (if deadline_time = 0 then get_newmodel_start_time else deadline_time);
          ct = (if now > deadline then deadline else now) in
      if ct \<le> last_hdd_time then Inr (oldbalance, deadline)
      else
        let slot_t = (ct - last_hdd_time) div 1000;
            tick = fdiv (f64_of_u64 slot_t) (f64_of_u64 fee_cycle) in
        rbind (f64_trunc_i64s (fmul tick (f64_of_int profit))) (\<lambda>delta.
        Inr (i64 (oldbalance + delta), deadline)))"

text \<open>The part of a profit that goes to the miner.\<close>

definition miner_share :: "int \<Rightarrow> int \<Rightarrow> int result" where
  "miner_share last_balance new_balance =
     rbind (f64_trunc_i64s (fmul profit_percent (f64_of_int (i64 (new_balance - last_balance))))) (\<lambda>x.
     Inr (i64 (x + last_balance)))"

definition new_user_hdd :: "u64 \<Rightarrow> name \<Rightarrow> int \<Rightarrow> pool_db \<Rightarrow> pool_db result" where
  "new_user_hdd now user balance db =
     rbind (emplace user \<lparr>hdd_storehhdd = balance, hdd_per_cycle_fee = 0, hdd_space_store = 0,
        last_hddstore_time = now, hdd_minerhdd = 0, hdd_per_cycle_profit = 0, hdd_space_profit = 0,
        last_hddprofit_time = now\<rparr> (userhdds db)) (\<lambda>t.
     Inr (db\<lparr>userhdds := t, gusercount := map_option (\<lambda>n. n + 1) (gusercount db)\<rparr>))"

text \<open>The ecology fund receives what the miner does not.\<close>

definition credit_ecology :: "int \<Rightarrow> pool_db \<Rightarrow> pool_db result" where
  "credit_ecology eco_inc_balance db =
     (if eco_inc_balance > 0 then
        fetch (userhdds db) ecologyfound ''ecologyfound account is not open'' (\<lambda>row.
        let b = i64 (hdd_minerhdd row + eco_inc_balance) in
        ensure (is_hdd_amount_within_range b) ''magnitude of user hdd_minerhdd must be less than 2^62'' (
        Inr (db\<lparr>userhdds := tput ecologyfound (row\<lparr>hdd_minerhdd := b\<rparr>) (userhdds db)\<rparr>)))
      else Inr db)"

text \<open>Settlement of the profit of an account: its new row and the part of the ecology fund.\<close>

definition settle_profit :: "u64 \<Rightarrow> u64 \<Rightarrow> userhdd \<Rightarrow> (userhdd \<times> int) result" where
  "settle_profit now deadline row =
     rbind (calculate_profit_balance (hdd_minerhdd row) (hdd_per_cycle_profit row) (last_hddprofit_time row) now deadline)
       (\<lambda>(new_balance, _).
     ensure (is_hdd_amount_within_range new_balance) ''magnitude of user hdd_minerhdd must be less than 2^62'' (
     rbind (miner_share (hdd_minerhdd row) new_balance) (\<lambda>b.
     Inr (row\<lparr>hdd_minerhdd := b, last_hddprofit_time := now\<rparr>, i64 (new_balance - b)))))"

definition calcprofit :: "ctx \<Rightarrow> name \<Rightarrow> world \<Rightarrow> world result" where
  "calcprofit c user w =
     require_auth c user (
     if user = ecologyfound then Inr w
     else
       fetch (userhdds (pool w)) user ''user is not a storage provider'' (\<lambda>row.
       rbind (settle_profit (current_time c) 0 row) (\<lambda>(row', eco).
       on_pool (\<lambda>db. credit_ecology eco (db\<lparr>userhdds := tput user row' (userhdds db)\<rparr>)) w)))"

definition chg_owner_space ::
    "name \<Rightarrow> u64 \<Rightarrow> bool \<Rightarrow> bool \<Rightarrow> u64 \<Rightarrow> u64 \<Rightarrow> pool_db \<Rightarrow> pool_db result" where
  "chg_owner_space minerowner space_delta is_increase is_calc ct deadline_time db =
     (if minerowner = ecologyfound then Inr db
      else
        fetch (userhdds db) minerowner ''no owner exists in userhdd table'' (\<lambda>row.
        rbind (if is_calc then settle_profit ct deadline_time row else Inr (row, 0)) (\<lambda>(row, eco).
        let newspace = (if is_increase then hdd_space_profit row + space_delta
                        else if hdd_space_profit row > space_delta then hdd_space_profit row - space_delta
                        else 0) in
        ensure (newspace \<le> max_profit_space) ''execeed max profie space'' (
        rbind (cycle_profit newspace) (\<lambda>p.
        credit_ecology eco (db\<lparr>userhdds := tput minerowner
          (row\<lparr>hdd_space_profit := newspace, hdd_per_cycle_profit := p\<rparr>) (userhdds db)\<rparr>))))))"

text \<open>Settlement of the storage fee of an account.\<close>

definition settle_fee :: "u64 \<Rightarrow> userhdd \<Rightarrow> userhdd result" where
  "settle_fee now row =
     rbind (calculate_fee_balance (hdd_storehhdd row) (hdd_per_cycle_fee row) (last_hddstore_time row) now) (\<lambda>b.
     ensure (is_hdd_amount_within_range b) ''magnitude of user hdd_storehhdd must be less than 2^62'' (
     Inr (row\<lparr>hdd_storehhdd := b, last_hddstore_time := now\<rparr>)))"

subsection \<open>Actions on accounts\<close>

definition put_user :: "name \<Rightarrow> userhdd \<Rightarrow> pool_db \<Rightarrow> pool_db" where
  "put_user user row db = db\<lparr>userhdds := tput user row (userhdds db)\<rparr>"

definition getbalance :: "ctx \<Rightarrow> name \<Rightarrow> u8 \<Rightarrow> name \<Rightarrow> world \<Rightarrow> world result" where
  "getbalance c user acc_type caller w =
     ensure (is_account c user) ''user not a account.'' (
     let body = (case map_of (userhdds (pool w)) user of
                   None \<Rightarrow> Inr w
                 | Some row \<Rightarrow>
                     rbind (settle_fee (current_time c) row) (\<lambda>row'.
                     Inr (w\<lparr>pool := put_user user row' (pool w)\<rparr>))) in
     if acc_type = 1 then require_auth c user body
     else if acc_type = 2 then
       ensure (is_account c caller) ''caller not a account.'' (check_bp_account c w caller body)
     else require_auth c hdd_pool_account body)"

text \<open>Adding to the storage balance of an account, which is opened if there is none.\<close>

definition credit_store :: "u64 \<Rightarrow> name \<Rightarrow> int \<Rightarrow> pool_db \<Rightarrow> pool_db result" where
  "credit_store now user amnt db =
     (case map_of (userhdds db) user of
        None \<Rightarrow> new_user_hdd now user amnt db
      | Some row \<Rightarrow>
          let b = i64 (hdd_storehhdd row + amnt) in
          ensure (is_hdd_amount_within_range b) ''magnitude of user hdd_storehhdd must be less than 2^62'' (
          Inr (put_user user (row\<lparr>hdd_storehhdd := b\<rparr>) db)))"

definition buy_price :: "hdd_global_param \<Rightarrow> int \<Rightarrow> int result" where
  "buy_price p amnt =
     rbind (f64_trunc_i64s (fmul (fdiv (f64_of_int amnt) (f64_of_int 10000))
       (fdiv (f64_of_u64 (hdd_price p)) (f64_of_u64 (yta_price p))))) (\<lambda>x.
     Inr (i64 (x + (if amnt mod 10000 > 0 then 1 else 0))))"

definition buyhdd :: "ctx \<Rightarrow> name \<Rightarrow> name \<Rightarrow> int \<Rightarrow> string \<Rightarrow> world \<Rightarrow> world result" where
  "buyhdd c from receiver amnt memo w =
     require_auth c from (
     ensure (is_account c from) ''user not a account'' (
     ensure (is_account c receiver) ''receiver not a account'' (
     ensure (is_account c hddpoolexchg) ''to not a account'' (
     ensure (amnt \<ge> min_buy_hdd_amount) ''amount too low'' (
     ensure (amnt \<le> max_buy_sell_hdd_amount) ''exceed single purchase volume'' (
     ensure (is_hdd_amount_within_range amnt) ''magnitude of amount must be less than 2^62'' (
     let p = gparams_get (pool w) in
     ensure (hdd_counter p \<ge> amnt) ''hdd_counter overdrawn'' (
     let p = p\<lparr>hdd_counter := i64 (hdd_counter p - amnt)\<rparr>;
         w = w\<lparr>pool := (pool w)\<lparr>gparams := Some p\<rparr>\<rparr> in
     rbind (buy_price p amnt) (\<lambda>yta_amount.
     rbind (mk_asset yta_amount CORE_SYMBOL) (\<lambda>quant.
     rbind (send c hdd_pool_account (mk_act from token_account (Tok (Transfer from hddpoolexchg quant memo))) w) (\<lambda>w.
     on_pool (credit_store (current_time c) receiver amnt) w)))))))))))"

definition debit_store :: "name \<Rightarrow> int \<Rightarrow> pool_db \<Rightarrow> pool_db result" where
  "debit_store user amnt db =
     fetch (userhdds db) user ''from not exists in userhdd table'' (\<lambda>row.
     ensure (hdd_storehhdd row \<ge> amnt) ''hdd overdrawn.'' (
     let b = i64 (hdd_storehhdd row - amnt) in
     ensure (is_hdd_amount_within_range b) ''magnitude of user hdd_storehhdd must be less than 2^62'' (
     Inr (put_user user (row\<lparr>hdd_storehhdd := b\<rparr>) db))))"

definition transhdds :: "ctx \<Rightarrow> name \<Rightarrow> name \<Rightarrow> int \<Rightarrow> string \<Rightarrow> world \<Rightarrow> world result" where
  "transhdds c from to amnt memo w =
     require_auth c from (
     ensure (is_account c from) ''user not a account'' (
     ensure (is_account c to) ''to not a account'' (
     ensure (amnt > 0) ''cannot transfer negative hdd amount'' (
     ensure (is_hdd_amount_within_range amnt) ''magnitude of amount must be less than 2^62'' (
     ensure (length memo \<le> 256) ''memo has more than 256 bytes'' (
     let w = require_recipient to (require_recipient from w) in
     on_pool (\<lambda>db. rbind (debit_store from amnt db) (\<lambda>db. credit_store (current_time c) to amnt db)) w))))))"

definition sell_price :: "hdd_global_param \<Rightarrow> u64 \<Rightarrow> int \<Rightarrow> int result" where
  "sell_price p ratio amnt =
     f64_trunc_i64s (fmul (fmul (fmul (fdiv (f64_of_int amnt) (f64_of_int 10000))
       (fdiv (f64_of_u64 (hdd_price p)) (f64_of_u64 (yta_price p))))
       (fdiv (f64_of_u64 ratio) (f64_of_int 10000)))
       (fdiv (f64_of_u64 (dup_remove_dist_ratio p)) (f64_of_int 10000)))"

definition sellhdd :: "ctx \<Rightarrow> name \<Rightarrow> int \<Rightarrow> string \<Rightarrow> world \<Rightarrow> world result" where
  "sellhdd c user amnt memo w =
     require_auth c user (
     ensure (amnt > 0) ''cannot sell negative hdd amount'' (
     ensure (amnt \<le> max_buy_sell_hdd_amount) ''exceed single sale volume'' (
     ensure (is_hdd_amount_within_range amnt) ''magnitude of user hdd amount must be less than 2^62'' (
     fetch (userhdds (pool w)) user ''user not exists in userhdd table.'' (\<lambda>row.
     ensure (hdd_minerhdd row \<ge> amnt) ''hdd overdrawn.'' (
     let b = i64 (hdd_minerhdd row - amnt) in
     ensure (is_hdd_amount_within_range b) ''magnitude of user hdd_minerhdd must be less than 2^62'' (
     let w = w\<lparr>pool := put_user user (row\<lparr>hdd_minerhdd := b\<rparr>) (pool w)\<rparr>;
         p = gparams_get (pool w) in
     rbind (sell_price p (dup_remove_ratio p) amnt) (\<lambda>yta_amount.
     rbind (mk_asset yta_amount CORE_SYMBOL) (\<lambda>quant.
     rbind (send c hdd_pool_account (mk_act hddpoolexchg token_account (Tok (Transfer hddpoolexchg user quant memo))) w) (\<lambda>w.
     if user = ecologyfound then Inr w
     else if seconds c > 1605243600 then Inr w
     else if dup_remove_ratio p < 40000 then
       rbind (sell_price p (40000 - dup_remove_ratio p) amnt) (\<lambda>yta_amount2.
       rbind (mk_asset yta_amount2 CORE_SYMBOL) (\<lambda>quant2.
       send c hdd_pool_account
         (mk_act hddsubsidyeu token_account (Tok (Transfer hddsubsidyeu user quant2 ''hdd subsidy''))) w))
     else Inr w))))))))))"

definition sethfee :: "ctx \<Rightarrow> name \<Rightarrow> int \<Rightarrow> name \<Rightarrow> world \<Rightarrow> world result" where
  "sethfee c user fee caller w =
     ensure (is_account c user) ''user invalidate'' (
     ensure (is_account c caller) ''caller not an account.'' (
     ensure (fee \<ge> 0) ''must use positive fee value'' (
     fetch (userhdds (pool w)) user ''user not exists in userhdd table'' (\<lambda>row.
     ensure (fee \<noteq> hdd_per_cycle_fee row) '' the fee is the same \<newline>'' (
     check_bp_account c w caller (
     ensure (is_hdd_amount_within_range fee) ''magnitude of fee must be less than 2^62'' (
     rbind (settle_fee (current_time c) row) (\<lambda>row'.
     Inr (w\<lparr>pool := put_user user (row'\<lparr>hdd_per_cycle_fee := fee\<rparr>) (pool w)\<rparr>)))))))))"

definition subbalance :: "ctx \<Rightarrow> name \<Rightarrow> int \<Rightarrow> u8 \<Rightarrow> name \<Rightarrow> world \<Rightarrow> world result" where
  "subbalance c user balance acc_type caller w =
     ensure (is_account c user) ''user invalidate'' (
     let body =
       ensure (is_hdd_amount_within_range balance) ''magnitude of hddbalance must be less than 2^62'' (
       ensure (balance \<ge> 0) ''must use positive balance value'' (
       fetch (userhdds (pool w)) user ''user not exists in userhdd table'' (\<lambda>row.
       check_bp_account c w caller (
       let b = i64 (hdd_storehhdd row - balance) in
       ensure (is_hdd_amount_within_range b) ''magnitude of user hddbalance must be less than 2^62'' (
       Inr (w\<lparr>pool := put_user user (row\<lparr>hdd_storehhdd := b\<rparr>) (pool w)\<rparr>)))))) in
     if acc_type = 2 then
       ensure (is_account c caller) ''caller not a account.'' (check_bp_account c w caller body)
     else require_auth c hdd_pool_account body)"

definition addhspace :: "ctx \<Rightarrow> name \<Rightarrow> u64 \<Rightarrow> name \<Rightarrow> world \<Rightarrow> world result" where
  "addhspace c user space caller w =
     ensure (is_account c user) ''user invalidate'' (
     ensure (is_account c caller) ''caller not an account.'' (
     fetch (userhdds (pool w)) user ''user not exists in userhdd table'' (\<lambda>row.
     check_bp_account c w caller (
     let s = hdd_space_store row + space in
     ensure (s \<le> max_user_space) ''overflow max_userspace'' (
     Inr (w\<lparr>pool := put_user user (row\<lparr>hdd_space_store := s\<rparr>) (pool w)\<rparr>))))))"

definition subhspace :: "ctx \<Rightarrow> name \<Rightarrow> u64 \<Rightarrow> name \<Rightarrow> world \<Rightarrow> world result" where
  "subhspace c user space caller w =
     ensure (is_account c user) ''user invalidate'' (
     ensure (is_account c caller) ''caller not an account.'' (
     fetch (userhdds (pool w)) user ''user not exists in userhdd table'' (\<lambda>row.
     check_bp_account c w caller (
     let s = (if hdd_space_store row \<ge> space then hdd_space_store row - space else 0) in
     Inr (w\<lparr>pool := put_user user (row\<lparr>hdd_space_store := s\<rparr>) (pool w)\<rparr>)))))"

text \<open>The action is switched off by its first line.\<close>

definition fixownspace :: "ctx \<Rightarrow> name \<Rightarrow> u64 \<Rightarrow> world \<Rightarrow> world result" where
  "fixownspace c owner space w = ensure False ''not support now!'' (Inr w)"

fun pool_user_apply :: "ctx \<Rightarrow> pool_user_act \<Rightarrow> world \<Rightarrow> world result" where
  "pool_user_apply c (Getbalance u t x) w = getbalance c u t x w"
| "pool_user_apply c (Buyhdd f r a m) w = buyhdd c f r a m w"
| "pool_user_apply c (Transhdds f t a m) w = transhdds c f t a m w"
| "pool_user_apply c (Sellhdd u a m) w = sellhdd c u a m w"
| "pool_user_apply c (Sethfee u f x) w = sethfee c u f x w"
| "pool_user_apply c (Subbalance u b t x) w = subbalance c u b t x w"
| "pool_user_apply c (Addhspace u s x) w = addhspace c u s x w"
| "pool_user_apply c (Subhspace u s x) w = subhspace c u s x w"
| "pool_user_apply c (Calcprofit u) w = calcprofit c u w"
| "pool_user_apply c (Fixownspace u s) w = fixownspace c u s w"

subsection \<open>Sequencing\<close>

lemma on_pool_Inr [res_simps, simp]:
  "on_pool f w = Inr w' \<longleftrightarrow> (\<exists>db. f (pool w) = Inr db \<and> w' = w\<lparr>pool := db\<rparr>)"
  by (auto simp: on_pool_def)

subsection \<open>Accuracy of the balances\<close>

text \<open>What a rate per cycle yields over a number of milliseconds.\<close>

definition accrued :: "u64 \<Rightarrow> int \<Rightarrow> rat" where
  "accrued slot rate = of_int (uint slot) * of_int rate / 86400000"

lemma accrual_Fin:
  assumes f: "0 \<le> f" "f \<le> 2 ^ 63"
  shows "\<exists>y. fmul (fdiv (f64_of_u64 s) (f64_of_u64 fee_cycle)) (f64_of_int f) = Fin y
    \<and> fmul (fdiv (f64_of_u64 s) (f64_of_u64 fee_cycle)) (f64_of_int (- f)) = Fin (- y)
    \<and> 0 \<le> y \<and> \<bar>y - accrued s f\<bar> \<le> accrued s f / 2 ^ 50"
proof -
  let ?s = "of_int (uint s) :: rat" and ?f = "of_int f :: rat"
  define S where "S = rnd ?s"
  define t where "t = rnd (S / 86400000)"
  define F where "F = rnd ?f"
  define y where "y = rnd (t * F)"
  have c: "f64_of_u64 fee_cycle = Fin 86400000" by (simp add: f64_of_u64_def fee_cycle_def)
  have small: "(2::rat) powi (- 100) \<le> 1 / 86400000" by (simp add: power_int_minus)
  have S: "f64_of_u64 s = Fin S" "0 \<le> S" "S \<le> 2 ^ 64" using f64_of_uint [of s] by (simp_all add: f64_of_u64_def S_def)
  have t0: "0 \<le> t" "t \<le> 2 ^ 64"
    using S rnd_le_pow2 [of "S / 86400000" 64] by (simp_all add: t_def rnd_nonneg)
  have ft: "fdiv (f64_of_u64 s) (f64_of_u64 fee_cycle) = Fin t"
    using S c f64_of_rat_Fin [of "S / 86400000"] by (simp add: t_def)
  have f0: "0 \<le> ?f" "?f \<le> 2 ^ 63" using f of_int_le_iff [of f "2 ^ 63"] by simp_all
  have F0: "0 \<le> F" "F \<le> 2 ^ 63" using f0 rnd_le_pow2 [of ?f 63] by (simp_all add: F_def rnd_nonneg)
  have fF: "f64_of_int f = Fin F" "f64_of_int (- f) = Fin (- F)"
    using f f64_of_int_Fin [of f] f64_of_int_Fin [of "- f"] by (simp_all add: F_def rnd_minus)
  have "t * F \<le> 2 ^ 64 * 2 ^ 63" using t0 F0 by (intro mult_mono) simp_all
  then have tF: "0 \<le> t * F" "\<bar>t * F\<bar> \<le> 2 ^ 1000" using t0 F0 by simp_all
  have m: "fmul (Fin t) (Fin F) = Fin y" "fmul (Fin t) (Fin (- F)) = Fin (- y)"
    using tF f64_of_rat_Fin [of "t * F"] f64_of_rat_Fin [of "- (t * F)"] by (simp_all add: y_def rnd_minus)
  have "near 1 S ?s" unfolding S_def by (rule near_rnd_int) simp
  then have "near 1 (S / 86400000) (?s / 86400000)" by (rule near_div) simp
  moreover have "?s / 86400000 = 0 \<or> 2 powi (- 100) \<le> ?s / 86400000"
    using pos_ge_1 [of "uint s"] small by auto
  ultimately have "near (Suc 1) t (?s / 86400000)" unfolding t_def by (rule near_rnd) simp
  then have "near 2 t (?s / 86400000)" by (simp add: numeral_2_eq_2)
  moreover have "near 1 F ?f" unfolding F_def using f(1) by (rule near_rnd_int)
  ultimately have "near 3 (t * F) (accrued s f)"
    using near_mult [of 2 t "?s / 86400000" 1 F ?f] f0 by (simp add: accrued_def)
  moreover have a: "accrued s f = 0 \<or> 1 / 86400000 \<le> accrued s f"
    using pos_ge_1 [of "uint s * f"] f(1) by (auto simp: accrued_def)
  ultimately have "near 4 y (accrued s f)"
    using near_rnd [of 3 "t * F" "accrued s f"] small by (auto simp: y_def)
  moreover have "0 \<le> accrued s f" using a by auto
  ultimately show ?thesis
    using near_error [of 4 y "accrued s f"] m ft fF tF by (intro exI [of _ y]) (simp add: y_def rnd_nonneg)
qed

text \<open>The elapsed milliseconds of an accrual.\<close>

definition elapsed :: "u64 \<Rightarrow> u64 \<Rightarrow> u64" where
  "elapsed tl0 now = (if now \<le> tl0 then 0 else (now - tl0) div 1000)"

lemma calculate_fee_balance_effect:
  assumes fee: "0 \<le> fee" "fee \<le> max_hdd_amount" and old: "is_hdd_amount_within_range old"
    and run: "calculate_fee_balance old fee tl0 now = Inr new" and new: "is_hdd_amount_within_range new"
  shows "new \<le> old" and "\<bar>of_int (old - new) - accrued (elapsed tl0 now) fee\<bar> \<le> 1 + accrued (elapsed tl0 now) fee / 2 ^ 50"
proof -
  have "new \<le> old \<and> \<bar>of_int (old - new) - accrued (elapsed tl0 now) fee\<bar> \<le> 1 + accrued (elapsed tl0 now) fee / 2 ^ 50"
  proof (cases "now \<le> tl0")
    case True
    then have "new = old" using run by (simp add: calculate_fee_balance_def)
    then show ?thesis using True by (simp add: elapsed_def accrued_def)
  next
    case False
    let ?s = "(now - tl0) div 1000"
    have f63: "fee \<le> 2 ^ 63" using fee(2) by (simp add: max_hdd_amount_def)
    have "i64 (- fee) = - fee" using fee by (intro i64_bounds) (simp_all add: max_hdd_amount_def)
    then have fe: "i64 (0 - fee) = - fee" by simp
    obtain y where y: "fmul (fdiv (f64_of_u64 ?s) (f64_of_u64 fee_cycle)) (f64_of_int (- fee)) = Fin (- y)"
        "0 \<le> y" "\<bar>y - accrued ?s fee\<bar> \<le> accrued ?s fee / 2 ^ 50"
      using accrual_Fin [OF fee(1) f63] by blast
    obtain d where d: "f64_trunc_i64s (Fin (- y)) = Inr d" "new = i64 (old + d)"
      using run False fe y(1) by (auto simp: calculate_fee_balance_def Let_def)
    have d': "d = - rtrunc y" "- 9223372036854775808 \<le> - y"
      using d(1) floor_error(4) [OF y(2)] by (simp_all add: f64_trunc_i64s_Inr)
    have b: "0 \<le> rtrunc y" "rtrunc y \<le> 9223372036854775808"
      using floor_error(3) [OF y(2)] floor_error(1) [OF y(2)] d'(2) of_int_le_iff [of "rtrunc y" 9223372036854775808]
      by simp_all
    have n: "new = old - rtrunc y"
      using d(2) d'(1) b old new i64_bounds [of "old - rtrunc y"] i64_under [of "old - rtrunc y"]
      by (cases "- 9223372036854775808 \<le> old - rtrunc y")
         (simp_all add: is_hdd_amount_within_range_def max_hdd_amount_def)
    then show ?thesis
      using False y b floor_error [OF y(2)] rat_abs_diff [of "rtrunc y" y "accrued ?s fee" "accrued ?s fee / 2 ^ 50"]
      by (simp add: elapsed_def)
  qed
  then show "new \<le> old" and "\<bar>of_int (old - new) - accrued (elapsed tl0 now) fee\<bar> \<le> 1 + accrued (elapsed tl0 now) fee / 2 ^ 50"
    by simp_all
qed

lemma calculate_profit_balance_effect:
  assumes p: "0 \<le> profit" "profit \<le> max_hdd_amount" and old: "is_hdd_amount_within_range old"
    and run: "calculate_profit_balance old profit tl0 now dl = Inr (new, dl')" and new: "is_hdd_amount_within_range new"
  shows "dl' = (if dl = 0 then hddm_latest_stop_time else dl)" and "old \<le> new"
    and "\<bar>of_int (new - old) - accrued (elapsed tl0 (min now dl')) profit\<bar> \<le> 1 + accrued (elapsed tl0 (min now dl')) profit / 2 ^ 50"
proof -
  show dl': "dl' = (if dl = 0 then hddm_latest_stop_time else dl)"
    using run by (auto simp: calculate_profit_balance_def get_newmodel_start_time_def Let_def split: if_splits)
  have ct: "(if dl' < now then dl' else now) = min now dl'" by (auto simp: min_def)
  have r: "(if min now dl' \<le> tl0 then Inr (old, dl')
      else rbind (f64_trunc_i64s (fmul (fdiv (f64_of_u64 ((min now dl' - tl0) div 1000)) (f64_of_u64 fee_cycle)) (f64_of_int profit)))
        (\<lambda>delta. Inr (i64 (old + delta), dl'))) = Inr (new, dl')"
    using run unfolding calculate_profit_balance_def Let_def get_newmodel_start_time_def dl' [symmetric] ct .
  have "old \<le> new \<and> \<bar>of_int (new - old) - accrued (elapsed tl0 (min now dl')) profit\<bar> \<le> 1 + accrued (elapsed tl0 (min now dl')) profit / 2 ^ 50"
  proof (cases "min now dl' \<le> tl0")
    case True
    then have "new = old" using r by simp
    then show ?thesis using True by (simp add: elapsed_def accrued_def)
  next
    case False
    let ?s = "(min now dl' - tl0) div 1000"
    have f63: "profit \<le> 2 ^ 63" using p(2) by (simp add: max_hdd_amount_def)
    obtain y where y: "fmul (fdiv (f64_of_u64 ?s) (f64_of_u64 fee_cycle)) (f64_of_int profit) = Fin y"
        "0 \<le> y" "\<bar>y - accrued ?s profit\<bar> \<le> accrued ?s profit / 2 ^ 50"
      using accrual_Fin [OF p(1) f63] by blast
    have d: "y < 9223372036854775808" "new = i64 (old + rtrunc y)"
      using r False y(1) by (auto simp: f64_trunc_i64s_Inr)
    have b: "0 \<le> rtrunc y" "rtrunc y \<le> 9223372036854775808"
      using floor_error(3) [OF y(2)] floor_error(1) [OF y(2)] d(1) of_int_le_iff [of "rtrunc y" 9223372036854775808]
      by simp_all
    have "new = old + rtrunc y"
      using d(2) b old new i64_bounds [of "old + rtrunc y"] i64_over [of "old + rtrunc y"]
      by (cases "old + rtrunc y < 9223372036854775808")
         (simp_all add: is_hdd_amount_within_range_def max_hdd_amount_def)
    then show ?thesis
      using False y b floor_error [OF y(2)] rat_abs_diff [of "rtrunc y" y "accrued ?s profit" "accrued ?s profit / 2 ^ 50"]
      by (simp add: elapsed_def)
  qed
  then show "old \<le> new"
    and "\<bar>of_int (new - old) - accrued (elapsed tl0 (min now dl')) profit\<bar> \<le> 1 + accrued (elapsed tl0 (min now dl')) profit / 2 ^ 50"
    by simp_all
qed

text \<open>The miner gets nine tenths of the gain, up to rounding, and never more than all of it.\<close>

lemma miner_share_effect:
  assumes old: "is_hdd_amount_within_range old" and new: "is_hdd_amount_within_range new" and le: "old \<le> new"
  shows "\<exists>b. miner_share old new = Inr b \<and> old \<le> b \<and> b \<le> new
    \<and> \<bar>of_int (b - old) - 9 / 10 * of_int (new - old)\<bar> \<le> 1 + of_int (new - old) / (2 ^ 50 :: rat)"
proof -
  define d where "d = new - old"
  define D where "D = rnd (of_int d)"
  define P where "P = rnd (9 / 10)"
  define y where "y = rnd (P * D)"
  have d: "0 \<le> d" "d < 9223372036854775808"
    using old new le by (simp_all add: d_def is_hdd_amount_within_range_def max_hdd_amount_def)
  then have id: "i64 d = d" by (intro i64_bounds) simp_all
  have rd: "0 \<le> (of_int d :: rat)" "(of_int d :: rat) < 9223372036854775808"
    using d of_int_less_iff [of d 9223372036854775808] by simp_all
  have D: "0 \<le> D" "D \<le> 2 ^ 63" using rd rnd_le_pow2 [of "of_int d" 63] by (simp_all add: D_def rnd_nonneg)
  have P: "profit_percent = Fin P" "0 \<le> P" "P \<le> 1"
    using rnd_01 [of "9 / 10"] f64_of_rat_01 [of "9 / 10"] by (simp_all add: profit_percent_def P_def)
  have "P * D \<le> 1 * 2 ^ 63" using D P by (intro mult_mono) simp_all
  then have PD: "0 \<le> P * D" "\<bar>P * D\<bar> \<le> 2 ^ 1000" using D P by simp_all
  have m: "fmul profit_percent (f64_of_int d) = Fin y"
    using f64_of_int_Fin [of d] d f64_of_rat_Fin [OF PD(2)] unfolding P(1) by (simp add: D_def [symmetric] y_def)
  have "near (Suc 0) P (9 / 10)" unfolding P_def
    by (rule near_rnd [OF near_refl]) (simp_all add: power_int_minus)
  moreover have "near 1 D (of_int d)" unfolding D_def using d(1) by (rule near_rnd_int)
  ultimately have "near 2 (P * D) (9 / 10 * of_int d)"
    using near_mult [of "Suc 0" P "9 / 10" 1 D "of_int d"] rd by (simp add: numeral_2_eq_2)
  moreover have "9 / 10 * (of_int d :: rat) = 0 \<or> 2 powi (- 100) \<le> 9 / 10 * (of_int d :: rat)"
    using pos_ge_1 [OF d(1)] by (auto simp: power_int_minus)
  ultimately have "near (Suc 2) y (9 / 10 * of_int d)" unfolding y_def by (rule near_rnd) simp
  then have ye: "\<bar>y - 9 / 10 * of_int d\<bar> \<le> 9 / 10 * of_int d / 2 ^ 50"
    by (rule near_error) (use rd in simp_all)
  have y0: "0 \<le> y" using PD by (simp add: y_def rnd_nonneg)
  have "y \<le> 9 / 10 * of_int d + 9 / 10 * of_int d / 2 ^ 50" using ye by linarith
  also have "\<dots> = (9 / 10 + 9 / 10 / 2 ^ 50) * of_int d" by (simp add: algebra_simps)
  also have "\<dots> \<le> 1 * of_int d" using rd(1) by (intro mult_right_mono) simp_all
  finally have yd: "y \<le> of_int d" by simp
  have x: "0 \<le> rtrunc y" "rtrunc y \<le> d" using rtrunc_bounds [OF y0, of d] yd by simp_all
  have run: "miner_share old new = Inr (i64 (rtrunc y + old))"
    using m id y0 yd rd by (simp add: miner_share_def d_def [symmetric])
  have e: "i64 (rtrunc y + old) = rtrunc y + old"
    using x old new by (intro i64_bounds) (simp_all add: d_def is_hdd_amount_within_range_def max_hdd_amount_def)
  have "\<bar>of_int (rtrunc y) - 9 / 10 * of_int d\<bar> \<le> 1 + 9 / 10 * of_int d / (2 ^ 50 :: rat)"
    using rat_abs_diff [OF floor_error(1) [OF y0] floor_error(2) [OF y0] ye] by simp
  also have "\<dots> \<le> 1 + of_int d / 2 ^ 50" using rd by simp
  finally show ?thesis using run e x by (intro exI [of _ "rtrunc y + old"]) (simp add: d_def)
qed

subsection \<open>The profit of a space\<close>

lemma const_cycle_year:
  "f64_of_u64 fee_cycle = Fin 86400000" "f64_of_u64 milliseconds_in_one_year = Fin 31536000000"
  "f64_of_u64 one_gb = Fin 65536"
  using f64_of_int_exact [of 31536000000]
  by (simp_all add: f64_of_u64_def fee_cycle_def milliseconds_in_one_year_def one_gb_def)

lemma cycle_profit_effect:
  assumes s: "space \<le> max_profit_space"
  shows "\<exists>p. cycle_profit space = Inr p \<and> 0 \<le> p \<and> p \<le> max_hdd_amount
    \<and> (space = 0 \<longrightarrow> p = 0) \<and> (one_gb \<le> space \<longrightarrow> 0 < p)
    \<and> \<bar>of_int p - of_int (uint space) / 65536 / 365 * 100000000\<bar> \<le> 1 + of_int (uint space) / 65536 / 365 * 100000000 / (2 ^ 50 :: rat)"
proof -
  let ?s = "of_int (uint space) :: rat"
  define S where "S = rnd ?s"
  define a where "a = rnd (S / 65536)"
  define q where "q = rnd (1 / 365)"
  define m where "m = rnd (a * q)"
  define y where "y = rnd (m * 100000000)"
  have su: "uint space \<le> 34359738368000" using s by (simp add: max_profit_space_def word_le_def)
  then have s0: "0 \<le> ?s" "?s \<le> 34359738368000" using of_int_le_iff [of "uint space" 34359738368000] by simp_all
  have S: "f64_of_u64 space = Fin S" "0 \<le> S" "S \<le> 2 ^ 45"
    using f64_of_uint [of space] s0 rnd_le_pow2 [of ?s 45] by (simp_all add: f64_of_u64_def S_def)
  have a: "0 \<le> a" "a \<le> 2 ^ 29" using S rnd_le_pow2 [of "S / 65536" 29] by (simp_all add: a_def rnd_nonneg)
  have q: "0 \<le> q" "q \<le> 1" using rnd_01 [of "1 / 365"] by (simp_all add: q_def)
  have aq: "0 \<le> a * q" "a * q \<le> 2 ^ 29" using a q mult_mono [of a "2 ^ 29" q 1] by simp_all
  have m: "0 \<le> m" "m \<le> 2 ^ 29" using aq rnd_le_pow2 [of "a * q" 29] by (simp_all add: m_def rnd_nonneg)
  have mm: "0 \<le> m * 100000000" "m * 100000000 \<le> 2 ^ 61" using m by simp_all
  have y: "0 \<le> y" "y \<le> 2 ^ 61" using mm rnd_le_pow2 [of "m * 100000000" 61] by (simp_all add: y_def rnd_nonneg)
  have fin: "\<And>x :: rat. 0 \<le> x \<Longrightarrow> x \<le> 2 ^ 62 \<Longrightarrow> f64_of_rat x = Fin (rnd x)"
    by (intro f64_of_rat_Fin) (simp add: order_trans [OF _ power_increasing [of 62 1000]])
  have run: "cycle_profit space = Inr (rtrunc y)"
    using S a q aq m mm y fin [of "S / 65536"] fin [of "a * q"] fin [of "m * 100000000"] fin [of "1 / 365"]
    by (simp add: cycle_profit_def const_cycle_year a_def [symmetric] q_def [symmetric] m_def [symmetric] y_def [symmetric])
  define e where "e = ?s / 65536 / 365 * 100000000"
  have small: "\<And>x :: rat. 1 / 2 ^ 99 \<le> x \<Longrightarrow> 2 powi (- 100) \<le> x" by (simp add: power_int_minus)
  have sc: "?s = 0 \<or> 1 \<le> ?s" by (rule pos_ge_1) simp
  have "near 1 S ?s" unfolding S_def by (rule near_rnd_int) simp
  then have "near 1 (S / 65536) (?s / 65536)" by (rule near_div) simp
  then have "near (Suc 1) a (?s / 65536)" unfolding a_def by (rule near_rnd) (use sc in \<open>auto intro!: small\<close>)
  moreover have "near (Suc 0) q (1 / 365)" unfolding q_def
    by (rule near_rnd [OF near_refl]) (auto intro!: small)
  ultimately have "near (Suc 1 + Suc 0) (a * q) (?s / 65536 * (1 / 365))"
    by (rule near_mult) simp_all
  then have "near 3 (a * q) (?s / 65536 / 365)" by (simp add: eval_nat_numeral)
  then have "near (Suc 3) m (?s / 65536 / 365)" unfolding m_def by (rule near_rnd) (use sc in \<open>auto intro!: small\<close>)
  then have "near (Suc 3 + 0) (m * 100000000) e"
    unfolding e_def by (rule near_mult [OF _ near_refl]) simp_all
  then have "near (Suc (Suc 3 + 0)) y e" unfolding y_def
    by (rule near_rnd) (use sc in \<open>auto simp: e_def intro!: small\<close>)
  then have ye: "\<bar>y - e\<bar> \<le> e / 2 ^ 50" by (rule near_error) (simp_all add: e_def)
  have acc: "\<bar>of_int (rtrunc y) - e\<bar> \<le> 1 + e / 2 ^ 50"
    using rat_abs_diff [OF floor_error(1) [OF y(1)] floor_error(2) [OF y(1)] ye] .
  have "rtrunc y \<le> 2 ^ 61" using rtrunc_mono [of y "of_int (2 ^ 61)"] rtrunc_of_int [of "2 ^ 61"] y by simp
  then have "0 \<le> rtrunc y" "rtrunc y \<le> max_hdd_amount"
    using floor_error(3) [OF y(1)] by (simp_all add: max_hdd_amount_def)
  moreover have "space = 0 \<longrightarrow> rtrunc y = 0"
    by (simp add: y_def m_def a_def S_def rtrunc_def)
  moreover have "one_gb \<le> space \<longrightarrow> 0 < rtrunc y"
  proof
    assume "one_gb \<le> space"
    then have "65536 \<le> uint space" by (simp add: one_gb_def word_le_def)
    then have "65536 \<le> ?s" using of_int_le_iff [of 65536 "uint space"] by simp
    then have "273972 \<le> e" by (simp add: e_def)
    moreover have "e - e / 2 ^ 50 \<le> y" using ye by linarith
    ultimately have "1 \<le> y" by simp
    then show "0 < rtrunc y" using rtrunc_mono [of 1 y] rtrunc_of_int [of 1] by simp
  qed
  ultimately show ?thesis using run acc by (auto simp: e_def)
qed

subsection \<open>The invariant of the accounts\<close>

definition user_ok :: "userhdd \<Rightarrow> bool" where
  "user_ok row \<longleftrightarrow> is_hdd_amount_within_range (hdd_storehhdd row)
     \<and> 0 \<le> hdd_per_cycle_fee row \<and> hdd_per_cycle_fee row \<le> max_hdd_amount
     \<and> hdd_space_store row \<le> max_user_space
     \<and> 0 \<le> hdd_minerhdd row \<and> hdd_minerhdd row \<le> max_hdd_amount
     \<and> hdd_space_profit row \<le> max_profit_space
     \<and> cycle_profit (hdd_space_profit row) = Inr (hdd_per_cycle_profit row)"

definition users_inv :: "pool_db \<Rightarrow> bool" where
  "users_inv db \<longleftrightarrow> twf (userhdds db) \<and> (\<forall>u row. map_of (userhdds db) u = Some row \<longrightarrow> user_ok row)
     \<and> gusercount db = Some (of_nat (length (userhdds db)))"

lemma users_invD: "users_inv db \<Longrightarrow> map_of (userhdds db) u = Some row \<Longrightarrow> user_ok row"
  by (simp add: users_inv_def)

lemma user_ok_profit:
  assumes "user_ok row"
  shows "0 \<le> hdd_per_cycle_profit row" "hdd_per_cycle_profit row \<le> max_hdd_amount"
    "is_hdd_amount_within_range (hdd_minerhdd row)"
  using assms cycle_profit_effect [of "hdd_space_profit row"]
  by (auto simp: user_ok_def is_hdd_amount_within_range_def max_hdd_amount_def)

text \<open>What is read of the accounts by the rest of the contract: the space under production.\<close>

definition space_of :: "pool_db \<Rightarrow> name \<Rightarrow> u64 option" where
  "space_of db u = map_option hdd_space_profit (map_of (userhdds db) u)"

lemma put_user_effect:
  assumes "users_inv db" and "map_of (userhdds db) u = Some r" and "user_ok row"
  shows "users_inv (put_user u row db)"
    and "space_of (put_user u row db) = (space_of db)(u \<mapsto> hdd_space_profit row)"
  using assms by (auto simp: users_inv_def put_user_def length_tput space_of_def fun_eq_iff)

lemma put_user_frame [frame_simps, simp]:
  "maccounts (put_user u row db) = maccounts db" "storepools (put_user u row db) = storepools db"
  "minerinfos (put_user u row db) = minerinfos db" "miners (put_user u row db) = miners db"
  "miner2s (put_user u row db) = miner2s db" "gminer2ex (put_user u row db) = gminer2ex db"
  "gcounter (put_user u row db) = gcounter db" "userhdds (put_user u row db) = tput u row (userhdds db)"
  by (simp_all add: put_user_def)

text \<open>An operation that works on the accounts only, up to global parameters.\<close>

definition same_miners :: "pool_db \<Rightarrow> pool_db \<Rightarrow> bool" where
  "same_miners db db' \<longleftrightarrow> maccounts db' = maccounts db \<and> storepools db' = storepools db
     \<and> minerinfos db' = minerinfos db \<and> miners db' = miners db \<and> miner2s db' = miner2s db
     \<and> gminer2ex db' = gminer2ex db \<and> gcounter db' = gcounter db
     \<and> mscore1s db' = mscore1s db \<and> mscore2s db' = mscore2s db \<and> gmscore2ex db' = gmscore2ex db"

lemma same_miners_refl [simp]: "same_miners db db"
  by (simp add: same_miners_def)

lemma same_miners_trans: "same_miners a b \<Longrightarrow> same_miners b d \<Longrightarrow> same_miners a d"
  by (simp add: same_miners_def)

lemma same_miners_put_user [simp]: "same_miners db (put_user u row db)"
  by (simp add: same_miners_def put_user_def)

lemma new_user_hdd_effect:
  assumes inv: "users_inv db" and b: "is_hdd_amount_within_range b" and run: "new_user_hdd now u b db = Inr db'"
  shows "users_inv db'" and "space_of db' = (space_of db)(u \<mapsto> 0)" and "same_miners db db'"
    and "map_of (userhdds db) u = None"
    and "tsum (\<lambda>_. hdd_storehhdd) (userhdds db') = tsum (\<lambda>_. hdd_storehhdd) (userhdds db) + b"
proof -
  have p: "cycle_profit 0 = Inr 0" using cycle_profit_effect [of 0] by (auto simp: max_profit_space_def)
  let ?row = "\<lparr>hdd_storehhdd = b, hdd_per_cycle_fee = 0, hdd_space_store = 0, last_hddstore_time = now, hdd_minerhdd = 0,
     hdd_per_cycle_profit = 0, hdd_space_profit = 0, last_hddprofit_time = now\<rparr>"
  have ok: "user_ok ?row"
    using b p by (simp add: user_ok_def max_hdd_amount_def max_user_space_def max_profit_space_def)
  show "map_of (userhdds db) u = None" using run by (auto simp: new_user_hdd_def)
  then show "users_inv db'" "space_of db' = (space_of db)(u \<mapsto> 0)" "same_miners db db'"
    "tsum (\<lambda>_. hdd_storehhdd) (userhdds db') = tsum (\<lambda>_. hdd_storehhdd) (userhdds db) + b"
    using inv run ok
    by (auto simp: new_user_hdd_def users_inv_def length_tput space_of_def fun_eq_iff same_miners_def tbl.total_put
        split: if_splits)
qed

lemma credit_ecology_effect:
  assumes inv: "users_inv db" and x: "in_i64 x" and run: "credit_ecology x db = Inr db'"
  shows "users_inv db'" and "space_of db' = space_of db" and "same_miners db db'"
    and "tsum (\<lambda>_. hdd_minerhdd) (userhdds db') = tsum (\<lambda>_. hdd_minerhdd) (userhdds db) + max 0 x"
proof -
  have "users_inv db' \<and> space_of db' = space_of db \<and> same_miners db db'
    \<and> tsum (\<lambda>_. hdd_minerhdd) (userhdds db') = tsum (\<lambda>_. hdd_minerhdd) (userhdds db) + max 0 x"
  proof (cases "x > 0")
    case True
    then obtain row where row: "map_of (userhdds db) ecologyfound = Some row"
        and r: "is_hdd_amount_within_range (i64 (hdd_minerhdd row + x))"
        and db': "db' = put_user ecologyfound (row\<lparr>hdd_minerhdd := i64 (hdd_minerhdd row + x)\<rparr>) db"
      using run by (auto simp: credit_ecology_def Let_def put_user_def)
    have ok: "user_ok row" using users_invD [OF inv row] .
    have e: "i64 (hdd_minerhdd row + x) = hdd_minerhdd row + x"
      using ok r True x i64_bounds [of "hdd_minerhdd row + x"] i64_over [of "hdd_minerhdd row + x"]
      by (cases "hdd_minerhdd row + x < 9223372036854775808")
         (simp_all add: user_ok_def is_hdd_amount_within_range_def max_hdd_amount_def in_i64_def)
    have "user_ok (row\<lparr>hdd_minerhdd := hdd_minerhdd row + x\<rparr>)"
      using ok r True e by (simp add: user_ok_def is_hdd_amount_within_range_def)
    moreover have "(space_of db)(ecologyfound \<mapsto> hdd_space_profit row) = space_of db"
      using row by (auto simp: space_of_def)
    moreover have "twf (userhdds db)" using inv by (simp add: users_inv_def)
    ultimately show ?thesis
      using put_user_effect [OF inv row] row True unfolding db' e by (simp add: tbl.total_put)
  next
    case False
    then show ?thesis using run inv by (simp add: credit_ecology_def)
  qed
  then show "users_inv db'" and "space_of db' = space_of db" and "same_miners db db'"
    and "tsum (\<lambda>_. hdd_minerhdd) (userhdds db') = tsum (\<lambda>_. hdd_minerhdd) (userhdds db) + max 0 x" by simp_all
qed

text \<open>Settling the profit: what the account and the fund get together is the gain of the account.\<close>

lemma settle_profit_effect:
  assumes ok: "user_ok row" and run: "settle_profit now dl row = Inr (row', eco)"
  shows "user_ok row'" and "hdd_space_profit row' = hdd_space_profit row" and "0 \<le> eco" and "in_i64 eco"
    and "hdd_minerhdd row \<le> hdd_minerhdd row'"
    and "hdd_storehhdd row' = hdd_storehhdd row"
    and "\<exists>gain. calculate_profit_balance (hdd_minerhdd row) (hdd_per_cycle_profit row) (last_hddprofit_time row) now dl
          = Inr (hdd_minerhdd row + gain, if dl = 0 then hddm_latest_stop_time else dl)
        \<and> hdd_minerhdd row' + eco = hdd_minerhdd row + gain"
proof -
  note p = user_ok_profit [OF ok]
  obtain new dl' b where c: "calculate_profit_balance (hdd_minerhdd row) (hdd_per_cycle_profit row) (last_hddprofit_time row) now dl = Inr (new, dl')"
      and r: "is_hdd_amount_within_range new" and b: "miner_share (hdd_minerhdd row) new = Inr b"
      and row': "row' = row\<lparr>hdd_minerhdd := b, last_hddprofit_time := now\<rparr>" "eco = i64 (new - b)"
    using run by (auto simp: settle_profit_def)
  note e = calculate_profit_balance_effect [OF p(1,2,3) c r]
  have b': "hdd_minerhdd row \<le> b" "b \<le> new" using miner_share_effect [OF p(3) r e(2)] b by auto
  have "i64 (new - b) = new - b"
    using b' ok r by (intro i64_bounds) (simp_all add: user_ok_def is_hdd_amount_within_range_def max_hdd_amount_def)
  then show "user_ok row'" "hdd_space_profit row' = hdd_space_profit row" "0 \<le> eco" "in_i64 eco"
      "hdd_minerhdd row \<le> hdd_minerhdd row'" "hdd_storehhdd row' = hdd_storehhdd row"
    using b' ok r row' in_i64_i64 [of "new - b"] by (simp_all add: user_ok_def is_hdd_amount_within_range_def)
  show "\<exists>gain. calculate_profit_balance (hdd_minerhdd row) (hdd_per_cycle_profit row) (last_hddprofit_time row) now dl
          = Inr (hdd_minerhdd row + gain, if dl = 0 then hddm_latest_stop_time else dl)
        \<and> hdd_minerhdd row' + eco = hdd_minerhdd row + gain"
    using c e(1) row' \<open>i64 (new - b) = new - b\<close> by (intro exI [of _ "new - hdd_minerhdd row"]) simp
qed

text \<open>The instant up to which profit is counted.\<close>

definition profit_until :: "u64 \<Rightarrow> u64 \<Rightarrow> u64" where
  "profit_until now dl = min now (if dl = 0 then hddm_latest_stop_time else dl)"

lemma settle_profit_split:
  assumes ok: "user_ok row" and run: "settle_profit now dl row = Inr (row', eco)"
  shows "\<exists>gain. hdd_minerhdd row' + eco = hdd_minerhdd row + gain \<and> 0 \<le> eco \<and> hdd_minerhdd row \<le> hdd_minerhdd row'
    \<and> \<bar>of_int (hdd_minerhdd row' - hdd_minerhdd row) - 9 / 10 * of_int gain\<bar> \<le> 1 + of_int gain / (2 ^ 50 :: rat)
    \<and> \<bar>of_int gain - accrued (elapsed (last_hddprofit_time row) (profit_until now dl)) (hdd_per_cycle_profit row)\<bar>
      \<le> 1 + accrued (elapsed (last_hddprofit_time row) (profit_until now dl)) (hdd_per_cycle_profit row) / 2 ^ 50"
proof -
  note p = user_ok_profit [OF ok]
  obtain new dl' where c: "calculate_profit_balance (hdd_minerhdd row) (hdd_per_cycle_profit row) (last_hddprofit_time row) now dl = Inr (new, dl')"
      and r: "is_hdd_amount_within_range new" and b: "miner_share (hdd_minerhdd row) new = Inr (hdd_minerhdd row')"
    using run by (auto simp: settle_profit_def)
  note e = calculate_profit_balance_effect [OF p(1,2,3) c r]
  obtain gain where g: "new = hdd_minerhdd row + gain" "hdd_minerhdd row' + eco = hdd_minerhdd row + gain"
    using settle_profit_effect(7) [OF ok run] c by auto
  show ?thesis
    using g settle_profit_effect(3,5) [OF ok run] miner_share_effect [OF p(3) r e(2)] b e(1,3)
    by (intro exI [of _ gain]) (simp add: profit_until_def)
qed

text \<open>The space of an owner after a change, which does not fall below zero.\<close>

definition moved_space :: "bool \<Rightarrow> u64 \<Rightarrow> u64 \<Rightarrow> u64" where
  "moved_space inc s delta = (if inc then s + delta else if s > delta then s - delta else 0)"

lemma chg_owner_space_Inr:
  assumes "chg_owner_space o' delta inc calc ct dl db = Inr db'" and "o' \<noteq> ecologyfound"
  obtains row r1 eco p where "map_of (userhdds db) o' = Some row"
    "(if calc then settle_profit ct dl row else Inr (row, 0)) = Inr (r1, eco)"
    "moved_space inc (hdd_space_profit r1) delta \<le> max_profit_space"
    "cycle_profit (moved_space inc (hdd_space_profit r1) delta) = Inr p"
    "credit_ecology eco (put_user o' (r1\<lparr>hdd_space_profit := moved_space inc (hdd_space_profit r1) delta,
       hdd_per_cycle_profit := p\<rparr>) db) = Inr db'"
proof -
  have e: "chg_owner_space o' delta inc calc ct dl db =
    fetch (userhdds db) o' ''no owner exists in userhdd table'' (\<lambda>row.
      rbind (if calc then settle_profit ct dl row else Inr (row, 0)) (\<lambda>(row, eco).
      ensure (moved_space inc (hdd_space_profit row) delta \<le> max_profit_space) ''execeed max profie space'' (
      rbind (cycle_profit (moved_space inc (hdd_space_profit row) delta)) (\<lambda>p.
      credit_ecology eco (put_user o' (row\<lparr>hdd_space_profit := moved_space inc (hdd_space_profit row) delta,
        hdd_per_cycle_profit := p\<rparr>) db)))))"
    using assms(2) by (simp add: chg_owner_space_def Let_def put_user_def moved_space_def)
  show ?thesis using assms(1) that unfolding e by (auto simp del: if_split)
qed

lemma chg_owner_space_effect:
  assumes inv: "users_inv db" and run: "chg_owner_space o' delta inc calc ct dl db = Inr db'"
  shows "users_inv db'" and "same_miners db db'"
    and "o' = ecologyfound \<Longrightarrow> db' = db"
    and "o' \<noteq> ecologyfound \<Longrightarrow> \<exists>s. space_of db o' = Some s \<and> space_of db' = (space_of db)(o' \<mapsto> moved_space inc s delta)
      \<and> moved_space inc s delta \<le> max_profit_space"
proof -
  have "users_inv db' \<and> same_miners db db' \<and> (o' = ecologyfound \<longrightarrow> db' = db)
    \<and> (o' \<noteq> ecologyfound \<longrightarrow> (\<exists>s. space_of db o' = Some s \<and> space_of db' = (space_of db)(o' \<mapsto> moved_space inc s delta)
      \<and> moved_space inc s delta \<le> max_profit_space))"
  proof (cases "o' = ecologyfound")
    case True
    then show ?thesis using run inv by (simp add: chg_owner_space_def)
  next
    case False
    obtain row r1 eco p where row: "map_of (userhdds db) o' = Some row"
        and st: "(if calc then settle_profit ct dl row else Inr (row, 0)) = Inr (r1, eco)"
        and n: "moved_space inc (hdd_space_profit r1) delta \<le> max_profit_space"
        and p: "cycle_profit (moved_space inc (hdd_space_profit r1) delta) = Inr p"
        and cr: "credit_ecology eco (put_user o' (r1\<lparr>hdd_space_profit := moved_space inc (hdd_space_profit r1) delta,
          hdd_per_cycle_profit := p\<rparr>) db) = Inr db'"
      using chg_owner_space_Inr [OF run False] .
    have ok: "user_ok row" using users_invD [OF inv row] .
    have r1: "user_ok r1" "hdd_space_profit r1 = hdd_space_profit row" "in_i64 eco"
      using st settle_profit_effect [OF ok] ok by (auto simp: in_i64_def split: if_splits)
    have ok2: "user_ok (r1\<lparr>hdd_space_profit := moved_space inc (hdd_space_profit r1) delta, hdd_per_cycle_profit := p\<rparr>)"
      using r1 n p by (simp add: user_ok_def)
    note pu = put_user_effect [OF inv row ok2]
    note ce = credit_ecology_effect [OF pu(1) r1(3) cr]
    have "space_of db o' = Some (hdd_space_profit r1)" using row r1(2) by (simp add: space_of_def)
    then show ?thesis using False ce pu(2) n same_miners_trans [OF same_miners_put_user ce(3)] by simp
  qed
  then show "users_inv db'" and "same_miners db db'"
    and "o' = ecologyfound \<Longrightarrow> db' = db"
    and "o' \<noteq> ecologyfound \<Longrightarrow> \<exists>s. space_of db o' = Some s \<and> space_of db' = (space_of db)(o' \<mapsto> moved_space inc s delta)
      \<and> moved_space inc s delta \<le> max_profit_space" by blast+
qed

subsection \<open>Every action on accounts keeps the invariant\<close>

definition store_total :: "pool_db \<Rightarrow> int" where
  "store_total db = tsum (\<lambda>_. hdd_storehhdd) (userhdds db)"

text \<open>The spaces of the owners stay as they are; a new account has none.\<close>

definition same_spaces :: "pool_db \<Rightarrow> pool_db \<Rightarrow> bool" where
  "same_spaces db db' \<longleftrightarrow> (\<forall>u. space_of db' u = space_of db u \<or> space_of db u = None \<and> space_of db' u = Some 0)"

lemma same_spaces_refl [simp]: "same_spaces db db"
  by (simp add: same_spaces_def)

lemma same_spaces_trans: "same_spaces a b \<Longrightarrow> same_spaces b d \<Longrightarrow> same_spaces a d"
  unfolding same_spaces_def by (metis option.distinct(1))

lemma hdd_range_add:
  assumes "is_hdd_amount_within_range a" "is_hdd_amount_within_range b"
  shows "i64 (a + b) = a + b" "i64 (a - b) = a - b"
  using assms by (auto simp: is_hdd_amount_within_range_def max_hdd_amount_def intro!: i64_bounds)

lemma put_user_keep:
  assumes "users_inv db" and "map_of (userhdds db) u = Some row" and "user_ok row'" and "hdd_space_profit row' = hdd_space_profit row"
  shows "users_inv (put_user u row' db)" and "same_spaces db (put_user u row' db)"
    and "store_total (put_user u row' db) = store_total db - hdd_storehhdd row + hdd_storehhdd row'"
  using assms put_user_effect [OF assms(1-3)]
  by (auto simp: same_spaces_def space_of_def users_inv_def store_total_def tbl.total_put)

lemma settle_fee_effect:
  assumes ok: "user_ok row" and run: "settle_fee now row = Inr row'"
  shows "user_ok row'" and "hdd_space_profit row' = hdd_space_profit row" and "hdd_storehhdd row' \<le> hdd_storehhdd row"
    and "\<exists>b. row' = row\<lparr>hdd_storehhdd := b, last_hddstore_time := now\<rparr>"
proof -
  obtain b where b: "calculate_fee_balance (hdd_storehhdd row) (hdd_per_cycle_fee row) (last_hddstore_time row) now = Inr b"
      "is_hdd_amount_within_range b" "row' = row\<lparr>hdd_storehhdd := b, last_hddstore_time := now\<rparr>"
    using run by (auto simp: settle_fee_def)
  have "b \<le> hdd_storehhdd row" using ok calculate_fee_balance_effect(1) [OF _ _ _ b(1,2)] by (simp add: user_ok_def)
  then show "user_ok row'" "hdd_space_profit row' = hdd_space_profit row" "hdd_storehhdd row' \<le> hdd_storehhdd row"
    "\<exists>b. row' = row\<lparr>hdd_storehhdd := b, last_hddstore_time := now\<rparr>"
    using b ok by (auto simp: user_ok_def)
qed

lemma credit_store_effect:
  assumes inv: "users_inv db" and x: "is_hdd_amount_within_range x" and run: "credit_store now u x db = Inr db'"
  shows "users_inv db'" and "same_miners db db'" and "same_spaces db db'" and "store_total db' = store_total db + x"
proof -
  have "users_inv db' \<and> same_miners db db' \<and> same_spaces db db' \<and> store_total db' = store_total db + x"
  proof (cases "map_of (userhdds db) u")
    case None
    then have r: "new_user_hdd now u x db = Inr db'" using run by (simp add: credit_store_def)
    note n = new_user_hdd_effect [OF inv x r]
    show ?thesis using n by (auto simp: same_spaces_def space_of_def [of db u] store_total_def)
  next
    case (Some row)
    have ok: "user_ok row" using users_invD [OF inv Some] .
    then have e: "i64 (hdd_storehhdd row + x) = hdd_storehhdd row + x" using x by (intro hdd_range_add) (simp_all add: user_ok_def)
    then have r: "is_hdd_amount_within_range (hdd_storehhdd row + x)"
        "db' = put_user u (row\<lparr>hdd_storehhdd := hdd_storehhdd row + x\<rparr>) db"
      using run Some by (auto simp: credit_store_def Let_def)
    have ok': "user_ok (row\<lparr>hdd_storehhdd := hdd_storehhdd row + x\<rparr>)" using ok r(1) by (simp add: user_ok_def)
    show ?thesis using put_user_keep [OF inv Some ok'] r(2) by simp
  qed
  then show "users_inv db'" and "same_miners db db'" and "same_spaces db db'" and "store_total db' = store_total db + x" by simp_all
qed

lemma debit_store_effect:
  assumes inv: "users_inv db" and x: "0 < x" "is_hdd_amount_within_range x" and run: "debit_store u x db = Inr db'"
  shows "users_inv db'" and "same_miners db db'" and "same_spaces db db'" and "store_total db' = store_total db - x"
    and "\<exists>row. map_of (userhdds db) u = Some row \<and> x \<le> hdd_storehhdd row"
proof -
  obtain row where row: "map_of (userhdds db) u = Some row" "x \<le> hdd_storehhdd row"
    using run by (auto simp: debit_store_def)
  have ok: "user_ok row" using users_invD [OF inv row(1)] .
  then have e: "i64 (hdd_storehhdd row - x) = hdd_storehhdd row - x" using x by (intro hdd_range_add) (simp_all add: user_ok_def)
  then have r: "is_hdd_amount_within_range (hdd_storehhdd row - x)"
      "db' = put_user u (row\<lparr>hdd_storehhdd := hdd_storehhdd row - x\<rparr>) db"
    using run row by (auto simp: debit_store_def Let_def)
  have ok': "user_ok (row\<lparr>hdd_storehhdd := hdd_storehhdd row - x\<rparr>)" using ok r(1) by (simp add: user_ok_def)
  show "users_inv db'" "same_miners db db'" "same_spaces db db'" "store_total db' = store_total db - x"
    using put_user_keep [OF inv row(1) ok'] r(2) by simp_all
  show "\<exists>row. map_of (userhdds db) u = Some row \<and> x \<le> hdd_storehhdd row" using row by blast
qed

definition keeps_accounts :: "pool_db \<Rightarrow> pool_db \<Rightarrow> bool" where
  "keeps_accounts db db' \<longleftrightarrow> users_inv db' \<and> same_miners db db' \<and> same_spaces db db'"

lemma keeps_put_user:
  assumes "users_inv db" and "map_of (userhdds db) u = Some row" and "user_ok row'" and "hdd_space_profit row' = hdd_space_profit row"
  shows "keeps_accounts db (put_user u row' db)"
  using put_user_keep [OF assms] by (simp add: keeps_accounts_def)

lemma getbalance_effect:
  assumes inv: "users_inv (pool w)" and run: "getbalance c u t x w = Inr w'"
  shows "keeps_accounts (pool w) (pool w')"
proof -
  let ?body = "case map_of (userhdds (pool w)) u of None \<Rightarrow> Inr w
    | Some row \<Rightarrow> rbind (settle_fee (current_time c) row) (\<lambda>row'. Inr (w\<lparr>pool := put_user u row' (pool w)\<rparr>))"
  have b: "?body = Inr w'" using run by (auto simp: getbalance_def Let_def split: if_splits)
  show ?thesis
  proof (cases "map_of (userhdds (pool w)) u")
    case None
    then show ?thesis using b inv by (auto simp: keeps_accounts_def)
  next
    case (Some row)
    then obtain row' where r: "settle_fee (current_time c) row = Inr row'" "w' = w\<lparr>pool := put_user u row' (pool w)\<rparr>"
      using b by auto
    show ?thesis using keeps_put_user [OF inv Some] settle_fee_effect [OF users_invD [OF inv Some] r(1)] r(2) by simp
  qed
qed

lemma sethfee_effect:
  assumes inv: "users_inv (pool w)" and run: "sethfee c u f x w = Inr w'"
  shows "keeps_accounts (pool w) (pool w')"
proof -
  obtain row row' where row: "map_of (userhdds (pool w)) u = Some row" "0 \<le> f" "is_hdd_amount_within_range f"
      and r: "settle_fee (current_time c) row = Inr row'" "w' = w\<lparr>pool := put_user u (row'\<lparr>hdd_per_cycle_fee := f\<rparr>) (pool w)\<rparr>"
    using run by (auto simp: sethfee_def)
  note s = settle_fee_effect [OF users_invD [OF inv row(1)] r(1)]
  have "user_ok (row'\<lparr>hdd_per_cycle_fee := f\<rparr>)" using s(1) row by (simp add: user_ok_def is_hdd_amount_within_range_def)
  then show ?thesis using keeps_put_user [OF inv row(1)] s(2) r(2) by simp
qed

lemma subbalance_effect:
  assumes inv: "users_inv (pool w)" and run: "subbalance c u b t x w = Inr w'"
  shows "keeps_accounts (pool w) (pool w')"
proof -
  obtain row where row: "map_of (userhdds (pool w)) u = Some row" "is_hdd_amount_within_range (i64 (hdd_storehhdd row - b))"
      "w' = w\<lparr>pool := put_user u (row\<lparr>hdd_storehhdd := i64 (hdd_storehhdd row - b)\<rparr>) (pool w)\<rparr>"
    using run by (auto simp: subbalance_def Let_def split: if_splits)
  have "user_ok (row\<lparr>hdd_storehhdd := i64 (hdd_storehhdd row - b)\<rparr>)"
    using users_invD [OF inv row(1)] row(2) by (simp add: user_ok_def)
  then show ?thesis using keeps_put_user [OF inv row(1)] row(3) by simp
qed

lemma put_space_store:
  assumes inv: "users_inv db" and row: "map_of (userhdds db) u = Some row" and n: "n \<le> max_user_space"
  shows "keeps_accounts db (put_user u (row\<lparr>hdd_space_store := n\<rparr>) db)"
  using keeps_put_user [OF inv row, of "row\<lparr>hdd_space_store := n\<rparr>"] users_invD [OF inv row] n by (simp add: user_ok_def)

lemma addhspace_effect:
  assumes inv: "users_inv (pool w)" and run: "addhspace c u s x w = Inr w'"
  shows "keeps_accounts (pool w) (pool w')"
  using run by (auto simp: addhspace_def Let_def intro!: put_space_store [OF inv])

lemma subhspace_effect:
  assumes inv: "users_inv (pool w)" and run: "subhspace c u s x w = Inr w'"
  shows "keeps_accounts (pool w) (pool w')"
proof -
  obtain row where row: "map_of (userhdds (pool w)) u = Some row"
      "w' = w\<lparr>pool := put_user u (row\<lparr>hdd_space_store := if s \<le> hdd_space_store row then hdd_space_store row - s else 0\<rparr>) (pool w)\<rparr>"
    using run by (auto simp: subhspace_def Let_def)
  have "(if s \<le> hdd_space_store row then hdd_space_store row - s else 0) \<le> max_user_space"
    using users_invD [OF inv row(1)] word_sub_le [of s "hdd_space_store row"]
    by (auto simp: user_ok_def max_user_space_def)
  then show ?thesis using put_space_store [OF inv row(1)] row(2) by simp
qed

lemma calcprofit_effect:
  assumes inv: "users_inv (pool w)" and run: "calcprofit c u w = Inr w'"
  shows "keeps_accounts (pool w) (pool w')"
proof (cases "u = ecologyfound")
  case True
  then show ?thesis using run inv by (auto simp: calcprofit_def keeps_accounts_def)
next
  case False
  then obtain row row' eco db where row: "map_of (userhdds (pool w)) u = Some row"
      and s: "settle_profit (current_time c) 0 row = Inr (row', eco)"
      and d: "credit_ecology eco (put_user u row' (pool w)) = Inr db" "w' = w\<lparr>pool := db\<rparr>"
    using run by (auto simp: calcprofit_def put_user_def)
  note sp = settle_profit_effect [OF users_invD [OF inv row] s]
  note k = keeps_put_user [OF inv row sp(1,2)]
  then have "users_inv (put_user u row' (pool w))" by (simp add: keeps_accounts_def)
  note ce = credit_ecology_effect [OF this sp(4) d(1)]
  show ?thesis using k ce d(2) same_miners_trans [OF same_miners_put_user ce(3)]
    by (simp add: keeps_accounts_def same_spaces_def)
qed

lemma buyhdd_effect:
  assumes inv: "users_inv (pool w)" and run: "buyhdd c f r x m w = Inr w'"
  shows "keeps_accounts (pool w) (pool w')"
    and "store_total (pool w') = store_total (pool w) + x"
    and "gparams (pool w') = Some ((gparams_get (pool w))\<lparr>hdd_counter := i64 (hdd_counter (gparams_get (pool w)) - x)\<rparr>)"
    and "min_buy_hdd_amount \<le> x" "x \<le> max_buy_sell_hdd_amount" "x \<le> hdd_counter (gparams_get (pool w))"
    and "\<exists>y. buy_price (gparams_get (pool w)) x = Inr y
       \<and> inlines w' = inlines w @ [mk_act f token_account (Tok (Transfer f hddpoolexchg \<lparr>amount = y, symbol = CORE_SYMBOL\<rparr> m))]"
proof -
  let ?p = "gparams_get (pool w)"
  let ?db = "(pool w)\<lparr>gparams := Some (?p\<lparr>hdd_counter := i64 (hdd_counter ?p - x)\<rparr>)\<rparr>"
  have bp: "buy_price (?p\<lparr>hdd_counter := i64 (hdd_counter ?p - x)\<rparr>) x = buy_price ?p x"
    by (simp add: buy_price_def)
  obtain y db where g: "min_buy_hdd_amount \<le> x" "x \<le> max_buy_sell_hdd_amount" "x \<le> hdd_counter ?p"
      "is_hdd_amount_within_range x"
      and y: "buy_price ?p x = Inr y"
      and c: "credit_store (current_time c) r x ?db = Inr db"
      and w': "pool w' = db" "inlines w' = inlines w @ [mk_act f token_account (Tok (Transfer f hddpoolexchg \<lparr>amount = y, symbol = CORE_SYMBOL\<rparr> m))]"
    using run bp by (auto simp: buyhdd_def Let_def)
  have inv': "users_inv ?db" using inv by (simp add: users_inv_def)
  note cs = credit_store_effect [OF inv' g(4) c]
  have gp: "gparams db = gparams ?db"
    using c by (auto simp: credit_store_def new_user_hdd_def put_user_def Let_def split: option.splits)
  show "keeps_accounts (pool w) (pool w')" "store_total (pool w') = store_total (pool w) + x"
    using cs w' by (simp_all add: keeps_accounts_def same_miners_def same_spaces_def space_of_def store_total_def)
  show "gparams (pool w') = Some (?p\<lparr>hdd_counter := i64 (hdd_counter ?p - x)\<rparr>)" using gp w' by simp
  show "min_buy_hdd_amount \<le> x" "x \<le> max_buy_sell_hdd_amount" "x \<le> hdd_counter ?p" using g by simp_all
  show "\<exists>y. buy_price ?p x = Inr y
       \<and> inlines w' = inlines w @ [mk_act f token_account (Tok (Transfer f hddpoolexchg \<lparr>amount = y, symbol = CORE_SYMBOL\<rparr> m))]"
    using y w' by auto
qed

lemma transhdds_effect:
  assumes inv: "users_inv (pool w)" and run: "transhdds c f t x m w = Inr w'"
  shows "keeps_accounts (pool w) (pool w')" and "store_total (pool w') = store_total (pool w)"
    and "0 < x" and "f \<in> set (auths c)" and "\<exists>row. map_of (userhdds (pool w)) f = Some row \<and> x \<le> hdd_storehhdd row"
proof -
  obtain d1 d2 where g: "0 < x" "is_hdd_amount_within_range x" "f \<in> set (auths c)"
      and d: "debit_store f x (pool w) = Inr d1" "credit_store (current_time c) t x d1 = Inr d2" "pool w' = d2"
    using run by (auto simp: transhdds_def Let_def)
  note a = debit_store_effect [OF inv g(1,2) d(1)]
  note b = credit_store_effect [OF a(1) g(2) d(2)]
  show "keeps_accounts (pool w) (pool w')" "store_total (pool w') = store_total (pool w)"
    using a b d(3) by (auto simp: keeps_accounts_def intro: same_miners_trans same_spaces_trans)
  show "0 < x" "f \<in> set (auths c)" "\<exists>row. map_of (userhdds (pool w)) f = Some row \<and> x \<le> hdd_storehhdd row"
    using g a(5) by simp_all
qed

text \<open>The storage balance of an account, zero if it has no row, and a transfer between two of them.\<close>

definition store_of :: "pool_db \<Rightarrow> name \<Rightarrow> int" where
  "store_of db n = (case map_of (userhdds db) n of None \<Rightarrow> 0 | Some row \<Rightarrow> hdd_storehhdd row)"

definition move_store :: "name \<Rightarrow> name \<Rightarrow> int \<Rightarrow> (name \<Rightarrow> int) \<Rightarrow> name \<Rightarrow> int" where
  "move_store from to x b = (let b' = b(from := b from - x) in b'(to := b' to + x))"

text \<open>Only the storage balances of the rows change.\<close>

definition only_store :: "pool_db \<Rightarrow> pool_db \<Rightarrow> bool" where
  "only_store db db' \<longleftrightarrow> (\<exists>u g. db' = db\<lparr>userhdds := u, gusercount := g\<rparr>)
     \<and> (\<forall>n row. map_of (userhdds db) n = Some row \<longrightarrow> map_of (userhdds db') n = Some (row\<lparr>hdd_storehhdd := store_of db' n\<rparr>))"

lemma only_store_trans: "only_store a b \<Longrightarrow> only_store b d \<Longrightarrow> only_store a d"
  unfolding only_store_def by fastforce

lemma only_store_put:
  assumes "map_of (userhdds db) u = Some row"
  shows "only_store db (put_user u (row\<lparr>hdd_storehhdd := b\<rparr>) db)" and "store_of (put_user u (row\<lparr>hdd_storehhdd := b\<rparr>) db) = (store_of db)(u := b)"
proof -
  have "put_user u (row\<lparr>hdd_storehhdd := b\<rparr>) db
      = db\<lparr>userhdds := tput u (row\<lparr>hdd_storehhdd := b\<rparr>) (userhdds db), gusercount := gusercount db\<rparr>" by (simp add: put_user_def)
  then have "\<exists>t g. put_user u (row\<lparr>hdd_storehhdd := b\<rparr>) db = db\<lparr>userhdds := t, gusercount := g\<rparr>" by blast
  moreover have "map_of (userhdds (put_user u (row\<lparr>hdd_storehhdd := b\<rparr>) db)) n = Some (r\<lparr>hdd_storehhdd := store_of (put_user u (row\<lparr>hdd_storehhdd := b\<rparr>) db) n\<rparr>)"
    if "map_of (userhdds db) n = Some r" for n r using that assms by (auto simp: store_of_def put_user_def)
  ultimately show "only_store db (put_user u (row\<lparr>hdd_storehhdd := b\<rparr>) db)" unfolding only_store_def by blast
  show "store_of (put_user u (row\<lparr>hdd_storehhdd := b\<rparr>) db) = (store_of db)(u := b)"
    by (simp add: store_of_def put_user_def fun_eq_iff)
qed

lemma debit_store_moves:
  assumes inv: "users_inv db" and x: "is_hdd_amount_within_range x" and run: "debit_store u x db = Inr db'"
  shows "store_of db' = (store_of db)(u := store_of db u - x)" and "x \<le> store_of db u" and "only_store db db'"
proof -
  obtain row where row: "map_of (userhdds db) u = Some row" "x \<le> hdd_storehhdd row"
      "db' = put_user u (row\<lparr>hdd_storehhdd := i64 (hdd_storehhdd row - x)\<rparr>) db"
    using run by (auto simp: debit_store_def Let_def)
  have "i64 (hdd_storehhdd row - x) = hdd_storehhdd row - x"
    using users_invD [OF inv row(1)] x by (intro hdd_range_add) (simp_all add: user_ok_def)
  then show "store_of db' = (store_of db)(u := store_of db u - x)" "x \<le> store_of db u" "only_store db db'"
    using only_store_put [OF row(1)] row by (simp_all add: store_of_def)
qed

lemma credit_store_moves:
  assumes inv: "users_inv db" and x: "is_hdd_amount_within_range x" and run: "credit_store now u x db = Inr db'"
  shows "store_of db' = (store_of db)(u := store_of db u + x)" and "only_store db db'"
proof -
  have "store_of db' = (store_of db)(u := store_of db u + x) \<and> only_store db db'"
  proof (cases "map_of (userhdds db) u")
    case None
    then show ?thesis using run
      by (auto simp: credit_store_def new_user_hdd_def store_of_def only_store_def fun_eq_iff)
  next
    case (Some row)
    have "i64 (hdd_storehhdd row + x) = hdd_storehhdd row + x"
      using users_invD [OF inv Some] x by (intro hdd_range_add) (simp_all add: user_ok_def)
    then have "db' = put_user u (row\<lparr>hdd_storehhdd := hdd_storehhdd row + x\<rparr>) db"
      using run Some by (auto simp: credit_store_def Let_def)
    then show ?thesis using only_store_put [OF Some] Some by (simp add: store_of_def [of db u])
  qed
  then show "store_of db' = (store_of db)(u := store_of db u + x)" and "only_store db db'" by simp_all
qed

lemma transhdds_moves:
  assumes inv: "users_inv (pool w)" and run: "transhdds c f t x m w = Inr w'"
  shows "store_of (pool w') = move_store f t x (store_of (pool w))" and "x \<le> store_of (pool w) f" and "only_store (pool w) (pool w')"
    and "w' = (require_recipient t (require_recipient f w))\<lparr>pool := pool w'\<rparr>"
proof -
  obtain d1 where g: "0 < x" "is_hdd_amount_within_range x"
      and d: "debit_store f x (pool w) = Inr d1" "credit_store (current_time c) t x d1 = Inr (pool w')"
      and w': "w' = (require_recipient t (require_recipient f w))\<lparr>pool := pool w'\<rparr>"
    using run by (auto simp: transhdds_def Let_def)
  note a = debit_store_moves [OF inv g(2) d(1)]
  note b = credit_store_moves [OF debit_store_effect(1) [OF inv g d(1)] g(2) d(2)]
  show "store_of (pool w') = move_store f t x (store_of (pool w))" using a(1) b(1) by (simp add: move_store_def Let_def)
  show "x \<le> store_of (pool w) f" "only_store (pool w) (pool w')" by (rule a(2), rule only_store_trans [OF a(3) b(2)])
  show "w' = (require_recipient t (require_recipient f w))\<lparr>pool := pool w'\<rparr>" by (rule w')
qed

lemma sellhdd_effect:
  assumes inv: "users_inv (pool w)" and run: "sellhdd c u x m w = Inr w'"
  shows "keeps_accounts (pool w) (pool w')"
    and "\<exists>row. map_of (userhdds (pool w)) u = Some row \<and> 0 < x \<and> x \<le> hdd_minerhdd row
       \<and> pool w' = put_user u (row\<lparr>hdd_minerhdd := hdd_minerhdd row - x\<rparr>) (pool w)"
proof -
  obtain row where row: "map_of (userhdds (pool w)) u = Some row" "0 < x" "x \<le> hdd_minerhdd row"
      "is_hdd_amount_within_range x"
      "pool w' = put_user u (row\<lparr>hdd_minerhdd := i64 (hdd_minerhdd row - x)\<rparr>) (pool w)"
    using run by (auto simp: sellhdd_def Let_def split: if_splits)
  have ok: "user_ok row" using users_invD [OF inv row(1)] .
  have e: "i64 (hdd_minerhdd row - x) = hdd_minerhdd row - x"
    using user_ok_profit(3) [OF ok] row(4) by (rule hdd_range_add)
  have "user_ok (row\<lparr>hdd_minerhdd := hdd_minerhdd row - x\<rparr>)" using ok row by (simp add: user_ok_def)
  then show "keeps_accounts (pool w) (pool w')" using keeps_put_user [OF inv row(1)] row(5) e by simp
  show "\<exists>row. map_of (userhdds (pool w)) u = Some row \<and> 0 < x \<and> x \<le> hdd_minerhdd row
       \<and> pool w' = put_user u (row\<lparr>hdd_minerhdd := hdd_minerhdd row - x\<rparr>) (pool w)" using row e by auto
qed

lemma pool_user_apply_effect:
  assumes inv: "users_inv (pool w)" and run: "pool_user_apply c a w = Inr w'"
  shows "keeps_accounts (pool w) (pool w')"
  using run getbalance_effect [OF inv] buyhdd_effect(1) [OF inv] transhdds_effect(1) [OF inv] sellhdd_effect(1) [OF inv]
    sethfee_effect [OF inv] subbalance_effect [OF inv] addhspace_effect [OF inv] subhspace_effect [OF inv] calcprofit_effect [OF inv]
  by (cases a) (auto simp: fixownspace_def)

text \<open>The tables the pool invariant speaks about.\<close>

definition same_core :: "pool_db \<Rightarrow> pool_db \<Rightarrow> bool" where
  "same_core db db' \<longleftrightarrow> userhdds db' = userhdds db \<and> gusercount db' = gusercount db \<and> maccounts db' = maccounts db
     \<and> storepools db' = storepools db \<and> minerinfos db' = minerinfos db \<and> miners db' = miners db
     \<and> miner2s db' = miner2s db \<and> gminer2ex db' = gminer2ex db \<and> gcounter db' = gcounter db"

end
