(* ===== verification/Hddpool_Miner.thy ===== *)
theory Hddpool_Miner
  imports Hddpool_Account
begin

unbundle bit_operations_syntax

text \<open>
  Miners and store pools of \<open>src/contracts/hddpool/hddpool.cpp\<close>: registration and
  removal of a miner, the production space of a miner and of its owner, the space
  quota of the store pools, and the compact table of internal identifiers.

  A miner has a row in the old table \<open>minerinfo\<close> and a row in the table \<open>miner\<close> of
  the new economic model, which the handlers keep in step.  Freed internal
  identifiers are chained in a free list inside the table \<open>miner2\<close> and reused.
\<close>

subsection \<open>The compact table of internal identifiers\<close>

definition miner2ex_default :: miner2ex where
  "miner2ex_default = \<lparr>mx_next_id = 1, mx_max_table_count = 0, mx_max_miner_count = 0\<rparr>"

definition insert_miner2 :: "u64 \<Rightarrow> pool_db \<Rightarrow> (pool_db \<times> u32) result" where
  "insert_miner2 minerid db =
     (let g = get_or_default (gminer2ex db) miner2ex_default;
          g = g\<lparr>mx_max_miner_count := mx_max_miner_count g + 1\<rparr>;
          next_id = mx_next_id g in
      if next_id = mx_max_table_count g + 1 then
        let g = g\<lparr>mx_max_table_count := mx_max_table_count g + 1, mx_next_id := mx_next_id g + 1\<rparr> in
        rbind (emplace next_id \<lparr>m2_minerid = minerid, m2_next_id = 0\<rparr> (miner2s db)) (\<lambda>t.
        Inr (db\<lparr>miner2s := t, gminer2ex := Some g\<rparr>, ucast next_id))
      else
        fetch (miner2s db) next_id ''can not find next_id'' (\<lambda>row.
        let g = g\<lparr>mx_next_id := m2_next_id row\<rparr>;
            t = tput next_id \<lparr>m2_minerid = minerid, m2_next_id = 0\<rparr> (miner2s db) in
        Inr (db\<lparr>miner2s := t, gminer2ex := Some g\<rparr>, ucast next_id)))"

definition del_miner2 :: "u64 \<Rightarrow> pool_db \<Rightarrow> pool_db result" where
  "del_miner2 internal_id db =
     (if internal_id = 0 then Inr db
      else
        case gminer2ex db of
          None \<Rightarrow> Inl (Eosio_assert ''miner2 table is empty'')
        | Some g \<Rightarrow>
            let g = g\<lparr>mx_max_miner_count := mx_max_miner_count g - 1\<rparr> in
            fetch (miner2s db) internal_id ''can not find next_id'' (\<lambda>row.
            let next_id = mx_next_id g;
                g = g\<lparr>mx_next_id := internal_id\<rparr>;
                t = tput internal_id \<lparr>m2_minerid = 0, m2_next_id = next_id\<rparr> (miner2s db) in
            Inr (db\<lparr>miner2s := t, gminer2ex := Some g\<rparr>)))"

text \<open>The registered space of the whole network, in gigabytes.\<close>

definition counterstat_default :: counterstat where
  "counterstat_default = \<lparr>total_space = 0, cs_reserved1 = 0, cs_reserved2 = 0, cs_reserved3 = 0\<rparr>"

definition chg_total_space :: "u64 \<Rightarrow> bool \<Rightarrow> pool_db \<Rightarrow> pool_db" where
  "chg_total_space space_delta is_increase db =
     (let g = get_or_default (gcounter db) counterstat_default;
          delta_gb = drop_bit 16 space_delta;
          tot = (if is_increase then total_space g + delta_gb
                   else if total_space g > delta_gb then total_space g - delta_gb
                   else 0) in
      db\<lparr>gcounter := Some (g\<lparr>total_space := tot\<rparr>)\<rparr>)"

subsection \<open>Production space of a miner\<close>

text \<open>Settlement of the profit of a miner: its new row and the deadline that was used.\<close>

definition settle_maccount :: "u64 \<Rightarrow> maccount \<Rightarrow> (maccount \<times> u64) result" where
  "settle_maccount now row =
     rbind (calculate_profit_balance (ma_hdd_balance row) (ma_hdd_per_cycle_profit row) (ma_last_hdd_time row) now 0)
       (\<lambda>(new_balance, deadline).
     ensure (is_hdd_amount_within_range new_balance) ''magnitude of miner hddbalance must be less than 2^62'' (
     rbind (miner_share (ma_hdd_balance row) new_balance) (\<lambda>b.
     Inr (row\<lparr>ma_hdd_balance := b, ma_last_hdd_time := now\<rparr>, deadline))))"

definition put_minerinfo :: "u64 \<Rightarrow> minerinfo \<Rightarrow> pool_db \<Rightarrow> pool_db" where
  "put_minerinfo minerid row db = db\<lparr>minerinfos := tput minerid row (minerinfos db)\<rparr>"

definition put_maccount :: "name \<Rightarrow> u64 \<Rightarrow> maccount \<Rightarrow> pool_db \<Rightarrow> pool_db" where
  "put_maccount owner minerid row db = db\<lparr>maccounts := tput (owner, minerid) row (maccounts db)\<rparr>"

definition put_storepool :: "name \<Rightarrow> storepool \<Rightarrow> pool_db \<Rightarrow> pool_db" where
  "put_storepool pool_id row db = db\<lparr>storepools := tput pool_id row (storepools db)\<rparr>"

text \<open>The row of a miner in the table of the new model is changed when there is one.\<close>

definition sync_miner :: "u64 \<Rightarrow> (miner \<Rightarrow> miner) \<Rightarrow> pool_db \<Rightarrow> pool_db" where
  "sync_miner minerid f db =
     (case map_of (miners db) minerid of
        None \<Rightarrow> db
      | Some row \<Rightarrow> db\<lparr>miners := tput minerid (f row) (miners db)\<rparr>)"

definition addmprofit :: "ctx \<Rightarrow> name \<Rightarrow> u64 \<Rightarrow> u64 \<Rightarrow> name \<Rightarrow> world \<Rightarrow> world result" where
  "addmprofit c owner minerid space caller w =
     ensure (is_account c caller) ''caller not an account.'' (
     check_bp_account c w caller (
     ensure (space AND 65535 = 0) ''invalid space'' (
     fetch (minerinfos (pool w)) minerid ''minerid not exist in minerinfo'' (\<lambda>info.
     fetch (maccounts (pool w)) (mi_owner info, minerid) ''minerid not register'' (\<lambda>acc.
     ensure (ma_space acc > 0 \<longrightarrow> ma_hdd_per_cycle_profit acc > 0) ''miner is deactive'' (
     ensure (mi_max_space info > 0) ''invalid max space'' (
     ensure (mi_space_left info \<ge> space) ''exceed max space'' (
     let now = current_time c;
         db = put_minerinfo minerid (info\<lparr>mi_space_left := mi_space_left info - space\<rparr>) (pool w) in
     rbind (settle_maccount now acc) (\<lambda>(acc', deadline).
     let newspace = ma_space acc' + space in
     rbind (cycle_profit newspace) (\<lambda>p.
     let db = put_maccount (mi_owner info) minerid
                (acc'\<lparr>ma_space := newspace, ma_hdd_per_cycle_profit := p\<rparr>) db in
     rbind (chg_owner_space (mi_owner info) space True True now deadline db) (\<lambda>db.
     Inr (w\<lparr>pool := sync_miner minerid (\<lambda>row. row\<lparr>mn_space := mn_space row + space,
        mn_status := (if mn_status row = 2 then 0 else mn_status row)\<rparr>) db\<rparr>))))))))))))"

definition submprofit :: "ctx \<Rightarrow> name \<Rightarrow> u64 \<Rightarrow> u64 \<Rightarrow> name \<Rightarrow> world \<Rightarrow> world result" where
  "submprofit c owner minerid space caller w =
     ensure (is_account c caller) ''caller not an account.'' (
     check_bp_account c w caller (
     ensure (space AND 65535 = 0) ''invalid space'' (
     fetch (minerinfos (pool w)) minerid ''minerid not exist in minerinfo'' (\<lambda>info.
     fetch (maccounts (pool w)) (mi_owner info, minerid) ''minerid not register'' (\<lambda>acc.
     let active = \<not> (ma_space acc > 0 \<and> ma_hdd_per_cycle_profit acc = 0) in
     ensure (mi_space_left info + space \<le> mi_max_space info) ''exceed max space'' (
     let now = current_time c;
         db = put_minerinfo minerid (info\<lparr>mi_space_left := mi_space_left info + space\<rparr>) (pool w) in
     rbind (settle_maccount now acc) (\<lambda>(acc', deadline).
     ensure (ma_space acc' \<ge> space) ''invalid new production space'' (
     let newspace = ma_space acc' - space in
     rbind (if active then cycle_profit newspace else Inr (ma_hdd_per_cycle_profit acc')) (\<lambda>p.
     let db = put_maccount (mi_owner info) minerid
                (acc'\<lparr>ma_space := newspace, ma_hdd_per_cycle_profit := p\<rparr>) db in
     rbind (if active then chg_owner_space (mi_owner info) space False True now deadline db else Inr db) (\<lambda>db.
     Inr (w\<lparr>pool := sync_miner minerid (\<lambda>row. row\<lparr>mn_space := mn_space row - space\<rparr>) db\<rparr>)))))))))))"

text \<open>An action that is switched off.\<close>

definition calcmbalance :: "ctx \<Rightarrow> name \<Rightarrow> u64 \<Rightarrow> world \<Rightarrow> world result" where
  "calcmbalance c owner minerid w = ensure False ''not support now!'' (Inr w)"

definition mdeactive :: "ctx \<Rightarrow> name \<Rightarrow> u64 \<Rightarrow> name \<Rightarrow> world \<Rightarrow> world result" where
  "mdeactive c owner minerid caller w =
     ensure (is_account c caller) ''caller not an account.'' (
     check_bp_account c w caller (
     fetch (minerinfos (pool w)) minerid ''minerid not exist in minerinfo'' (\<lambda>info.
     fetch (maccounts (pool w)) (mi_owner info, minerid) ''minerid not register'' (\<lambda>acc.
     ensure (ma_space acc > 0 \<longrightarrow> ma_hdd_per_cycle_profit acc > 0) ''miner has no cycle profit'' (
     let now = current_time c in
     rbind (settle_maccount now acc) (\<lambda>(acc', deadline).
     let db = put_maccount (mi_owner info) minerid (acc'\<lparr>ma_hdd_per_cycle_profit := 0\<rparr>) (pool w) in
     rbind (chg_owner_space (mi_owner info) (ma_space acc) False True now deadline db) (\<lambda>db.
     Inr (w\<lparr>pool := sync_miner minerid (\<lambda>row. row\<lparr>mn_status := 1\<rparr>) db\<rparr>))))))))"

definition mactive :: "ctx \<Rightarrow> name \<Rightarrow> u64 \<Rightarrow> name \<Rightarrow> world \<Rightarrow> world result" where
  "mactive c owner minerid caller w =
     ensure (is_account c caller) ''caller not an account.'' (
     check_bp_account c w caller (
     fetch (minerinfos (pool w)) minerid ''minerid not exist in minerinfo'' (\<lambda>info.
     fetch (maccounts (pool w)) (mi_owner info, minerid) ''minerid not register'' (\<lambda>acc.
     rbind (cycle_profit (ma_space acc)) (\<lambda>profit.
     let now = current_time c in
     ensure (ma_hdd_per_cycle_profit acc = 0) ''miner already has cycle profit'' (
     let db = put_maccount (mi_owner info) minerid
                (acc\<lparr>ma_hdd_per_cycle_profit := profit, ma_last_hdd_time := now\<rparr>) (pool w) in
     rbind (chg_owner_space (mi_owner info) (ma_space acc) True True now 0 db) (\<lambda>db.
     Inr (w\<lparr>pool := sync_miner minerid (\<lambda>row. row\<lparr>mn_status := 0\<rparr>) db\<rparr>))))))))"

subsection \<open>Registration and removal\<close>

text \<open>Removal of the miner from its owner, and of its quota from its store pool.\<close>

definition leave_owner :: "u64 \<Rightarrow> u64 \<Rightarrow> minerinfo \<Rightarrow> pool_db \<Rightarrow> pool_db result" where
  "leave_owner now minerid info db =
     (if mi_owner info \<noteq> 0 then
        case map_of (maccounts db) (mi_owner info, minerid) of
          None \<Rightarrow> Inr db
        | Some acc \<Rightarrow>
            rbind (if ma_hdd_per_cycle_profit acc > 0
                   then chg_owner_space (mi_owner info) (ma_space acc) False False now 0 db else Inr db) (\<lambda>db.
            Inr (db\<lparr>maccounts := tdel (mi_owner info, minerid) (maccounts db)\<rparr>))
      else Inr db)"

definition leave_pool :: "minerinfo \<Rightarrow> pool_db \<Rightarrow> pool_db" where
  "leave_pool info db =
     (if mi_pool_id info \<noteq> 0 then
        case map_of (storepools db) (mi_pool_id info) of
          None \<Rightarrow> db
        | Some p \<Rightarrow> put_storepool (mi_pool_id info) (p\<lparr>sp_space_left := sp_space_left p + mi_max_space info\<rparr>) db
      else db)"

definition drop_miner :: "u64 \<Rightarrow> pool_db \<Rightarrow> pool_db result" where
  "drop_miner minerid db =
     (case map_of (miners db) minerid of
        None \<Rightarrow> Inr db
      | Some row \<Rightarrow>
          rbind (if mn_internal_id row \<noteq> 0 then del_miner2 (ucast (mn_internal_id row)) db else Inr db) (\<lambda>db.
          Inr (db\<lparr>miners := tdel minerid (miners db)\<rparr>)))"

definition delminer :: "ctx \<Rightarrow> u64 \<Rightarrow> u8 \<Rightarrow> name \<Rightarrow> world \<Rightarrow> world result" where
  "delminer c minerid acc_type caller w =
     fetch (minerinfos (pool w)) minerid ''minerid not exist in minerinfo table'' (\<lambda>info.
     let body =
       rbind (send c hdd_pool_account (mk_act hddpooladmin hdd_deposit_account (Dep (Dep_delminer minerid))) w) (\<lambda>w.
       rbind (leave_owner (current_time c) minerid info (pool w)) (\<lambda>db.
       let db = leave_pool info db;
           db = db\<lparr>minerinfos := tdel minerid (minerinfos db)\<rparr>;
           db = chg_total_space (mi_max_space info) False db in
       rbind (drop_miner minerid db) (\<lambda>db. Inr (w\<lparr>pool := db\<rparr>)))) in
     if acc_type = 1 then
       ensure (is_account c caller) ''caller not a account.'' (
       check_bp_account c w caller (
       ensure False ''not support'' body))
     else if acc_type = 2 then require_auth c (mi_admin info) (ensure False ''not support'' body)
     else require_auth c hddpooladml2 body)"

definition newminer :: "ctx \<Rightarrow> u64 \<Rightarrow> name \<Rightarrow> name \<Rightarrow> asset \<Rightarrow> world \<Rightarrow> world result" where
  "newminer c minerid adminacc dep_acc dep_amount w = ensure False ''not support now.'' (Inr w)"

definition addm2pool :: "ctx \<Rightarrow> u64 \<Rightarrow> name \<Rightarrow> name \<Rightarrow> u64 \<Rightarrow> world \<Rightarrow> world result" where
  "addm2pool c minerid pool_id minerowner max_space w = ensure False ''not support now.'' (Inr w)"

definition new_maccount :: "u64 \<Rightarrow> name \<Rightarrow> maccount" where
  "new_maccount now owner = \<lparr>ma_owner = owner, ma_space = 0, ma_hdd_per_cycle_profit = 0, ma_hdd_balance = 0,
     ma_last_hdd_time = now\<rparr>"

definition new_miner :: "u64 \<Rightarrow> name \<Rightarrow> name \<Rightarrow> name \<Rightarrow> u64 \<Rightarrow> u32 \<Rightarrow> miner" where
  "new_miner now minerowner adminacc pool_id max_space internal_id =
     \<lparr>mn_owner = minerowner, mn_admin = adminacc, mn_pool_id = pool_id, mn_max_space = max_space, mn_space = 0,
      mn_last_modify_time = now, mn_internal_id = internal_id, mn_internal_id2 = 0, mn_real_space = 0,
      mn_reserved1 = 0, mn_level = defaul_miner_level, mn_status = 2\<rparr>"

text \<open>The owner's list of miners gets a row, and the owner an account if there is none.\<close>

definition join_owner :: "u64 \<Rightarrow> u64 \<Rightarrow> name \<Rightarrow> pool_db \<Rightarrow> pool_db result" where
  "join_owner now minerid minerowner db =
     (let db = (if list_all (\<lambda>r. fst (fst r) \<noteq> minerowner) (maccounts db)
                then db\<lparr>gmacccount := map_option (\<lambda>n. n + 1) (gmacccount db)\<rparr> else db) in
      ensure (\<not> has_key (maccounts db) (minerowner, minerid)) ''miner already bind to a owner'' (
      let db = put_maccount minerowner minerid (new_maccount now minerowner) db in
      if has_key (userhdds db) minerowner then Inr db else new_user_hdd now minerowner 0 db))"

definition regminer_db :: "u64 \<Rightarrow> u64 \<Rightarrow> name \<Rightarrow> name \<Rightarrow> name \<Rightarrow> u64 \<Rightarrow> storepool \<Rightarrow> pool_db \<Rightarrow> pool_db result" where
  "regminer_db now minerid adminacc pool_id minerowner max_space p db =
     (let db = put_storepool pool_id (p\<lparr>sp_space_left := sp_space_left p - max_space\<rparr>) db in
      rbind (join_owner now minerid minerowner db) (\<lambda>db.
      let db = put_minerinfo minerid \<lparr>mi_owner = minerowner, mi_admin = adminacc, mi_pool_id = pool_id,
                 mi_max_space = max_space, mi_space_left = max_space\<rparr> db;
          db = chg_total_space max_space True db in
      ensure (\<not> has_key (miners db) minerid) ''already sync'' (
      rbind (insert_miner2 minerid db) (\<lambda>(db, internal_id).
      Inr (db\<lparr>miners := tput minerid (new_miner now minerowner adminacc pool_id max_space internal_id) (miners db)\<rparr>)))))"

definition regminer ::
    "ctx \<Rightarrow> u64 \<Rightarrow> name \<Rightarrow> name \<Rightarrow> name \<Rightarrow> name \<Rightarrow> u64 \<Rightarrow> asset \<Rightarrow> bool \<Rightarrow> world \<Rightarrow> world result" where
  "regminer c minerid adminacc dep_acc pool_id minerowner max_space dep_amount is_calc w =
     ensure (is_account c adminacc) ''adminacc invalidate'' (
     ensure (is_account c dep_acc) ''dep_acc invalidate'' (
     ensure (is_account c minerowner) ''minerowner invalidate'' (
     ensure (minerid > 0) ''minerid must greater than zero'' (
     require_auth c dep_acc (
     fetch (storepools (pool w)) pool_id ''storepool not registered'' (\<lambda>p.
     require_auth c (sp_pool_owner p) (
     ensure (\<not> has_key (minerinfos (pool w)) minerid) ''miner already registered \<newline>'' (
     ensure (max_space AND 65535 = 0) ''invalid max_space'' (
     ensure (max_space \<le> max_miner_space) ''miner max_space overflow\<newline>'' (
     ensure (max_space \<ge> min_miner_space) ''miner max_space underflow\<newline>'' (
     ensure (sp_space_left p > 0 \<and> sp_space_left p \<ge> max_space) ''pool space not enough'' (
     rbind (on_pool (regminer_db (current_time c) minerid adminacc pool_id minerowner max_space p) w) (\<lambda>w.
     rbind (if is_calc then calc_deposit w max_space
            else rbind (is_deposit_enough w dep_amount max_space) (\<lambda>ok.
                 ensure ok ''deposit not enough for miner's max_space -- regminer'' (Inr dep_amount))) (\<lambda>quant.
     send c hdd_pool_account (mk_act hddpooladmin hdd_deposit_account (Dep (Paydeposit dep_acc minerid quant))) w))))))))))))))"

text \<open>The row of a miner of the old table in the new one.\<close>

definition oldsync :: "ctx \<Rightarrow> u64 \<Rightarrow> world \<Rightarrow> world result" where
  "oldsync c minerid w =
     require_auth c hddpooladmin (
     ensure (\<not> has_key (miners (pool w)) minerid) ''already sync'' (
     fetch (minerinfos (pool w)) minerid ''miner not registered'' (\<lambda>info.
     let row = \<lparr>mn_owner = mi_owner info, mn_admin = mi_admin info, mn_pool_id = mi_pool_id info,
                 mn_max_space = mi_max_space info,
                 mn_space = (if mi_max_space info \<ge> mi_space_left info then mi_max_space info - mi_space_left info else 0),
                 mn_last_modify_time = 0, mn_internal_id = 0, mn_internal_id2 = 0, mn_real_space = 0,
                 mn_reserved1 = 0, mn_level = defaul_miner_level, mn_status = 0\<rparr> in
     rbind (if mi_max_space info > 0 then
              fetch (maccounts (pool w)) (mi_owner info, minerid) ''maccount not found'' (\<lambda>acc.
              let row = (if ma_space acc > 0 \<and> ma_hdd_per_cycle_profit acc = 0 then row\<lparr>mn_status := 1\<rparr> else row) in
              rbind (insert_miner2 minerid (pool w)) (\<lambda>(db, internal_id).
              Inr (db, row\<lparr>mn_internal_id := internal_id, mn_last_modify_time := current_time c\<rparr>)))
            else Inr (pool w, row\<lparr>mn_status := 1\<rparr>)) (\<lambda>(db, row).
     rbind (emplace minerid row (miners db)) (\<lambda>t. Inr (w\<lparr>pool := db\<lparr>miners := t\<rparr>\<rparr>))))))"

definition mlevel :: "ctx \<Rightarrow> u64 \<Rightarrow> u32 \<Rightarrow> name \<Rightarrow> world \<Rightarrow> world result" where
  "mlevel c minerid level caller w =
     check_bp_account c w caller (
     fetch (miners (pool w)) minerid ''minerid not found'' (\<lambda>row.
     ensure (mn_level row \<noteq> level) ''same level as before'' (
     ensure (level \<le> 89657) ''level invalidate'' (
     Inr (w\<lparr>pool := (pool w)\<lparr>miners := tput minerid (row\<lparr>mn_level := level\<rparr>) (miners (pool w))\<rparr>\<rparr>)))))"

definition mrspace :: "ctx \<Rightarrow> u64 \<Rightarrow> u64 \<Rightarrow> name \<Rightarrow> world \<Rightarrow> world result" where
  "mrspace c minerid real_space caller w =
     check_bp_account c w caller (
     fetch (miners (pool w)) minerid ''minerid not found'' (\<lambda>row.
     ensure (real_space AND 65535 = 0) ''invalid real_space'' (
     ensure (real_space > 0) ''invalid read_space'' (
     ensure (real_space \<noteq> mn_real_space row) ''same real space'' (
     ensure (mn_max_space row \<ge> real_space) ''real space must less then max_space'' (
     Inr (w\<lparr>pool := (pool w)\<lparr>miners := tput minerid (row\<lparr>mn_real_space := real_space\<rparr>) (miners (pool w))\<rparr>\<rparr>)))))))"

fun pool_miner_apply :: "ctx \<Rightarrow> pool_miner_act \<Rightarrow> world \<Rightarrow> world result" where
  "pool_miner_apply c (Addmprofit o' m s x) w = addmprofit c o' m s x w"
| "pool_miner_apply c (Submprofit o' m s x) w = submprofit c o' m s x w"
| "pool_miner_apply c (Delminer m t x) w = delminer c m t x w"
| "pool_miner_apply c (Calcmbalance o' m) w = calcmbalance c o' m w"
| "pool_miner_apply c (Newminer m a d q) w = newminer c m a d q w"
| "pool_miner_apply c (Addm2pool m p o' s) w = addm2pool c m p o' s w"
| "pool_miner_apply c (Regminer m a d p o' s q b) w = regminer c m a d p o' s q b w"
| "pool_miner_apply c (Mdeactive o' m x) w = mdeactive c o' m x w"
| "pool_miner_apply c (Mactive o' m x) w = mactive c o' m x w"
| "pool_miner_apply c (Oldsync m) w = oldsync c m w"
| "pool_miner_apply c (Mlevel m l x) w = mlevel c m l x w"
| "pool_miner_apply c (Mrspace m s x) w = mrspace c m s x w"

subsection \<open>Store pools and changes to a miner\<close>

definition delstrpool :: "ctx \<Rightarrow> name \<Rightarrow> world \<Rightarrow> world result" where
  "delstrpool c poolid w =
     require_auth c hddpooladmin (
     case map_of (storepools (pool w)) poolid of
       None \<Rightarrow> Inr w
     | Some p \<Rightarrow>
         ensure (sp_max_space p - sp_space_left p = 0) ''can not delete this storepool.'' (
         Inr (w\<lparr>pool := (pool w)\<lparr>storepools := tdel poolid (storepools (pool w))\<rparr>\<rparr>)))"

definition regstrpool :: "ctx \<Rightarrow> name \<Rightarrow> name \<Rightarrow> world \<Rightarrow> world result" where
  "regstrpool c pool_id pool_owner w =
     require_auth c pool_owner (
     ensure (\<not> has_key (storepools (pool w)) pool_id) ''storepool already registered'' (
     let w = w\<lparr>pool := put_storepool pool_id
               \<lparr>sp_pool_owner = pool_owner, sp_max_space = max_pool_space, sp_space_left = max_pool_space\<rparr> (pool w)\<rparr> in
     rbind (mk_asset 100000 CORE_SYMBOL) (\<lambda>quant.
     send c hdd_pool_account (mk_act pool_owner token_account
       (Tok (Transfer pool_owner hddpoolexchg quant ''pay for creation storepool''))) w)))"

definition chgpoolspace :: "ctx \<Rightarrow> name \<Rightarrow> bool \<Rightarrow> u64 \<Rightarrow> world \<Rightarrow> world result" where
  "chgpoolspace c pool_id is_increase delta_space w =
     require_auth c hddpooladml2 (
     fetch (storepools (pool w)) pool_id ''storepool not exist'' (\<lambda>p.
     let max_space = (if is_increase then sp_max_space p + delta_space
                      else if sp_max_space p > delta_space then sp_max_space p - delta_space
                      else 0) in
     ensure (max_space \<le> max_pool_space) ''execeed max pool space'' (
     let space_used = sp_max_space p - sp_space_left p in
     ensure (space_used \<le> max_space) ''invalid max_space'' (
     Inr (w\<lparr>pool := put_storepool pool_id
            (p\<lparr>sp_max_space := max_space, sp_space_left := max_space - space_used\<rparr>) (pool w)\<rparr>)))))"

definition mchgspace :: "ctx \<Rightarrow> u64 \<Rightarrow> u64 \<Rightarrow> world \<Rightarrow> world result" where
  "mchgspace c minerid max_space w = ensure False ''not support now.'' (Inr w)"

text \<open>The old pool gets the quota back before the new one is asked for it; they may be the same pool.\<close>

definition mchgstrpool :: "ctx \<Rightarrow> u64 \<Rightarrow> name \<Rightarrow> world \<Rightarrow> world result" where
  "mchgstrpool c minerid new_poolid w =
     fetch (minerinfos (pool w)) minerid ''miner not registered \<newline>'' (\<lambda>info.
     fetch (storepools (pool w)) new_poolid ''storepool not registered'' (\<lambda>p.
     require_auth c (mi_admin info) (
     require_auth c (sp_pool_owner p) (
     fetch (storepools (pool w)) (mi_pool_id info) ''original storepool not registered'' (\<lambda>old.
     let left = sp_space_left old + mi_max_space info;
         left = (if left > sp_max_space old then sp_max_space old else left);
         db = put_storepool (mi_pool_id info) (old\<lparr>sp_space_left := left\<rparr>) (pool w) in
     fetch (storepools db) new_poolid ''storepool not registered'' (\<lambda>p.
     ensure (sp_space_left p \<ge> mi_max_space info) ''new pool space not enough'' (
     let db = put_storepool new_poolid (p\<lparr>sp_space_left := sp_space_left p - mi_max_space info\<rparr>) db;
         db = put_minerinfo minerid (info\<lparr>mi_pool_id := new_poolid\<rparr>) db in
     Inr (w\<lparr>pool := sync_miner minerid (\<lambda>row. row\<lparr>mn_pool_id := new_poolid\<rparr>) db\<rparr>))))))))"

definition mincdeposit :: "ctx \<Rightarrow> u64 \<Rightarrow> u64 \<Rightarrow> asset \<Rightarrow> bool \<Rightarrow> world \<Rightarrow> world result" where
  "mincdeposit c minerid space dep_amount is_calc w =
     fetch (miners (pool w)) minerid ''miner not registered!'' (\<lambda>row.
     ensure (space AND 65535 = 0) ''invalid max_space!'' (
     ensure (space + mn_max_space row \<le> max_miner_space) ''miner max_space overflow!'' (
     ensure (space + mn_max_space row \<ge> min_miner_space) ''miner max_space underflow!'' (
     require_auth c (get_miner_depacc w minerid) (
     require_auth c (get_miner_pool_owner w minerid) (
     fetch (storepools (pool w)) (mn_pool_id row) ''storepool not exist'' (\<lambda>p.
     ensure (sp_space_left p \<ge> space) ''exceed storepool's max space'' (
     let db = put_storepool (mn_pool_id row) (p\<lparr>sp_space_left := sp_space_left p - space\<rparr>) (pool w);
         row' = row\<lparr>mn_max_space := mn_max_space row + space,
                    mn_real_space := (if mn_real_space row > 0 then mn_real_space row + space else mn_real_space row)\<rparr>;
         db = db\<lparr>miners := tput minerid row' (miners db)\<rparr>;
         db = chg_total_space space True db in
     rbind (get_miner_forfeit w minerid) (\<lambda>forfeit.
     rbind (calc_deposit w space) (\<lambda>more.
     rbind (asset_add forfeit more) (\<lambda>need_amount.
     rbind (if is_calc then Inr need_amount
            else ensure (amount dep_amount \<ge> amount need_amount) ''deposit not enough'' (Inr dep_amount)) (\<lambda>quant.
     rbind (send c hdd_pool_account
        (mk_act hddpooladmin hdd_deposit_account (Dep (Incdeposit minerid quant))) (w\<lparr>pool := db\<rparr>)) (\<lambda>w.
     Inr (case map_of (minerinfos (pool w)) minerid of
            None \<Rightarrow> w
          | Some info \<Rightarrow> w\<lparr>pool := put_minerinfo minerid
              (info\<lparr>mi_max_space := mi_max_space info + space, mi_space_left := mi_space_left info + space\<rparr>)
              (pool w)\<rparr>))))))))))))))"

definition mchgadminacc :: "ctx \<Rightarrow> u64 \<Rightarrow> name \<Rightarrow> world \<Rightarrow> world result" where
  "mchgadminacc c minerid new_adminacc w =
     fetch (minerinfos (pool w)) minerid ''miner not registered \<newline>'' (\<lambda>info.
     require_auth c (mi_admin info) (
     ensure (is_account c new_adminacc) ''new admin is not an account.'' (
     let db = put_minerinfo minerid (info\<lparr>mi_admin := new_adminacc\<rparr>) (pool w) in
     Inr (w\<lparr>pool := sync_miner minerid (\<lambda>row. row\<lparr>mn_admin := new_adminacc\<rparr>) db\<rparr>))))"

definition mchgowneracc :: "ctx \<Rightarrow> u64 \<Rightarrow> name \<Rightarrow> world \<Rightarrow> world result" where
  "mchgowneracc c minerid new_owneracc w =
     fetch (minerinfos (pool w)) minerid ''miner not registered \<newline>'' (\<lambda>info.
     ensure (is_account c new_owneracc) ''new owner is not an account.'' (
     ensure (mi_owner info \<noteq> 0) ''no owner for this miner'' (
     require_auth c (mi_admin info) (
     require_auth c (get_miner_pool_owner w minerid) (
     fetch (maccounts (pool w)) (mi_owner info, minerid) ''minerid not register'' (\<lambda>acc.
     let active = ma_hdd_per_cycle_profit acc > 0;
         space = ma_space acc;
         now = current_time c in
     rbind (if active then chg_owner_space (mi_owner info) space False True now 0 (pool w) else Inr (pool w)) (\<lambda>db.
     rbind (if has_key (userhdds db) new_owneracc then Inr db else new_user_hdd now new_owneracc 0 db) (\<lambda>db.
     rbind (if active then chg_owner_space new_owneracc space True True now 0 db else Inr db) (\<lambda>db.
     ensure (\<not> has_key (maccounts db) (new_owneracc, minerid)) ''new owner already own this miner'' (
     let db = put_maccount new_owneracc minerid (acc\<lparr>ma_owner := new_owneracc\<rparr>) db;
         db = db\<lparr>maccounts := tdel (mi_owner info, minerid) (maccounts db)\<rparr>;
         db = put_minerinfo minerid (info\<lparr>mi_owner := new_owneracc\<rparr>) db in
     Inr (w\<lparr>pool := sync_miner minerid (\<lambda>row. row\<lparr>mn_owner := new_owneracc\<rparr>) db\<rparr>)))))))))))"

fun pool_change_apply :: "ctx \<Rightarrow> pool_change_act \<Rightarrow> world \<Rightarrow> world result" where
  "pool_change_apply c (Delstrpool p) w = delstrpool c p w"
| "pool_change_apply c (Regstrpool p o') w = regstrpool c p o' w"
| "pool_change_apply c (Chgpoolspace p b s) w = chgpoolspace c p b s w"
| "pool_change_apply c (Mchgspace m s) w = mchgspace c m s w"
| "pool_change_apply c (Mincdeposit m s q b) w = mincdeposit c m s q b w"
| "pool_change_apply c (Mchgstrpool m p) w = mchgstrpool c m p w"
| "pool_change_apply c (Mchgadminacc m a) w = mchgadminacc c m a w"
| "pool_change_apply c (Mchgowneracc m o') w = mchgowneracc c m o' w"

subsection \<open>The table of internal identifiers refines a partial map\<close>

text \<open>
  The abstract view: identifiers in use with their miner.  The concrete table also
  chains the free identifiers, from \<open>next_id\<close> to the first identifier after the table.
\<close>

definition slots :: "(u64, miner2) table \<Rightarrow> u64 \<Rightarrow> u64 option" where
  "slots t i = (case map_of t i of
     None \<Rightarrow> None
   | Some r \<Rightarrow> if m2_minerid r = 0 then None else Some (m2_minerid r))"

fun free_chain :: "(u64 \<Rightarrow> miner2 option) \<Rightarrow> u64 \<Rightarrow> u64 \<Rightarrow> u64 list \<Rightarrow> bool" where
  "free_chain look e n [] \<longleftrightarrow> n = e"
| "free_chain look e n (x # xs) \<longleftrightarrow> n = x \<and>
     (case look x of None \<Rightarrow> False | Some r \<Rightarrow> m2_minerid r = 0 \<and> free_chain look e (m2_next_id r) xs)"

definition m2ex_of :: "pool_db \<Rightarrow> miner2ex" where
  "m2ex_of db = get_or_default (gminer2ex db) miner2ex_default"

definition free_ids :: "(u64, miner2) table \<Rightarrow> u64 set" where
  "free_ids t = {i. \<exists>r. map_of t i = Some r \<and> m2_minerid r = 0}"

definition ids_inv :: "pool_db \<Rightarrow> bool" where
  "ids_inv db \<longleftrightarrow> twf (miner2s db) \<and> unat (mx_max_table_count (m2ex_of db)) < 2 ^ 32
     \<and> (\<forall>i. map_of (miner2s db) i \<noteq> None \<longleftrightarrow> 1 \<le> i \<and> i \<le> mx_max_table_count (m2ex_of db))
     \<and> (\<exists>fs. distinct fs \<and> set fs = free_ids (miner2s db)
          \<and> free_chain (map_of (miner2s db)) (mx_max_table_count (m2ex_of db) + 1) (mx_next_id (m2ex_of db)) fs)
     \<and> mx_max_miner_count (m2ex_of db) = of_nat (card (dom (slots (miner2s db))))"

lemma free_chain_upd: "k \<notin> set xs \<Longrightarrow> free_chain (look(k \<mapsto> r)) e n xs = free_chain look e n xs"
  by (induction xs arbitrary: n) (auto split: option.splits)

lemma slots_tput:
  "slots (tput i \<lparr>m2_minerid = m, m2_next_id = n\<rparr> t) = (if m = 0 then (slots t)(i := None) else (slots t)(i \<mapsto> m))"
  by (auto simp: slots_def fun_eq_iff)

lemma free_ids_tput:
  "free_ids (tput i \<lparr>m2_minerid = m, m2_next_id = n\<rparr> t) = (if m = 0 then insert i (free_ids t) else free_ids t - {i})"
  by (auto simp: free_ids_def split: if_splits)

lemma finite_slots: "finite (dom (slots t))"
proof -
  have "dom (slots t) \<subseteq> dom (map_of t)" by (auto simp: slots_def split: option.splits)
  then show ?thesis using finite_dom_map_of finite_subset by blast
qed

lemma u64_succ:
  assumes "unat (n :: u64) < 2 ^ 32"
  shows "n < n + 1" "i \<le> n + 1 \<longleftrightarrow> i \<le> n \<or> i = n + 1" "unat (n + 1) = unat n + 1" "1 \<le> n + 1" "n + 1 \<noteq> 0"
proof -
  show u: "unat (n + 1) = unat n + 1" using assms by (simp add: unat_word_ariths)
  then show "n < n + 1" "i \<le> n + 1 \<longleftrightarrow> i \<le> n \<or> i = n + 1" "1 \<le> n + 1"
    by (auto simp: word_less_nat_alt word_le_nat_alt word_unat_eq_iff)
  then show "n + 1 \<noteq> 0" by auto
qed

lemma ucast_ucast_u32: "unat (n :: u64) < 2 ^ 32 \<Longrightarrow> ucast (ucast n :: u32) = n"
  by (simp add: word_unat_eq_iff unsigned_ucast_eq take_bit_nat_eq_self_iff unsigned_take_bit_eq)

text \<open>A new miner gets an identifier that is not in use; the table grows only when none is free.\<close>

theorem insert_miner2_refines:
  assumes inv: "ids_inv db" and m: "minerid \<noteq> 0"
    and room: "free_ids (miner2s db) = {} \<longrightarrow> unat (mx_max_table_count (m2ex_of db)) + 1 < 2 ^ 32"
  shows "\<exists>t g id. insert_miner2 minerid db = Inr (db\<lparr>miner2s := t, gminer2ex := Some g\<rparr>, id)
    \<and> ids_inv (db\<lparr>miner2s := t, gminer2ex := Some g\<rparr>) \<and> id \<noteq> 0
    \<and> slots (miner2s db) (ucast id) = None \<and> slots t = (slots (miner2s db))(ucast id \<mapsto> minerid)
    \<and> mx_max_table_count g = mx_max_table_count (m2ex_of db) + (if free_ids (miner2s db) = {} then 1 else 0)"
proof -
  define g where "g = m2ex_of db"
  define N where "N = mx_max_table_count g"
  define n where "n = mx_next_id g"
  let ?t = "miner2s db"
  let ?t' = "tput n \<lparr>m2_minerid = minerid, m2_next_id = 0\<rparr> ?t"
  have twf: "twf ?t" and N32: "unat N < 2 ^ 32" and keys: "\<And>i. map_of ?t i \<noteq> None \<longleftrightarrow> 1 \<le> i \<and> i \<le> N"
    and cnt: "mx_max_miner_count g = of_nat (card (dom (slots ?t)))"
    using inv by (simp_all add: ids_inv_def g_def N_def)
  obtain fs where fs: "distinct fs" "set fs = free_ids ?t" "free_chain (map_of ?t) (N + 1) n fs"
    using inv by (auto simp: ids_inv_def g_def N_def n_def)
  note suc = u64_succ [OF N32]
  have fs_le: "\<And>x. x \<in> set fs \<Longrightarrow> 1 \<le> x \<and> x \<le> N" using fs(2) keys by (fastforce simp: free_ids_def)
  have card: "slots ?t n = None \<Longrightarrow> card (dom ((slots ?t)(n \<mapsto> minerid))) = card (dom (slots ?t)) + 1"
    using finite_slots [of ?t] by (simp add: domIff card_insert_if)
  show ?thesis
  proof (cases "n = N + 1")
    case True
    have e: "fs = []" using fs(3) fs_le [of n] suc(1) True by (cases fs) (auto simp: not_le [symmetric])
    then have f0: "free_ids ?t = {}" using fs(2) by simp
    have new: "map_of ?t n = None" using keys [of n] True suc(1) by (auto simp: not_le)
    have s0: "slots ?t n = None" using new by (simp add: slots_def)
    let ?g = "g\<lparr>mx_max_miner_count := mx_max_miner_count g + 1, mx_max_table_count := N + 1, mx_next_id := n + 1\<rparr>"
    have r32: "unat (N + 1) < 2 ^ 32" using room f0 suc(3) by (simp add: g_def N_def)
    have id: "ucast (ucast n :: u32) = n" using r32 True by (intro ucast_ucast_u32) simp
    have run: "insert_miner2 minerid db = Inr (db\<lparr>miner2s := ?t', gminer2ex := Some ?g\<rparr>, ucast n)"
      using True new by (simp add: insert_miner2_def m2ex_of_def [symmetric] g_def [symmetric] n_def [symmetric] N_def [symmetric] Let_def emplace_def has_key_def)
    have "ids_inv (db\<lparr>miner2s := ?t', gminer2ex := Some ?g\<rparr>)"
      using twf r32 keys suc(2,4) True m card [OF s0] cnt f0
      by (auto simp: ids_inv_def m2ex_of_def slots_tput free_ids_tput intro!: exI [of _ "[]"])
    moreover have "ucast n \<noteq> (0 :: u32)" using id True suc(5) by auto
    ultimately show ?thesis using run id s0 m f0
      by (intro exI [of _ ?t'] exI [of _ ?g] exI [of _ "ucast n"]) (simp add: slots_tput N_def g_def)
  next
    case False
    then obtain xs where xs: "fs = n # xs" using fs(3) by (cases fs) auto
    then obtain r where r: "map_of ?t n = Some r" "m2_minerid r = 0" "free_chain (map_of ?t) (N + 1) (m2_next_id r) xs"
      using fs(3) by (auto split: option.splits)
    have n1: "1 \<le> n" "n \<le> N" using fs_le xs by auto
    have s0: "slots ?t n = None" using r by (simp add: slots_def)
    have f1: "free_ids ?t \<noteq> {}" using fs(2) xs by auto
    let ?g = "g\<lparr>mx_max_miner_count := mx_max_miner_count g + 1, mx_next_id := m2_next_id r\<rparr>"
    have "unat n < 2 ^ 32" using n1(2) N32 by (simp add: word_le_nat_alt)
    then have id: "ucast (ucast n :: u32) = n" by (rule ucast_ucast_u32)
    have run: "insert_miner2 minerid db = Inr (db\<lparr>miner2s := ?t', gminer2ex := Some ?g\<rparr>, ucast n)"
      using False r by (simp add: insert_miner2_def m2ex_of_def [symmetric] g_def [symmetric] n_def [symmetric] N_def [symmetric] Let_def)
    have "free_chain ((map_of ?t)(n \<mapsto> \<lparr>m2_minerid = minerid, m2_next_id = 0\<rparr>)) (N + 1) (m2_next_id r) xs"
      using r(3) fs(1) xs by (simp add: free_chain_upd)
    then have "ids_inv (db\<lparr>miner2s := ?t', gminer2ex := Some ?g\<rparr>)"
      using twf N32 keys n1 m card [OF s0] cnt fs(1,2) xs
      by (auto simp: ids_inv_def m2ex_of_def slots_tput free_ids_tput N_def intro!: exI [of _ xs])
    moreover have "ucast n \<noteq> (0 :: u32)" using id n1 by auto
    ultimately show ?thesis using run id s0 m f1
      by (intro exI [of _ ?t'] exI [of _ ?g] exI [of _ "ucast n"]) (simp add: slots_tput N_def g_def)
  qed
qed

theorem del_miner2_refines:
  assumes inv: "ids_inv db" and i: "slots (miner2s db) i = Some m"
  shows "\<exists>t g. del_miner2 i db = Inr (db\<lparr>miner2s := t, gminer2ex := Some g\<rparr>)
    \<and> ids_inv (db\<lparr>miner2s := t, gminer2ex := Some g\<rparr>) \<and> slots t = (slots (miner2s db))(i := None)
    \<and> mx_max_table_count g = mx_max_table_count (m2ex_of db)"
proof -
  let ?t = "miner2s db"
  obtain r where r: "map_of ?t i = Some r" "m2_minerid r \<noteq> 0" using i by (auto simp: slots_def split: option.splits if_splits)
  define g where "g = m2ex_of db"
  define N where "N = mx_max_table_count g"
  define n where "n = mx_next_id g"
  have twf: "twf ?t" and N32: "unat N < 2 ^ 32" and keys: "\<And>i. map_of ?t i \<noteq> None \<longleftrightarrow> 1 \<le> i \<and> i \<le> N"
    and cnt: "mx_max_miner_count g = of_nat (card (dom (slots ?t)))"
    using inv by (simp_all add: ids_inv_def g_def N_def)
  obtain fs where fs: "distinct fs" "set fs = free_ids ?t" "free_chain (map_of ?t) (N + 1) n fs"
    using inv by (auto simp: ids_inv_def g_def N_def n_def)
  have i1: "1 \<le> i" "i \<le> N" using keys [of i] r by auto
  have nf: "i \<notin> set fs" using fs(2) r by (auto simp: free_ids_def)
  have gs: "gminer2ex db = Some g"
  proof (cases "gminer2ex db")
    case None
    then show ?thesis using i1 by (auto simp: N_def g_def m2ex_of_def miner2ex_default_def)
  qed (simp add: g_def m2ex_of_def)
  let ?t' = "tput i \<lparr>m2_minerid = 0, m2_next_id = n\<rparr> ?t"
  let ?g = "g\<lparr>mx_max_miner_count := mx_max_miner_count g - 1, mx_next_id := i\<rparr>"
  have run: "del_miner2 i db = Inr (db\<lparr>miner2s := ?t', gminer2ex := Some ?g\<rparr>)"
    using gs r i1 by (auto simp: del_miner2_def n_def Let_def)
  have "1 \<le> card (dom (slots ?t))" using i finite_slots [of ?t] card_gt_0_iff [of "dom (slots ?t)"] by force
  then have card: "of_nat (card (dom ((slots ?t)(i := None)))) = (of_nat (card (dom (slots ?t))) :: u64) - 1"
    using finite_slots [of ?t] i by (simp add: domIff of_nat_diff)
  have "free_chain ((map_of ?t)(i \<mapsto> \<lparr>m2_minerid = 0, m2_next_id = n\<rparr>)) (N + 1) i (i # fs)"
    using fs(3) nf by (simp add: free_chain_upd)
  then have "ids_inv (db\<lparr>miner2s := ?t', gminer2ex := Some ?g\<rparr>)"
    using twf N32 keys i1 card cnt fs nf
    by (auto simp: ids_inv_def m2ex_of_def slots_tput free_ids_tput N_def intro!: exI [of _ "i # fs"])
  then show ?thesis using run by (intro exI [of _ ?t'] exI [of _ ?g]) (simp add: slots_tput N_def g_def)
qed

end
