(* ===== verification/Hddpool_Inv.thy ===== *)
theory Hddpool_Inv
  imports Hddpool_Miner
begin

unbundle bit_operations_syntax

text \<open>
  The invariant of the storage pool contract: the three tables with a row for each
  miner agree, the quota of a store pool in use is the space of its miners, the space
  under production of an account is the space of its active miners, the counter of the
  registered space is the sum over all miners, and the internal identifiers in use are
  those of the miners.  Every action on miners and pools keeps it.
\<close>

subsection \<open>Definition\<close>

definition miner_ok :: "minerinfo \<Rightarrow> miner \<Rightarrow> maccount \<Rightarrow> bool" where
  "miner_ok info row acc \<longleftrightarrow> mn_owner row = mi_owner info \<and> mn_admin row = mi_admin info \<and> mn_pool_id row = mi_pool_id info
     \<and> ma_owner acc = mi_owner info \<and> mn_max_space row = mi_max_space info
     \<and> min_miner_space \<le> mi_max_space info \<and> mi_max_space info \<le> max_miner_space \<and> mi_space_left info \<le> mi_max_space info
     \<and> mn_space row = mi_max_space info - mi_space_left info \<and> ma_space acc = mi_max_space info - mi_space_left info
     \<and> 65536 dvd uint (mi_max_space info) \<and> 65536 dvd uint (mi_space_left info) \<and> 0 \<le> ma_hdd_per_cycle_profit acc
     \<and> mn_level row \<le> 89657"

definition miners_inv :: "pool_db \<Rightarrow> bool" where
  "miners_inv db \<longleftrightarrow> twf (minerinfos db) \<and> twf (miners db) \<and> twf (maccounts db)
     \<and> (\<forall>m info. map_of (minerinfos db) m = Some info \<longrightarrow> m \<noteq> 0 \<and> mi_owner info \<noteq> 0
          \<and> (\<exists>row acc. map_of (miners db) m = Some row \<and> map_of (maccounts db) (mi_owner info, m) = Some acc \<and> miner_ok info row acc))
     \<and> (\<forall>m. map_of (miners db) m \<noteq> None \<longrightarrow> map_of (minerinfos db) m \<noteq> None)
     \<and> (\<forall>u m. map_of (maccounts db) (u, m) \<noteq> None \<longrightarrow> (\<exists>info. map_of (minerinfos db) m = Some info \<and> mi_owner info = u))"

definition ids_agree :: "pool_db \<Rightarrow> bool" where
  "ids_agree db \<longleftrightarrow> (\<forall>m i. slots (miner2s db) i = Some m
     \<longleftrightarrow> (\<exists>row. map_of (miners db) m = Some row \<and> ucast (mn_internal_id row) = i))"

text \<open>The space of the miners of a pool, and the space of the active miners of an owner.\<close>

definition pool_load :: "name \<Rightarrow> (u64, minerinfo) table \<Rightarrow> int" where
  "pool_load p t = tsum (\<lambda>_ i. if mi_pool_id i = p then uint (mi_max_space i) else 0) t"

definition active_space :: "maccount \<Rightarrow> int" where
  "active_space acc = (if 0 < ma_hdd_per_cycle_profit acc then uint (ma_space acc) else 0)"

definition owner_load :: "name \<Rightarrow> (name \<times> u64, maccount) table \<Rightarrow> int" where
  "owner_load u t = tsum (\<lambda>k acc. if fst k = u then active_space acc else 0) t"

definition pool_row_ok :: "pool_db \<Rightarrow> name \<Rightarrow> storepool \<Rightarrow> bool" where
  "pool_row_ok db p sp \<longleftrightarrow> sp_space_left sp \<le> sp_max_space sp \<and> sp_max_space sp \<le> max_pool_space
     \<and> pool_load p (minerinfos db) \<le> uint (sp_max_space sp) - uint (sp_space_left sp)
     \<and> (p \<noteq> 0 \<longrightarrow> pool_load p (minerinfos db) = uint (sp_max_space sp) - uint (sp_space_left sp))"

definition pools_inv :: "pool_db \<Rightarrow> bool" where
  "pools_inv db \<longleftrightarrow> twf (storepools db) \<and> (\<forall>p sp. map_of (storepools db) p = Some sp \<longrightarrow> pool_row_ok db p sp)
     \<and> (\<forall>m info. map_of (minerinfos db) m = Some info \<longrightarrow> map_of (storepools db) (mi_pool_id info) \<noteq> None)"

definition registered_gb :: "(u64, minerinfo) table \<Rightarrow> int" where
  "registered_gb t = tsum (\<lambda>_ i. uint (mi_max_space i) div 65536) t"

definition total_inv :: "pool_db \<Rightarrow> bool" where
  "total_inv db \<longleftrightarrow> uint (total_space (get_or_default (gcounter db) counterstat_default)) = registered_gb (minerinfos db)"

definition spaces_inv :: "pool_db \<Rightarrow> bool" where
  "spaces_inv db \<longleftrightarrow> (\<forall>u s. space_of db u = Some s \<longrightarrow> u \<noteq> ecologyfound \<longrightarrow> uint s = owner_load u (maccounts db))
     \<and> (\<forall>u m. map_of (maccounts db) (u, m) \<noteq> None \<longrightarrow> space_of db u \<noteq> None)"

definition pool_inv :: "pool_db \<Rightarrow> bool" where
  "pool_inv db \<longleftrightarrow> users_inv db \<and> miners_inv db \<and> ids_inv db \<and> ids_agree db \<and> pools_inv db \<and> total_inv db \<and> spaces_inv db"

subsection \<open>Words\<close>

lemma and_65535: "x AND 65535 = 0 \<longleftrightarrow> 65536 dvd uint (x :: u64)"
proof -
  have m: "(65535 :: u64) = mask 16" by (simp add: mask_eq_exp_minus_1)
  have "uint (x AND 65535) = uint x mod 65536"
    unfolding m take_bit_eq_mask [symmetric] by (simp add: unsigned_take_bit_eq take_bit_eq_mod uint_mod_distrib)
  then show ?thesis by (metis dvd_eq_mod_eq_0 uint_0_iff)
qed

lemma uint_drop16: "uint (drop_bit 16 (x :: u64)) = uint x div 65536"
  by (simp add: unsigned_drop_bit_eq drop_bit_eq_div uint_div_distrib)

lemma uint_sub: "(y :: u64) \<le> x \<Longrightarrow> uint (x - y) = uint x - uint y"
  by (simp add: uint_minus_simple_alt)

lemma uint_add: "uint (x :: u64) + uint y < 2 ^ 64 \<Longrightarrow> uint (x + y) = uint x + uint y"
  by (simp add: uint_word_ariths)

lemma uint_max_spaces [simp]:
  "uint max_miner_space = 6710886400" "uint max_pool_space = 34359738368000" "uint max_profit_space = 34359738368000"
  "uint min_miner_space = 6553600" "uint one_gb = 65536"
  by (simp_all add: max_miner_space_def max_pool_space_def max_profit_space_def min_miner_space_def one_gb_def)

lemma uint_le: "(x :: u64) \<le> y \<Longrightarrow> uint x \<le> uint y"
  by (simp add: word_le_def)

lemma moved_space_uint:
  "\<not> inc \<Longrightarrow> delta \<le> s \<Longrightarrow> uint (moved_space inc s delta) = uint s - uint delta"
  "inc \<Longrightarrow> s \<le> max_profit_space \<Longrightarrow> delta \<le> max_miner_space \<Longrightarrow> uint (moved_space inc s delta) = uint s + uint delta"
proof -
  show "\<not> inc \<Longrightarrow> delta \<le> s \<Longrightarrow> uint (moved_space inc s delta) = uint s - uint delta"
    by (auto simp: moved_space_def uint_sub not_less)
  assume "inc" "s \<le> max_profit_space" "delta \<le> max_miner_space"
  then show "uint (moved_space inc s delta) = uint s + uint delta"
    using uint_le [of s max_profit_space] uint_le [of delta max_miner_space] by (simp add: moved_space_def uint_add)
qed

text \<open>A positive aligned space has a positive profit.\<close>

lemma cycle_profit_aligned:
  assumes "cycle_profit s = Inr p" and "s \<le> max_miner_space" and "65536 dvd uint s"
  shows "0 \<le> p" and "0 < p \<longleftrightarrow> s \<noteq> 0"
proof -
  have le: "s \<le> max_profit_space" using assms(2) by (simp add: max_miner_space_def max_profit_space_def word_le_def)
  have "s \<noteq> 0 \<Longrightarrow> one_gb \<le> s"
    using assms(3) by (metis dvd_imp_le_int uint_0_iff abs_ge_zero abs_of_nonneg uint_ge_0 uint_max_spaces(5) word_le_def)
  then show "0 \<le> p" "0 < p \<longleftrightarrow> s \<noteq> 0" using cycle_profit_effect [OF le] assms(1) by auto
qed

subsection \<open>Changing the rows of one miner\<close>

lemma miner_rows:
  assumes "miners_inv db" and "map_of (minerinfos db) m = Some info"
  obtains row acc where "map_of (miners db) m = Some row" "map_of (maccounts db) (mi_owner info, m) = Some acc"
    "miner_ok info row acc" "m \<noteq> 0" "mi_owner info \<noteq> 0"
  using assms unfolding miners_inv_def by metis

lemma miner_row_info:
  assumes "miners_inv db" and "map_of (miners db) m = Some row"
  obtains info where "map_of (minerinfos db) m = Some info"
  using assms unfolding miners_inv_def by blast

lemma miners_inv_put:
  assumes inv: "miners_inv db" and m: "map_of (minerinfos db) m = Some info" and ok: "miner_ok info' row' acc'"
    and o': "mi_owner info' = mi_owner info"
    and t: "minerinfos db' = tput m info' (minerinfos db)" "miners db' = tput m row' (miners db)"
      "maccounts db' = tput (mi_owner info, m) acc' (maccounts db)"
  shows "miners_inv db'"
  using inv m ok o' unfolding miners_inv_def t by (auto split: if_splits) (metis not_Some_eq option.inject)

lemma ids_agree_put:
  assumes "ids_agree db" and "map_of (miners db) m = Some row" and "mn_internal_id row' = mn_internal_id row"
    and "miners db' = tput m row' (miners db)" and "miner2s db' = miner2s db"
  shows "ids_agree db'"
  using assms unfolding ids_agree_def by auto

lemma ids_inv_cong: "ids_inv db \<Longrightarrow> miner2s db' = miner2s db \<Longrightarrow> gminer2ex db' = gminer2ex db \<Longrightarrow> ids_inv db'"
  by (simp add: ids_inv_def m2ex_of_def)

lemma pool_load_put:
  assumes "twf t" and "map_of t m = Some info"
  shows "pool_load p (tput m info' t) = pool_load p t - (if mi_pool_id info = p then uint (mi_max_space info) else 0)
    + (if mi_pool_id info' = p then uint (mi_max_space info') else 0)"
  using assms by (simp add: pool_load_def tbl.total_put)

lemma pool_load_same:
  assumes "twf t" and "map_of t m = Some info" and "mi_pool_id info' = mi_pool_id info" "mi_max_space info' = mi_max_space info"
  shows "pool_load p (tput m info' t) = pool_load p t" and "registered_gb (tput m info' t) = registered_gb t"
  using assms by (simp_all add: pool_load_put registered_gb_def tbl.total_put)

lemma pools_inv_put:
  assumes "pools_inv db" and "twf (minerinfos db)" and "map_of (minerinfos db) m = Some info"
    and "mi_pool_id info' = mi_pool_id info" "mi_max_space info' = mi_max_space info"
    and "minerinfos db' = tput m info' (minerinfos db)" "storepools db' = storepools db"
  shows "pools_inv db'"
  using assms by (auto simp: pools_inv_def pool_row_ok_def pool_load_same split: if_splits)

lemma total_inv_put:
  assumes "total_inv db" and "twf (minerinfos db)" and "map_of (minerinfos db) m = Some info"
    and "mi_pool_id info' = mi_pool_id info" "mi_max_space info' = mi_max_space info"
    and "minerinfos db' = tput m info' (minerinfos db)" "gcounter db' = gcounter db"
  shows "total_inv db'"
  using assms by (simp add: total_inv_def pool_load_same)

lemma owner_load_put:
  assumes "twf t" and "map_of t (o', m) = Some acc"
  shows "owner_load u (tput (o', m) acc' t) = owner_load u t + (if u = o' then active_space acc' - active_space acc else 0)"
  using assms by (simp add: owner_load_def tbl.total_put)

lemma active_space_nonneg: "0 \<le> active_space acc"
  by (simp add: active_space_def)

lemma active_le_load:
  assumes "twf t" and "map_of t (u, m) = Some acc"
  shows "active_space acc \<le> owner_load u t"
proof -
  have "(\<lambda>k acc. if fst k = u then active_space acc else 0) (u, m) acc \<le> owner_load u t"
    unfolding owner_load_def using assms by (intro tbl.row_le_total) (auto simp: active_space_nonneg)
  then show ?thesis by simp
qed

text \<open>The accounts follow when the production space of a miner changes.\<close>

lemma spaces_inv_put:
  assumes inv: "spaces_inv db" and wf: "twf (maccounts db)" and acc: "map_of (maccounts db) (o', m) = Some acc"
    and t: "maccounts db' = tput (o', m) acc' (maccounts db)"
    and eco: "o' = ecologyfound \<longrightarrow> space_of db' = space_of db"
    and s: "o' \<noteq> ecologyfound \<longrightarrow> (\<exists>s s'. space_of db o' = Some s \<and> space_of db' = (space_of db)(o' \<mapsto> s')
          \<and> uint s' = uint s + active_space acc' - active_space acc)"
  shows "spaces_inv db'"
proof (cases "o' = ecologyfound")
  case True
  then show ?thesis using inv eco acc unfolding spaces_inv_def t
    by (auto simp: owner_load_put [OF wf acc [unfolded True]] split: if_splits) (metis option.distinct(1))+
next
  case False
  then obtain s s' where "space_of db o' = Some s" "space_of db' = (space_of db)(o' \<mapsto> s')"
      "uint s' = uint s + active_space acc' - active_space acc" using s by blast
  then show ?thesis using inv False acc unfolding spaces_inv_def t
    by (auto simp: owner_load_put [OF wf acc] split: if_splits)
qed

lemma chg_owner_space_spaces:
  assumes users: "users_inv db" and inv: "spaces_inv db" and wf: "twf (maccounts db)"
    and acc: "map_of (maccounts db) (o', m) = Some acc"
    and db1: "userhdds db1 = userhdds db" "gusercount db1 = gusercount db" "maccounts db1 = tput (o', m) acc' (maccounts db)"
    and run: "chg_owner_space o' delta inc calc ct dl db1 = Inr db'"
    and d: "delta \<le> max_miner_space" "active_space acc' = active_space acc + (if inc then uint delta else - uint delta)"
  shows "spaces_inv db'" and "users_inv db'" and "same_miners db1 db'"
proof -
  have u1: "users_inv db1" "space_of db1 = space_of db" using users db1 by (simp_all add: users_inv_def space_of_def fun_eq_iff)
  note ce = chg_owner_space_effect [OF u1(1) run]
  show "users_inv db'" "same_miners db1 db'" using ce by auto
  have t: "maccounts db' = tput (o', m) acc' (maccounts db)" using ce(2) db1 by (simp add: same_miners_def)
  show "spaces_inv db'"
  proof (rule spaces_inv_put [OF inv wf acc t])
    show "o' = ecologyfound \<longrightarrow> space_of db' = space_of db" using ce(3) u1(2) by auto
    show "o' \<noteq> ecologyfound \<longrightarrow> (\<exists>s s'. space_of db o' = Some s \<and> space_of db' = (space_of db)(o' \<mapsto> s')
          \<and> uint s' = uint s + active_space acc' - active_space acc)"
    proof
      assume ne: "o' \<noteq> ecologyfound"
      then obtain s where s: "space_of db o' = Some s" "space_of db' = (space_of db)(o' \<mapsto> moved_space inc s delta)"
        using ce(4) u1(2) by auto
      have "s \<le> max_profit_space" using s(1) users by (auto simp: space_of_def users_inv_def user_ok_def)
      moreover have "uint s = owner_load o' (maccounts db)" using inv s(1) ne by (simp add: spaces_inv_def)
      then have "\<not> inc \<longrightarrow> delta \<le> s"
        using active_le_load [OF wf acc] d(2) active_space_nonneg [of acc'] by (auto simp: word_le_def)
      ultimately have "uint (moved_space inc s delta) = uint s + active_space acc' - active_space acc"
        using d moved_space_uint(1) [of inc delta s] moved_space_uint(2) [of inc s delta] by (cases inc) simp_all
      then show "\<exists>s s'. space_of db o' = Some s \<and> space_of db' = (space_of db)(o' \<mapsto> s')
          \<and> uint s' = uint s + active_space acc' - active_space acc" using s by blast
    qed
  qed
qed

lemma pool_inv_put:
  assumes inv: "pool_inv db" and m: "map_of (minerinfos db) m = Some info" "map_of (miners db) m = Some row"
    and ok: "miner_ok info' row' acc'"
    and same: "mi_owner info' = mi_owner info" "mi_pool_id info' = mi_pool_id info" "mi_max_space info' = mi_max_space info"
      "mn_internal_id row' = mn_internal_id row"
    and t: "minerinfos db' = tput m info' (minerinfos db)" "miners db' = tput m row' (miners db)"
      "maccounts db' = tput (mi_owner info, m) acc' (maccounts db)"
      "storepools db' = storepools db" "miner2s db' = miner2s db" "gminer2ex db' = gminer2ex db" "gcounter db' = gcounter db"
    and u: "users_inv db'" "spaces_inv db'"
  shows "pool_inv db'"
proof -
  have i: "miners_inv db" "ids_inv db" "ids_agree db" "pools_inv db" "total_inv db" "twf (minerinfos db)"
    using inv by (simp_all add: pool_inv_def miners_inv_def)
  show ?thesis unfolding pool_inv_def
    using u miners_inv_put [OF i(1) m(1) ok same(1) t(1-3)] ids_inv_cong [OF i(2) t(5,6)]
      ids_agree_put [OF i(3) m(2) same(4) t(2,5)] pools_inv_put [OF i(4,6) m(1) same(2,3) t(1,4)]
      total_inv_put [OF i(5,6) m(1) same(2,3) t(1,7)] by blast
qed

lemma sync_miner_eq: "map_of (miners db) m = Some row \<Longrightarrow> sync_miner m f db = db\<lparr>miners := tput m (f row) (miners db)\<rparr>"
  by (simp add: sync_miner_def)

lemma settle_maccount_effect:
  assumes "settle_maccount now acc = Inr (acc', dl)"
  obtains b where "acc' = acc\<lparr>ma_hdd_balance := b, ma_last_hdd_time := now\<rparr>"
  using assms by (auto simp: settle_maccount_def)

lemma active_space_full: "(0 < ma_space acc \<longrightarrow> 0 < ma_hdd_per_cycle_profit acc) \<Longrightarrow> active_space acc = uint (ma_space acc)"
  by (cases "ma_space acc = 0") (auto simp: active_space_def word_neq_0_conv)

text \<open>The rows of a miner after its production space and its profit have changed.\<close>

lemma miner_ok_space:
  assumes ok: "miner_ok info row acc" and l: "left \<le> mi_max_space info" "65536 dvd uint left" and p: "0 \<le> p"
    and s: "s = mi_max_space info - left"
  shows "miner_ok (info\<lparr>mi_space_left := left\<rparr>) (row\<lparr>mn_space := s, mn_status := st\<rparr>)
    (acc\<lparr>ma_hdd_balance := b, ma_last_hdd_time := now, ma_space := s, ma_hdd_per_cycle_profit := p\<rparr>)"
  using assms by (simp add: miner_ok_def)

lemma miner_okD:
  assumes "miner_ok info row acc"
  shows "uint (ma_space acc) = uint (mi_max_space info) - uint (mi_space_left info)" "ma_space acc \<le> mi_max_space info"
    "mi_max_space info \<le> max_miner_space" "65536 dvd uint (ma_space acc)" "ma_space acc \<le> max_miner_space"
    "mn_space row = ma_space acc"
proof -
  have l: "mi_space_left info \<le> mi_max_space info" using assms by (simp add: miner_ok_def)
  show e: "uint (ma_space acc) = uint (mi_max_space info) - uint (mi_space_left info)"
    using assms l by (simp add: miner_ok_def uint_sub)
  show le: "ma_space acc \<le> mi_max_space info" unfolding word_le_def e by simp
  show mx: "mi_max_space info \<le> max_miner_space" "mn_space row = ma_space acc" using assms by (simp_all add: miner_ok_def)
  show "65536 dvd uint (ma_space acc)" unfolding e using assms by (simp add: miner_ok_def)
  show "ma_space acc \<le> max_miner_space" using le mx(1) by order
qed

text \<open>The common step of the actions on the production space of one miner.\<close>

lemma miner_space_step:
  assumes inv: "pool_inv db" and info: "map_of (minerinfos db) m = Some info" and row: "map_of (miners db) m = Some row"
    and acc: "map_of (maccounts db) (mi_owner info, m) = Some acc" and ok': "miner_ok info' row' acc'"
    and same: "mi_owner info' = mi_owner info" "mi_pool_id info' = mi_pool_id info" "mi_max_space info' = mi_max_space info"
      "mn_internal_id row' = mn_internal_id row"
    and run: "(if ch then chg_owner_space (mi_owner info) delta inc True ct dl
         (put_maccount (mi_owner info) m acc' (put_minerinfo m info' db))
       else Inr (put_maccount (mi_owner info) m acc' (put_minerinfo m info' db))) = Inr db2"
    and d: "ch \<Longrightarrow> delta \<le> max_miner_space" "ch \<Longrightarrow> active_space acc' = active_space acc + (if inc then uint delta else - uint delta)"
      "\<not> ch \<Longrightarrow> active_space acc' = active_space acc"
  shows "map_of (miners db2) m = Some row" and "pool_inv (db2\<lparr>miners := tput m row' (miners db2)\<rparr>)"
proof -
  let ?db1 = "put_maccount (mi_owner info) m acc' (put_minerinfo m info' db)"
  have i: "users_inv db" "spaces_inv db" "twf (maccounts db)" using inv by (simp_all add: pool_inv_def miners_inv_def)
  have d1: "userhdds ?db1 = userhdds db" "gusercount ?db1 = gusercount db" "maccounts ?db1 = tput (mi_owner info, m) acc' (maccounts db)"
    by (simp_all add: put_maccount_def put_minerinfo_def)
  have r: "spaces_inv db2 \<and> users_inv db2 \<and> same_miners ?db1 db2"
  proof (cases ch)
    case True
    then have r': "chg_owner_space (mi_owner info) delta inc True ct dl ?db1 = Inr db2" using run by simp
    show ?thesis using chg_owner_space_spaces [OF i acc d1 r' d(1) [OF True] d(2) [OF True]] by blast
  next
    case False
    then have db2: "db2 = ?db1" using run by simp
    have sp: "space_of ?db1 = space_of db" using d1 by (simp add: space_of_def fun_eq_iff)
    obtain s where s: "space_of db (mi_owner info) = Some s" using i(2) acc by (fastforce simp: spaces_inv_def)
    then have "space_of db = (space_of db)(mi_owner info \<mapsto> s)" by auto
    then have "spaces_inv ?db1" using False d(3) sp s
      by (intro spaces_inv_put [OF i(2,3) acc d1(3)]) fastforce+
    then show ?thesis using i(1) db2 d1 by (simp add: users_inv_def)
  qed
  have t: "minerinfos db2 = tput m info' (minerinfos db)" "miners db2 = miners db"
      "maccounts db2 = tput (mi_owner info, m) acc' (maccounts db)" "storepools db2 = storepools db"
      "miner2s db2 = miner2s db" "gminer2ex db2 = gminer2ex db" "gcounter db2 = gcounter db"
    using r by (simp_all add: same_miners_def put_maccount_def put_minerinfo_def)
  show "map_of (miners db2) m = Some row" using t row by simp
  have u: "users_inv (db2\<lparr>miners := x\<rparr>)" "spaces_inv (db2\<lparr>miners := x\<rparr>)" for x
    using r by (simp_all add: users_inv_def spaces_inv_def space_of_def)
  show "pool_inv (db2\<lparr>miners := tput m row' (miners db2)\<rparr>)"
    by (rule pool_inv_put [OF inv info row ok' same]) (simp_all add: t u)
qed

subsection \<open>Actions on the production space of a miner\<close>

lemma addmprofit_inv:
  assumes inv: "pool_inv (pool w)" and run: "addmprofit c o' m space x w = Inr w'"
  shows "pool_inv (pool w')"
proof -
  let ?db = "pool w"
  obtain info acc acc' dl p db2 where al: "space AND 65535 = 0" and info: "map_of (minerinfos ?db) m = Some info"
      and acc: "map_of (maccounts ?db) (mi_owner info, m) = Some acc"
      and act: "0 < ma_space acc \<longrightarrow> 0 < ma_hdd_per_cycle_profit acc" and le: "space \<le> mi_space_left info"
      and st: "settle_maccount (current_time c) acc = Inr (acc', dl)"
      and p: "cycle_profit (ma_space acc' + space) = Inr p"
      and ch: "chg_owner_space (mi_owner info) space True True (current_time c) dl (put_maccount (mi_owner info) m
          (acc'\<lparr>ma_space := ma_space acc' + space, ma_hdd_per_cycle_profit := p\<rparr>)
          (put_minerinfo m (info\<lparr>mi_space_left := mi_space_left info - space\<rparr>) ?db)) = Inr db2"
      and w': "pool w' = sync_miner m (\<lambda>row. row\<lparr>mn_space := mn_space row + space,
        mn_status := (if mn_status row = 2 then 0 else mn_status row)\<rparr>) db2"
    using run by (auto simp: addmprofit_def Let_def check_bp_account_Inr simp del: if_split)
  obtain b where acc': "acc' = acc\<lparr>ma_hdd_balance := b, ma_last_hdd_time := current_time c\<rparr>"
    using st by (rule settle_maccount_effect)
  obtain row where row: "map_of (miners ?db) m = Some row" and ok: "miner_ok info row acc"
    using inv info acc by (auto simp: pool_inv_def elim: miner_rows)
  note o = miner_okD [OF ok]
  have d: "65536 dvd uint space" using al by (simp add: and_65535)
  have l: "mi_space_left info \<le> mi_max_space info" using ok by (simp add: miner_ok_def)
  have s: "ma_space acc + space = mi_max_space info - (mi_space_left info - space)" using ok by (simp add: miner_ok_def)
  have l': "mi_space_left info - space \<le> mi_max_space info" using l le word_sub_le [OF le] by order
  have ul: "uint (mi_space_left info - space) = uint (mi_space_left info) - uint space" using le by (rule uint_sub)
  have us: "uint (ma_space acc + space) = uint (ma_space acc) + uint space" unfolding s using o(1) l' ul by (simp add: uint_sub)
  have dl': "65536 dvd uint (mi_space_left info - space)" unfolding ul using ok d by (simp add: miner_ok_def)
  have "uint (mi_max_space info) \<le> uint max_miner_space" using o(3) by (rule uint_le)
  then have sm: "ma_space acc + space \<le> max_miner_space" unfolding word_le_def us using o(1) uint_le [OF le] by simp
  have da: "65536 dvd uint (ma_space acc + space)" unfolding us using o(4) d by simp
  note pp = cycle_profit_aligned [OF p [unfolded acc', simplified] sm da]
  let ?acc = "acc'\<lparr>ma_space := ma_space acc' + space, ma_hdd_per_cycle_profit := p\<rparr>"
  let ?row = "row\<lparr>mn_space := mn_space row + space, mn_status := (if mn_status row = 2 then 0 else mn_status row)\<rparr>"
  have ok': "miner_ok (info\<lparr>mi_space_left := mi_space_left info - space\<rparr>) ?row ?acc"
    unfolding acc' using miner_ok_space [OF ok l' dl' pp(1) s] o(6) by simp
  have A: "active_space ?acc = active_space acc + (if True then uint space else - uint space)"
    using act pp us unfolding acc' by (simp add: active_space_full word_neq_0_conv)
  have sl: "space \<le> max_miner_space" using le l o(3) by order
  note st = miner_space_step [where ch = True, unfolded if_True, OF inv info row acc ok' _ _ _ _ ch]
  have "map_of (miners db2) m = Some row" "pool_inv (db2\<lparr>miners := tput m ?row (miners db2)\<rparr>)"
    by (rule st; use sl A in simp)+
  then show ?thesis unfolding w' by (simp add: sync_miner_eq)
qed

lemma submprofit_inv:
  assumes inv: "pool_inv (pool w)" and run: "submprofit c o' m space x w = Inr w'"
  shows "pool_inv (pool w')"
proof -
  let ?db = "pool w"
  obtain info acc acc' dl p db2 where al: "space AND 65535 = 0" and info: "map_of (minerinfos ?db) m = Some info"
      and acc: "map_of (maccounts ?db) (mi_owner info, m) = Some acc"
      and st: "settle_maccount (current_time c) acc = Inr (acc', dl)" and le: "space \<le> ma_space acc'"
      and p: "(if \<not> (ma_space acc > 0 \<and> ma_hdd_per_cycle_profit acc = 0) then cycle_profit (ma_space acc' - space)
        else Inr (ma_hdd_per_cycle_profit acc')) = Inr p"
      and ch: "(if \<not> (ma_space acc > 0 \<and> ma_hdd_per_cycle_profit acc = 0)
        then chg_owner_space (mi_owner info) space False True (current_time c) dl (put_maccount (mi_owner info) m
          (acc'\<lparr>ma_space := ma_space acc' - space, ma_hdd_per_cycle_profit := p\<rparr>)
          (put_minerinfo m (info\<lparr>mi_space_left := mi_space_left info + space\<rparr>) ?db))
        else Inr (put_maccount (mi_owner info) m
          (acc'\<lparr>ma_space := ma_space acc' - space, ma_hdd_per_cycle_profit := p\<rparr>)
          (put_minerinfo m (info\<lparr>mi_space_left := mi_space_left info + space\<rparr>) ?db))) = Inr db2"
      and w': "pool w' = sync_miner m (\<lambda>row. row\<lparr>mn_space := mn_space row - space\<rparr>) db2"
    using run by (auto simp: submprofit_def Let_def check_bp_account_Inr simp del: if_split not_gr0 de_Morgan_conj not_gr_zero)
  obtain b where acc': "acc' = acc\<lparr>ma_hdd_balance := b, ma_last_hdd_time := current_time c\<rparr>"
    using st by (rule settle_maccount_effect)
  obtain row where row: "map_of (miners ?db) m = Some row" and ok: "miner_ok info row acc"
    using inv info acc by (auto simp: pool_inv_def elim: miner_rows)
  note o = miner_okD [OF ok]
  have le': "space \<le> ma_space acc" using le acc' by simp
  have d: "65536 dvd uint space" using al by (simp add: and_65535)
  have "uint (mi_max_space info) \<le> uint max_miner_space" using o(3) by (rule uint_le)
  then have ul: "uint (mi_space_left info + space) = uint (mi_space_left info) + uint space"
    using o(1) uint_le [OF le'] by (intro uint_add) simp
  have l': "mi_space_left info + space \<le> mi_max_space info" unfolding word_le_def ul using o(1) uint_le [OF le'] by simp
  have s: "ma_space acc - space = mi_max_space info - (mi_space_left info + space)" using ok by (simp add: miner_ok_def)
  have us: "uint (ma_space acc - space) = uint (ma_space acc) - uint space" using le' by (rule uint_sub)
  have dl': "65536 dvd uint (mi_space_left info + space)" unfolding ul using ok d by (simp add: miner_ok_def)
  have sm: "ma_space acc - space \<le> max_miner_space" using word_sub_le [OF le'] o(5) by order
  have da: "65536 dvd uint (ma_space acc - space)" unfolding us using o(4) d by simp
  define active where "active \<longleftrightarrow> \<not> (ma_space acc > 0 \<and> ma_hdd_per_cycle_profit acc = 0)"
  have pa: "0 \<le> ma_hdd_per_cycle_profit acc" using ok by (simp add: miner_ok_def)
  have pp: "0 \<le> p" "active \<Longrightarrow> 0 < p \<longleftrightarrow> ma_space acc - space \<noteq> 0" "\<not> active \<Longrightarrow> p = 0"
    using cycle_profit_aligned [OF _ sm da, of p] p [folded active_def] acc' pa
    by (auto simp: active_def split: if_splits)
  let ?acc = "acc'\<lparr>ma_space := ma_space acc' - space, ma_hdd_per_cycle_profit := p\<rparr>"
  have ok': "miner_ok (info\<lparr>mi_space_left := mi_space_left info + space\<rparr>) (row\<lparr>mn_space := mn_space row - space\<rparr>) ?acc"
    unfolding acc' using miner_ok_space [OF ok l' dl' pp(1) s, where st = "mn_status row" and b = b and now = "current_time c"] o(6) by simp
  have A: "active_space ?acc = active_space acc + (if False then uint space else - uint space)" if a: active
  proof -
    have "active_space acc = uint (ma_space acc)" using a pa by (intro active_space_full) (auto simp: active_def)
    moreover have "active_space ?acc = uint (ma_space acc - space)"
      using pp(2) [OF a] acc' by (subst active_space_full) (auto simp: word_neq_0_conv)
    ultimately show ?thesis using us by simp
  qed
  have B: "active_space ?acc = active_space acc" if "\<not> active"
    using that pp(3) by (auto simp: active_def active_space_def)
  have sl: "space \<le> max_miner_space" using le' o(5) by order
  note st = miner_space_step [OF inv info row acc ok' _ _ _ _ ch [folded active_def]]
  have "map_of (miners db2) m = Some row" "pool_inv (db2\<lparr>miners := tput m (row\<lparr>mn_space := mn_space row - space\<rparr>) (miners db2)\<rparr>)"
    by (rule st; use sl A B in simp)+
  then show ?thesis unfolding w' by (simp add: sync_miner_eq)
qed

lemma put_minerinfo_triv: "miners_inv db \<Longrightarrow> map_of (minerinfos db) m = Some info \<Longrightarrow> put_minerinfo m info db = db"
  by (simp add: put_minerinfo_def miners_inv_def tput_triv)

lemma mdeactive_inv:
  assumes inv: "pool_inv (pool w)" and run: "mdeactive c o' m x w = Inr w'"
  shows "pool_inv (pool w')"
proof -
  let ?db = "pool w"
  obtain info acc acc' dl db2 where info: "map_of (minerinfos ?db) m = Some info"
      and acc: "map_of (maccounts ?db) (mi_owner info, m) = Some acc"
      and act: "0 < ma_space acc \<longrightarrow> 0 < ma_hdd_per_cycle_profit acc"
      and st: "settle_maccount (current_time c) acc = Inr (acc', dl)"
      and ch: "chg_owner_space (mi_owner info) (ma_space acc) False True (current_time c) dl
          (put_maccount (mi_owner info) m (acc'\<lparr>ma_hdd_per_cycle_profit := 0\<rparr>) ?db) = Inr db2"
      and w': "pool w' = sync_miner m (\<lambda>row. row\<lparr>mn_status := 1\<rparr>) db2"
    using run by (auto simp: mdeactive_def Let_def check_bp_account_Inr simp del: if_split)
  obtain b where acc': "acc' = acc\<lparr>ma_hdd_balance := b, ma_last_hdd_time := current_time c\<rparr>"
    using st by (rule settle_maccount_effect)
  have mi: "miners_inv ?db" using inv by (simp add: pool_inv_def)
  obtain row where row: "map_of (miners ?db) m = Some row" and ok: "miner_ok info row acc"
    using mi info acc by (auto elim: miner_rows)
  have ok': "miner_ok info (row\<lparr>mn_status := 1\<rparr>) (acc'\<lparr>ma_hdd_per_cycle_profit := 0\<rparr>)"
    using ok acc' by (simp add: miner_ok_def)
  have A: "active_space (acc'\<lparr>ma_hdd_per_cycle_profit := 0\<rparr>)
      = active_space acc + (if False then uint (ma_space acc) else - uint (ma_space acc))"
    using act active_space_full [of acc] by (simp add: active_space_def)
  have ch1: "chg_owner_space (mi_owner info) (ma_space acc) False True (current_time c) dl
      (put_maccount (mi_owner info) m (acc'\<lparr>ma_hdd_per_cycle_profit := 0\<rparr>) (put_minerinfo m info ?db)) = Inr db2"
    using ch by (simp add: put_minerinfo_triv [OF mi info])
  note st = miner_space_step [where ch = True, unfolded if_True, OF inv info row acc ok' _ _ _ _ ch1]
  have "map_of (miners db2) m = Some row" "pool_inv (db2\<lparr>miners := tput m (row\<lparr>mn_status := 1\<rparr>) (miners db2)\<rparr>)"
    by (rule st; use A miner_okD(5) [OF ok] in simp)+
  then show ?thesis unfolding w' by (simp add: sync_miner_eq)
qed

lemma mactive_inv:
  assumes inv: "pool_inv (pool w)" and run: "mactive c o' m x w = Inr w'"
  shows "pool_inv (pool w')"
proof -
  let ?db = "pool w"
  obtain info acc p db2 where info: "map_of (minerinfos ?db) m = Some info"
      and acc: "map_of (maccounts ?db) (mi_owner info, m) = Some acc"
      and p: "cycle_profit (ma_space acc) = Inr p" and z: "ma_hdd_per_cycle_profit acc = 0"
      and ch: "chg_owner_space (mi_owner info) (ma_space acc) True True (current_time c) 0
          (put_maccount (mi_owner info) m (acc\<lparr>ma_hdd_per_cycle_profit := p, ma_last_hdd_time := current_time c\<rparr>) ?db) = Inr db2"
      and w': "pool w' = sync_miner m (\<lambda>row. row\<lparr>mn_status := 0\<rparr>) db2"
    using run by (auto simp: mactive_def Let_def check_bp_account_Inr simp del: if_split)
  have mi: "miners_inv ?db" using inv by (simp add: pool_inv_def)
  obtain row where row: "map_of (miners ?db) m = Some row" and ok: "miner_ok info row acc"
    using mi info acc by (auto elim: miner_rows)
  note o = miner_okD [OF ok]
  note pp = cycle_profit_aligned [OF p o(5,4)]
  let ?acc = "acc\<lparr>ma_hdd_per_cycle_profit := p, ma_last_hdd_time := current_time c\<rparr>"
  have ok': "miner_ok info (row\<lparr>mn_status := 0\<rparr>) ?acc" using ok pp(1) by (simp add: miner_ok_def)
  have A: "active_space ?acc = active_space acc + (if True then uint (ma_space acc) else - uint (ma_space acc))"
    using pp(2) z by (auto simp: active_space_def)
  have ch1: "chg_owner_space (mi_owner info) (ma_space acc) True True (current_time c) 0
      (put_maccount (mi_owner info) m ?acc (put_minerinfo m info ?db)) = Inr db2"
    using ch by (simp add: put_minerinfo_triv [OF mi info])
  note st = miner_space_step [where ch = True, unfolded if_True, OF inv info row acc ok' _ _ _ _ ch1]
  have "map_of (miners db2) m = Some row" "pool_inv (db2\<lparr>miners := tput m (row\<lparr>mn_status := 0\<rparr>) (miners db2)\<rparr>)"
    by (rule st; use A o(5) in simp)+
  then show ?thesis unfolding w' by (simp add: sync_miner_eq)
qed

subsection \<open>The counter of the registered space does not overflow\<close>

lemma few_miners:
  assumes mi: "miners_inv db" and ids: "ids_inv db" and ag: "ids_agree db"
  shows "length (minerinfos db) < 2 ^ 32"
proof -
  let ?N = "mx_max_table_count (m2ex_of db)"
  define f :: "u64 \<Rightarrow> u64" where "f m = ucast (mn_internal_id (the (map_of (miners db) m)))" for m
  let ?D = "dom (map_of (minerinfos db))"
  have D: "m \<in> ?D \<Longrightarrow> \<exists>row. map_of (miners db) m = Some row" for m
    using miner_rows [OF mi] by blast
  have slot: "slots (miner2s db) (f m) = Some m" if md: "m \<in> ?D" for m
  proof -
    obtain row where "map_of (miners db) m = Some row" using D [OF md] by blast
    then show ?thesis using ag unfolding ids_agree_def f_def by simp
  qed
  have inj: "inj_on (\<lambda>m. unat (f m)) ?D"
  proof (rule inj_onI)
    fix a b assume a: "a \<in> ?D" and b: "b \<in> ?D" and e: "unat (f a) = unat (f b)"
    have fe: "f a = f b" using e by (rule word_unat_eq_iff [THEN iffD2])
    have "Some a = Some b" using slot [OF a] slot [OF b] unfolding fe by (rule trans [OF sym])
    then show "a = b" by (rule option.inject [THEN iffD1])
  qed
  have fN: "unat (f m) \<le> unat ?N \<and> 0 < unat (f m)" if "m \<in> ?D" for m
  proof -
    have "map_of (miner2s db) (f m) \<noteq> None" using slot [OF that] by (auto simp: slots_def split: option.splits)
    then have "1 \<le> f m" "f m \<le> ?N" using ids unfolding ids_inv_def by blast+
    then show ?thesis by (auto simp: word_le_nat_alt)
  qed
  have "(\<lambda>m. unat (f m)) ` ?D \<subseteq> {1..unat ?N}"
    by (rule image_subsetI) (use fN in \<open>simp only: atLeastAtMost_iff Suc_le_eq One_nat_def simp_thms\<close>)
  then have "card ?D \<le> card {1..unat ?N}" by (rule card_inj_on_le [OF inj _ finite_atLeastAtMost])
  moreover have "card ?D = length (minerinfos db)" using mi by (simp add: card_dom_twf miners_inv_def)
  moreover have "unat ?N < 2 ^ 32" using ids by (simp add: ids_inv_def)
  ultimately show ?thesis by simp
qed

lemma registered_gb_bound:
  assumes "miners_inv db" "ids_inv db" "ids_agree db"
  shows "registered_gb (minerinfos db) \<le> 102400 * 2 ^ 32"
proof -
  have "uint (mi_max_space i) div 65536 \<le> 102400" if m: "map_of (minerinfos db) k = Some i" for k i
  proof -
    obtain row acc where "miner_ok i row acc" using miner_rows [OF assms(1) m] by blast
    then have "uint (mi_max_space i) \<le> 6710886400" using uint_le [of "mi_max_space i" max_miner_space] by (simp add: miner_ok_def)
    then show ?thesis by linarith
  qed
  then have "registered_gb (minerinfos db) \<le> 102400 * int (length (minerinfos db))"
    unfolding registered_gb_def using assms(1) by (intro tsum_le_length) (auto simp: miners_inv_def)
  then show ?thesis using few_miners [OF assms] by simp
qed

lemma registered_gb_nonneg: "twf t \<Longrightarrow> 0 \<le> registered_gb t"
  unfolding registered_gb_def by (rule tsum_nonneg) (simp_all add: pos_imp_zdiv_nonneg_iff)

definition total_gb :: "pool_db \<Rightarrow> u64" where
  "total_gb db = total_space (get_or_default (gcounter db) counterstat_default)"

lemma chg_total_space_frame [simp]:
  "minerinfos (chg_total_space d b db) = minerinfos db" "miners (chg_total_space d b db) = miners db"
  "maccounts (chg_total_space d b db) = maccounts db" "storepools (chg_total_space d b db) = storepools db"
  "miner2s (chg_total_space d b db) = miner2s db" "gminer2ex (chg_total_space d b db) = gminer2ex db"
  "userhdds (chg_total_space d b db) = userhdds db" "gusercount (chg_total_space d b db) = gusercount db"
  "gmacccount (chg_total_space d b db) = gmacccount db"
  by (simp_all add: chg_total_space_def Let_def)

lemma chg_total_space_effect:
  assumes "uint (total_gb db) \<le> 102400 * 2 ^ 32" and "d \<le> max_pool_space"
  shows "uint (total_gb (chg_total_space d True db)) = uint (total_gb db) + uint d div 65536"
    and "uint d div 65536 \<le> uint (total_gb db) \<Longrightarrow> uint (total_gb (chg_total_space d False db)) = uint (total_gb db) - uint d div 65536"
proof -
  have d: "uint d div 65536 \<le> 524288000" using uint_le [OF assms(2)] by simp
  have "uint (total_gb db + drop_bit 16 d) = uint (total_gb db) + uint (drop_bit 16 d)"
    using assms(1) d by (intro uint_add) (simp add: uint_drop16)
  then show "uint (total_gb (chg_total_space d True db)) = uint (total_gb db) + uint d div 65536"
    by (simp add: total_gb_def chg_total_space_def Let_def uint_drop16)
  assume "uint d div 65536 \<le> uint (total_gb db)"
  then have le: "drop_bit 16 d \<le> total_gb db" by (simp add: word_le_def uint_drop16)
  have "total_gb (chg_total_space d False db) = total_gb db - drop_bit 16 d"
    using le by (auto simp: total_gb_def chg_total_space_def Let_def)
  then show "uint (total_gb (chg_total_space d False db)) = uint (total_gb db) - uint d div 65536"
    using le by (simp add: uint_sub uint_drop16)
qed

subsection \<open>Changes that leave the space of the miner alone\<close>

lemma users_inv_cong: "users_inv db \<Longrightarrow> userhdds db' = userhdds db \<Longrightarrow> gusercount db' = gusercount db \<Longrightarrow> users_inv db'"
  by (simp add: users_inv_def)

lemma space_of_cong: "userhdds db' = userhdds db \<Longrightarrow> space_of db' = space_of db"
  by (simp add: space_of_def fun_eq_iff)

lemma spaces_inv_cong: "spaces_inv db \<Longrightarrow> userhdds db' = userhdds db \<Longrightarrow> maccounts db' = maccounts db \<Longrightarrow> spaces_inv db'"
  using space_of_cong [of db' db] by (simp add: spaces_inv_def)

lemma pool_inv_row:
  assumes inv: "pool_inv db" and m: "map_of (minerinfos db) m = Some info" "map_of (miners db) m = Some row"
      "map_of (maccounts db) (mi_owner info, m) = Some acc"
    and ok: "miner_ok info' row' acc"
    and same: "mi_owner info' = mi_owner info" "mi_pool_id info' = mi_pool_id info" "mi_max_space info' = mi_max_space info"
      "mn_internal_id row' = mn_internal_id row"
  shows "pool_inv (db\<lparr>minerinfos := tput m info' (minerinfos db), miners := tput m row' (miners db)\<rparr>)"
proof -
  have i: "users_inv db" "spaces_inv db" "twf (maccounts db)" using inv by (simp_all add: pool_inv_def miners_inv_def)
  show ?thesis
    by (rule pool_inv_put [OF inv m(1,2) ok same])
       (simp_all add: tput_triv [OF i(3) m(3)] users_inv_cong [OF i(1)] spaces_inv_cong [OF i(2)])
qed

lemma pool_inv_miner:
  assumes inv: "pool_inv db" and row: "map_of (miners db) m = Some row"
    and ok: "\<And>info acc. miner_ok info row acc \<Longrightarrow> miner_ok info row' acc" "mn_internal_id row' = mn_internal_id row"
  shows "pool_inv (db\<lparr>miners := tput m row' (miners db)\<rparr>)"
proof -
  have mi: "miners_inv db" using inv by (simp add: pool_inv_def)
  obtain info where info: "map_of (minerinfos db) m = Some info" using mi row by (rule miner_row_info)
  then obtain acc where acc: "map_of (maccounts db) (mi_owner info, m) = Some acc" "miner_ok info row acc"
    using mi row by (auto elim: miner_rows)
  show ?thesis
    using pool_inv_row [OF inv info row acc(1) ok(1) [OF acc(2)] _ _ _ ok(2)] mi info by (simp add: miners_inv_def tput_triv)
qed

lemma mlevel_inv:
  assumes inv: "pool_inv (pool w)" and run: "mlevel c m l x w = Inr w'"
  shows "pool_inv (pool w')"
proof -
  obtain row where row: "map_of (miners (pool w)) m = Some row"
      and w': "pool w' = (pool w)\<lparr>miners := tput m (row\<lparr>mn_level := l\<rparr>) (miners (pool w))\<rparr>" and l: "l \<le> 89657"
    using run by (auto simp: mlevel_def check_bp_account_Inr)
  show ?thesis unfolding w' by (rule pool_inv_miner [OF inv row]) (simp_all add: miner_ok_def l)
qed

lemma mrspace_inv:
  assumes inv: "pool_inv (pool w)" and run: "mrspace c m s x w = Inr w'"
  shows "pool_inv (pool w')"
proof -
  obtain row where row: "map_of (miners (pool w)) m = Some row"
      and w': "pool w' = (pool w)\<lparr>miners := tput m (row\<lparr>mn_real_space := s\<rparr>) (miners (pool w))\<rparr>"
    using run by (auto simp: mrspace_def check_bp_account_Inr)
  show ?thesis unfolding w' by (rule pool_inv_miner [OF inv row]) (simp_all add: miner_ok_def)
qed

lemma mchgadminacc_inv:
  assumes inv: "pool_inv (pool w)" and run: "mchgadminacc c m a w = Inr w'"
  shows "pool_inv (pool w')"
proof -
  obtain info where info: "map_of (minerinfos (pool w)) m = Some info"
      and w': "pool w' = sync_miner m (\<lambda>row. row\<lparr>mn_admin := a\<rparr>) (put_minerinfo m (info\<lparr>mi_admin := a\<rparr>) (pool w))"
    using run by (auto simp: mchgadminacc_def Let_def)
  have mi: "miners_inv (pool w)" using inv by (simp add: pool_inv_def)
  obtain row acc where row: "map_of (miners (pool w)) m = Some row"
      and acc: "map_of (maccounts (pool w)) (mi_owner info, m) = Some acc" "miner_ok info row acc"
    using mi info by (rule miner_rows)
  have "miner_ok (info\<lparr>mi_admin := a\<rparr>) (row\<lparr>mn_admin := a\<rparr>) acc" using acc(2) by (simp add: miner_ok_def)
  then have "pool_inv ((pool w)\<lparr>minerinfos := tput m (info\<lparr>mi_admin := a\<rparr>) (minerinfos (pool w)),
      miners := tput m (row\<lparr>mn_admin := a\<rparr>) (miners (pool w))\<rparr>)"
    by (intro pool_inv_row [OF inv info row acc(1)]) simp_all
  then show ?thesis unfolding w' using row by (simp add: sync_miner_def put_minerinfo_def)
qed

subsection \<open>Store pools\<close>

lemma pool_row_shift:
  assumes "pool_row_ok db p sp" and "sp_space_left sp' \<le> sp_max_space sp'" "sp_max_space sp' \<le> max_pool_space"
    and "pool_load p (minerinfos db') = pool_load p (minerinfos db) + d"
    and "uint (sp_max_space sp') - uint (sp_space_left sp') = uint (sp_max_space sp) - uint (sp_space_left sp) + d"
  shows "pool_row_ok db' p sp'"
  using assms by (simp add: pool_row_ok_def)

lemma pool_inv_storepools:
  assumes "pool_inv db" and "pools_inv (db\<lparr>storepools := t\<rparr>)"
  shows "pool_inv (db\<lparr>storepools := t\<rparr>)"
proof -
  have i: "users_inv db" "spaces_inv db" "ids_inv db" "ids_agree db" "miners_inv db" "total_inv db"
    using assms(1) by (simp_all add: pool_inv_def)
  show ?thesis unfolding pool_inv_def using assms(2) i
      users_inv_cong [OF i(1), of "db\<lparr>storepools := t\<rparr>"] spaces_inv_cong [OF i(2), of "db\<lparr>storepools := t\<rparr>"]
      ids_inv_cong [OF i(3), of "db\<lparr>storepools := t\<rparr>"]
    by (simp add: miners_inv_def ids_agree_def total_inv_def)
qed

lemma pool_load_zero:
  assumes "twf t" and "\<And>m info. map_of t m = Some info \<Longrightarrow> mi_pool_id info \<noteq> p"
  shows "pool_load p t = 0"
proof -
  have "pool_load p t = tsum (\<lambda>_ _. 0) t" unfolding pool_load_def using assms by (intro tsum_cong) auto
  also have "tsum (\<lambda>_ _. 0) t = 0" by (induction t) auto
  finally show ?thesis .
qed

lemma pool_load_ge:
  assumes "twf t" and "map_of t m = Some info"
  shows "uint (mi_max_space info) \<le> pool_load (mi_pool_id info) t"
proof -
  have "(\<lambda>_ i. if mi_pool_id i = mi_pool_id info then uint (mi_max_space i) else 0) m info \<le> pool_load (mi_pool_id info) t"
    unfolding pool_load_def using assms by (intro tbl.row_le_total) auto
  then show ?thesis by simp
qed

lemma chgpoolspace_inv:
  assumes inv: "pool_inv (pool w)" and run: "chgpoolspace c p b d w = Inr w'"
  shows "pool_inv (pool w')"
proof -
  let ?db = "pool w"
  obtain sp mx where sp: "map_of (storepools ?db) p = Some sp" and mx: "mx \<le> max_pool_space"
      and u: "sp_max_space sp - sp_space_left sp \<le> mx"
      and w': "pool w' = ?db\<lparr>storepools := tput p (sp\<lparr>sp_max_space := mx,
        sp_space_left := mx - (sp_max_space sp - sp_space_left sp)\<rparr>) (storepools ?db)\<rparr>"
    using run by (auto simp: chgpoolspace_def Let_def put_storepool_def simp del: if_split)
  let ?sp = "sp\<lparr>sp_max_space := mx, sp_space_left := mx - (sp_max_space sp - sp_space_left sp)\<rparr>"
  have pi: "pools_inv ?db" using inv by (simp add: pool_inv_def)
  then have r: "pool_row_ok ?db p sp" using sp by (simp add: pools_inv_def)
  have u1: "uint (sp_max_space sp - sp_space_left sp) = uint (sp_max_space sp) - uint (sp_space_left sp)"
    using r by (simp add: pool_row_ok_def uint_sub)
  have "pool_row_ok ?db p ?sp"
    by (rule pool_row_shift [OF r, where d = 0]) (use mx u u1 word_sub_le [OF u] in \<open>simp_all add: uint_sub\<close>)
  then have "pools_inv (?db\<lparr>storepools := tput p ?sp (storepools ?db)\<rparr>)"
    using pi by (auto simp: pools_inv_def pool_row_ok_def split: if_splits)
  then show ?thesis unfolding w' by (rule pool_inv_storepools [OF inv])
qed

lemma regstrpool_inv:
  assumes inv: "pool_inv (pool w)" and run: "regstrpool c p o' w = Inr w'"
  shows "pool_inv (pool w')"
proof -
  let ?db = "pool w"
  let ?sp = "\<lparr>sp_pool_owner = o', sp_max_space = max_pool_space, sp_space_left = max_pool_space\<rparr>"
  have new: "map_of (storepools ?db) p = None"
      and w': "pool w' = ?db\<lparr>storepools := tput p ?sp (storepools ?db)\<rparr>"
    using run by (auto simp: regstrpool_def Let_def put_storepool_def has_key_def)
  have pi: "pools_inv ?db" "twf (minerinfos ?db)" using inv by (simp_all add: pool_inv_def miners_inv_def)
  have "pool_load p (minerinfos ?db) = 0"
    using pi new by (intro pool_load_zero) (fastforce simp: pools_inv_def)+
  then have "pools_inv (?db\<lparr>storepools := tput p ?sp (storepools ?db)\<rparr>)"
    using pi new by (auto simp: pools_inv_def pool_row_ok_def split: if_splits)
  then show ?thesis unfolding w' by (rule pool_inv_storepools [OF inv])
qed

lemma delstrpool_inv:
  assumes inv: "pool_inv (pool w)" and run: "delstrpool c p w = Inr w'"
  shows "pool_inv (pool w')"
proof (cases "map_of (storepools (pool w)) p")
  case None
  then show ?thesis using run inv by (simp add: delstrpool_def)
next
  case (Some sp)
  let ?db = "pool w"
  have e: "sp_max_space sp = sp_space_left sp" and w': "pool w' = ?db\<lparr>storepools := tdel p (storepools ?db)\<rparr>"
    using run Some by (auto simp: delstrpool_def)
  have i: "pools_inv ?db" "miners_inv ?db" "twf (minerinfos ?db)" using inv by (simp_all add: pool_inv_def miners_inv_def)
  have "pool_row_ok ?db p sp" using i Some by (simp add: pools_inv_def)
  then have l: "pool_load p (minerinfos ?db) \<le> 0" using e by (simp add: pool_row_ok_def)
  have "mi_pool_id info \<noteq> p" if m: "map_of (minerinfos ?db) m = Some info" for m info
  proof
    assume "mi_pool_id info = p"
    then have "uint (mi_max_space info) \<le> 0" using pool_load_ge [OF i(3) m] l by (metis order_trans)
    moreover obtain row acc where "miner_ok info row acc" using miner_rows [OF i(2) m] by blast
    then have "uint min_miner_space \<le> uint (mi_max_space info)" by (intro uint_le) (simp add: miner_ok_def)
    ultimately show False by simp
  qed
  then have "pools_inv (?db\<lparr>storepools := tdel p (storepools ?db)\<rparr>)"
    using i(1) by (auto simp: pools_inv_def pool_row_ok_def split: if_splits)
  then show ?thesis unfolding w' by (rule pool_inv_storepools [OF inv])
qed

text \<open>A miner that changes its quota or its pool.\<close>

lemma pools_inv_change:
  assumes pi: "pools_inv db" and wf: "twf (minerinfos db)" and m: "map_of (minerinfos db) m = Some info"
    and t: "minerinfos db' = tput m info' (minerinfos db)" "twf (storepools db')"
    and d: "\<And>p. map_of (storepools db') p = None \<longleftrightarrow> map_of (storepools db) p = None"
      "map_of (storepools db) (mi_pool_id info') \<noteq> None"
    and s: "\<And>p sp sp'. map_of (storepools db) p = Some sp \<Longrightarrow> map_of (storepools db') p = Some sp' \<Longrightarrow>
      sp_space_left sp' \<le> sp_max_space sp' \<and> sp_max_space sp' = sp_max_space sp
      \<and> uint (sp_space_left sp') = uint (sp_space_left sp) + (if mi_pool_id info = p then uint (mi_max_space info) else 0)
          - (if mi_pool_id info' = p then uint (mi_max_space info') else 0)"
  shows "pools_inv db'"
proof -
  have "pool_row_ok db' p sp'" if p: "map_of (storepools db') p = Some sp'" for p sp'
  proof -
    obtain sp where sp: "map_of (storepools db) p = Some sp" using d(1) [of p] p by auto
    then have r: "pool_row_ok db p sp" using pi by (simp add: pools_inv_def)
    show ?thesis
      by (rule pool_row_shift [OF r]) (use s [OF sp p] r in \<open>auto simp: t(1) pool_load_put [OF wf m] pool_row_ok_def\<close>)
  qed
  then show ?thesis using pi d t m by (auto simp: pools_inv_def split: if_splits)
qed

lemma mchgstrpool_inv:
  assumes inv: "pool_inv (pool w)" and run: "mchgstrpool c m np w = Inr w'"
  shows "pool_inv (pool w')"
proof -
  let ?db = "pool w"
  obtain info old where info: "map_of (minerinfos ?db) m = Some info"
      and old: "map_of (storepools ?db) (mi_pool_id info) = Some old"
    using run by (auto simp: mchgstrpool_def Let_def)
  have i: "users_inv ?db" "spaces_inv ?db" "ids_inv ?db" "ids_agree ?db" "miners_inv ?db" "total_inv ?db" "pools_inv ?db"
      "twf (minerinfos ?db)" "twf (maccounts ?db)"
    using inv by (simp_all add: pool_inv_def miners_inv_def)
  obtain row acc where row: "map_of (miners ?db) m = Some row" and acc: "map_of (maccounts ?db) (mi_owner info, m) = Some acc"
      and ok: "miner_ok info row acc" using i(5) info by (rule miner_rows)
  define left where "left = sp_space_left old + mi_max_space info"
  have r: "pool_row_ok ?db (mi_pool_id info) old" using i(7) old by (simp add: pools_inv_def)
  have used: "uint (mi_max_space info) \<le> uint (sp_max_space old) - uint (sp_space_left old)"
    using pool_load_ge [OF i(8) info] r by (simp add: pool_row_ok_def)
  have mp: "uint (sp_max_space old) \<le> uint max_pool_space" using r by (intro uint_le) (simp add: pool_row_ok_def)
  have ul: "uint left = uint (sp_space_left old) + uint (mi_max_space info)"
    unfolding left_def using used mp by (intro uint_add) simp
  have lm: "left \<le> sp_max_space old" unfolding word_le_def ul using used by simp
  have e: "(if sp_max_space old < sp_space_left old + mi_max_space info then sp_max_space old
      else sp_space_left old + mi_max_space info) = left"
    using lm by (auto simp: left_def)
  let ?t1 = "tput (mi_pool_id info) (old\<lparr>sp_space_left := left\<rparr>) (storepools ?db)"
  obtain p where p: "map_of ?t1 np = Some p" and le: "mi_max_space info \<le> sp_space_left p"
      and w': "pool w' = ?db\<lparr>storepools := tput np (p\<lparr>sp_space_left := sp_space_left p - mi_max_space info\<rparr>) ?t1,
        minerinfos := tput m (info\<lparr>mi_pool_id := np\<rparr>) (minerinfos ?db),
        miners := tput m (row\<lparr>mn_pool_id := np\<rparr>) (miners ?db)\<rparr>"
    using run info old row by (auto simp: mchgstrpool_def Let_def put_storepool_def put_minerinfo_def sync_miner_def e)
  have new: "map_of (storepools ?db) np \<noteq> None" using p old by (auto split: if_splits)
  have pr: "sp_space_left p \<le> sp_max_space p" using p i(7) lm by (auto simp: pools_inv_def pool_row_ok_def split: if_splits)
  have us: "uint (sp_space_left p - mi_max_space info) = uint (sp_space_left p) - uint (mi_max_space info)"
    using le by (rule uint_sub)
  have pl: "sp_space_left p - mi_max_space info \<le> sp_max_space p" using word_sub_le [OF le] pr by order
  have "pools_inv (pool w')" unfolding w'
    by (rule pools_inv_change [OF i(7,8) info, where info' = "info\<lparr>mi_pool_id := np\<rparr>"])
       (use i(7) old p new pl us ul lm in \<open>auto simp: pools_inv_def pool_row_ok_def split: if_splits\<close>)
  moreover have "miners_inv (pool w')" unfolding w'
    by (rule miners_inv_put [OF i(5) info, where row' = "row\<lparr>mn_pool_id := np\<rparr>" and acc' = acc and info' = "info\<lparr>mi_pool_id := np\<rparr>"])
       (use ok acc in \<open>simp_all add: miner_ok_def tput_triv [OF i(9)]\<close>)
  moreover have "ids_agree (pool w')" unfolding w' by (rule ids_agree_put [OF i(4) row, where row' = "row\<lparr>mn_pool_id := np\<rparr>"]) simp_all
  moreover have "total_inv (pool w')" using i(6) info unfolding w' by (simp add: total_inv_def registered_gb_def tbl.total_put [OF i(8)])
  ultimately show ?thesis unfolding pool_inv_def
    using users_inv_cong [OF i(1)] spaces_inv_cong [OF i(2)] ids_inv_cong [OF i(3)] by (simp add: w')
qed

lemma mincdeposit_inv:
  assumes inv: "pool_inv (pool w)" and run: "mincdeposit c m space q b w = Inr w'"
  shows "pool_inv (pool w')"
proof -
  let ?db = "pool w"
  obtain row where row: "map_of (miners ?db) m = Some row" using run by (auto simp: mincdeposit_def Let_def)
  have i: "users_inv ?db" "spaces_inv ?db" "ids_inv ?db" "ids_agree ?db" "miners_inv ?db" "total_inv ?db" "pools_inv ?db"
      "twf (minerinfos ?db)" "twf (maccounts ?db)"
    using inv by (simp_all add: pool_inv_def miners_inv_def)
  obtain info where info: "map_of (minerinfos ?db) m = Some info" using i(5) row by (rule miner_row_info)
  then obtain acc where acc: "map_of (maccounts ?db) (mi_owner info, m) = Some acc" and ok: "miner_ok info row acc"
    using miner_rows [OF i(5) info] row by auto
  let ?rs = "if mn_real_space row > 0 then mn_real_space row + space else mn_real_space row"
  let ?row = "row\<lparr>mn_max_space := mn_max_space row + space, mn_real_space := ?rs\<rparr>"
  let ?info = "info\<lparr>mi_max_space := mi_max_space info + space, mi_space_left := mi_space_left info + space\<rparr>"
  obtain p where al: "space AND 65535 = 0" and mx: "space + mi_max_space info \<le> max_miner_space"
      "min_miner_space \<le> space + mi_max_space info"
      and p: "map_of (storepools ?db) (mi_pool_id info) = Some p" and le: "space \<le> sp_space_left p"
      and w': "pool w' = put_minerinfo m ?info (chg_total_space space True (?db\<lparr>storepools := tput (mi_pool_id info)
        (p\<lparr>sp_space_left := sp_space_left p - space\<rparr>) (storepools ?db), miners := tput m ?row (miners ?db)\<rparr>))"
    using run row info ok by (auto simp: mincdeposit_def Let_def put_storepool_def miner_ok_def simp del: if_split)
  have r: "sp_space_left p \<le> sp_max_space p" "sp_max_space p \<le> max_pool_space"
    using i(7) p by (auto simp: pools_inv_def pool_row_ok_def)
  note o = miner_okD [OF ok]
  have sm: "space \<le> max_pool_space" using le r by order
  have b1: "uint (mi_max_space info) \<le> uint max_miner_space" "uint space \<le> uint max_pool_space"
      "uint (mi_space_left info) \<le> uint (mi_max_space info)"
    using uint_le [OF o(3)] uint_le [OF sm] ok by (simp_all add: miner_ok_def uint_le)
  have um: "uint (mi_max_space info + space) = uint (mi_max_space info) + uint space"
    using b1 by (intro uint_add) simp
  have ul: "uint (mi_space_left info + space) = uint (mi_space_left info) + uint space"
    using b1 by (intro uint_add) simp
  have d: "65536 dvd uint space" using al by (simp add: and_65535)
  have lm: "mi_space_left info + space \<le> mi_max_space info + space" unfolding word_le_def um ul using b1 by simp
  have ok': "miner_ok ?info ?row acc"
    using ok mx [unfolded add.commute [of space]] lm d by (simp add: miner_ok_def um ul)
  have us: "uint (sp_space_left p - space) = uint (sp_space_left p) - uint space" using le by (rule uint_sub)
  have pl: "sp_space_left p - space \<le> sp_max_space p" using word_sub_le [OF le] r by order
  have "pools_inv (pool w')" unfolding w' put_minerinfo_def
    by (rule pools_inv_change [OF i(7,8) info, where info' = ?info])
       (use i(7) p pl us um in \<open>auto simp: pools_inv_def pool_row_ok_def split: if_splits\<close>)
  moreover have "miners_inv (pool w')" unfolding w' put_minerinfo_def
    by (rule miners_inv_put [OF i(5) info ok']) (simp_all add: tput_triv [OF i(9) acc])
  moreover have "ids_agree (pool w')" unfolding w' put_minerinfo_def
    by (rule ids_agree_put [OF i(4) row, where row' = ?row]) simp_all
  moreover have "total_inv (pool w')"
  proof -
    have tg: "uint (total_gb ?db) = registered_gb (minerinfos ?db)" using i(6) by (simp add: total_inv_def total_gb_def)
    then have "uint (total_gb (chg_total_space space True ?db)) = registered_gb (minerinfos ?db) + uint space div 65536"
      using registered_gb_bound [OF i(5,3,4)] sm by (simp add: chg_total_space_effect)
    moreover have "total_gb (pool w') = total_gb (chg_total_space space True ?db)"
      by (simp add: w' put_minerinfo_def total_gb_def chg_total_space_def Let_def)
    moreover have "uint (mi_max_space info + space) div 65536 = uint (mi_max_space info) div 65536 + uint space div 65536"
      unfolding um using d by (simp add: div_plus_div_distrib_dvd_right)
    ultimately show ?thesis
      using info by (simp add: total_inv_def total_gb_def [symmetric]) (simp add: w' put_minerinfo_def registered_gb_def tbl.total_put [OF i(8)])
  qed
  ultimately show ?thesis unfolding pool_inv_def
    using users_inv_cong [OF i(1)] spaces_inv_cong [OF i(2)] ids_inv_cong [OF i(3)] by (simp add: w' put_minerinfo_def)
qed

subsection \<open>Registration and removal of miners\<close>

lemma miners_inv_add:
  assumes inv: "miners_inv db" and new: "map_of (minerinfos db) m = None" and ok: "miner_ok info row acc" "m \<noteq> 0" "mi_owner info \<noteq> 0"
    and t: "minerinfos db' = tput m info (minerinfos db)" "miners db' = tput m row (miners db)"
      "maccounts db' = tput (mi_owner info, m) acc (maccounts db)"
  shows "miners_inv db'"
proof -
  have "map_of (maccounts db) (u, m) = None" for u using inv new by (fastforce simp: miners_inv_def)
  then show ?thesis using inv new ok unfolding miners_inv_def t by (auto split: if_splits)
qed

lemma miners_inv_del:
  assumes inv: "miners_inv db" and info: "map_of (minerinfos db) m = Some info"
    and t: "minerinfos db' = tdel m (minerinfos db)" "miners db' = tdel m (miners db)"
      "maccounts db' = tdel (mi_owner info, m) (maccounts db)"
  shows "miners_inv db'"
proof -
  have "map_of (maccounts db) (u, m) = None" if "u \<noteq> mi_owner info" for u using inv info that by (fastforce simp: miners_inv_def)
  then show ?thesis using inv info unfolding miners_inv_def t by (auto split: if_splits)
qed

text \<open>The spaces of the accounts, up to a pending change.\<close>

definition spaces_at :: "(name \<Rightarrow> int) \<Rightarrow> pool_db \<Rightarrow> bool" where
  "spaces_at d db \<longleftrightarrow> (\<forall>u s. space_of db u = Some s \<longrightarrow> u \<noteq> ecologyfound \<longrightarrow> uint s = d u)"

lemma spaces_inv_at:
  "spaces_inv db \<longleftrightarrow> spaces_at (\<lambda>u. owner_load u (maccounts db)) db
     \<and> (\<forall>u m. map_of (maccounts db) (u, m) \<noteq> None \<longrightarrow> space_of db u \<noteq> None)"
  by (simp add: spaces_inv_def spaces_at_def)

lemma spaces_at_cong: "spaces_at d db \<Longrightarrow> userhdds db' = userhdds db \<Longrightarrow> (\<And>u. u \<noteq> ecologyfound \<Longrightarrow> d' u = d u) \<Longrightarrow> spaces_at d' db'"
  using space_of_cong [of db' db] by (simp add: spaces_at_def)

lemma chg_owner_space_at:
  assumes users: "users_inv db" and at: "spaces_at d db" and run: "chg_owner_space o' delta inc calc ct dl db = Inr db'"
    and b: "delta \<le> max_miner_space" "\<not> inc \<Longrightarrow> uint delta \<le> d o'"
  shows "spaces_at (d(o' := if inc then d o' + uint delta else d o' - uint delta)) db'" and "users_inv db'" and "same_miners db db'"
    and "space_of db' u = None \<longleftrightarrow> space_of db u = None"
proof -
  note ce = chg_owner_space_effect [OF users run]
  show "users_inv db'" "same_miners db db'" using ce by auto
  have "spaces_at (d(o' := if inc then d o' + uint delta else d o' - uint delta)) db' \<and> (space_of db' u = None \<longleftrightarrow> space_of db u = None)"
  proof (cases "o' = ecologyfound")
    case True
    then show ?thesis using ce(3) at by (auto simp: spaces_at_def)
  next
    case False
    then obtain s where s: "space_of db o' = Some s" "space_of db' = (space_of db)(o' \<mapsto> moved_space inc s delta)"
      using ce(4) by auto
    have "s \<le> max_profit_space" using s(1) users by (auto simp: space_of_def users_inv_def user_ok_def)
    moreover have us: "uint s = d o'" using at s(1) False by (simp add: spaces_at_def)
    moreover have "\<not> inc \<Longrightarrow> delta \<le> s" using b(2) us by (simp add: word_le_def)
    ultimately have "uint (moved_space inc s delta) = (if inc then d o' + uint delta else d o' - uint delta)"
      using b(1) moved_space_uint(1) [of inc delta s] moved_space_uint(2) [of inc s delta] by (cases inc) simp_all
    then show ?thesis using at s by (auto simp: spaces_at_def)
  qed
  then show "spaces_at (d(o' := if inc then d o' + uint delta else d o' - uint delta)) db'"
    "space_of db' u = None \<longleftrightarrow> space_of db u = None" by simp_all
qed

lemma new_user_hdd_at:
  assumes users: "users_inv db" and at: "spaces_at d db" and run: "new_user_hdd now o' 0 db = Inr db'" and z: "d o' = 0"
  shows "spaces_at d db'" and "users_inv db'" and "same_miners db db'" and "space_of db' = (space_of db)(o' \<mapsto> 0)"
proof -
  have "is_hdd_amount_within_range 0" by (simp add: is_hdd_amount_within_range_def max_hdd_amount_def)
  note e = new_user_hdd_effect [OF users this run]
  show "spaces_at d db'" "users_inv db'" "same_miners db db'" "space_of db' = (space_of db)(o' \<mapsto> 0)"
    using e at z by (auto simp: spaces_at_def)
qed

lemma owner_load_zero:
  assumes "twf t" and "\<And>m. map_of t (u, m) = None"
  shows "owner_load u t = 0"
proof -
  have "owner_load u t = tsum (\<lambda>_ _. 0) t" unfolding owner_load_def using assms by (intro tsum_cong) auto
  also have "tsum (\<lambda>_ _. 0) t = 0" by (induction t) auto
  finally show ?thesis .
qed

lemma owner_load_new:
  assumes "twf t" and "map_of t (o', m) = None"
  shows "owner_load u (tput (o', m) acc t) = owner_load u t + (if u = o' then active_space acc else 0)"
  using assms by (simp add: owner_load_def tbl.total_put)

lemma owner_load_del:
  assumes "twf t" and "map_of t (o', m) = Some acc"
  shows "owner_load u (tdel (o', m) t) = owner_load u t - (if u = o' then active_space acc else 0)"
  using assms by (simp add: owner_load_def tbl.total_del)

lemma join_owner_effect:
  assumes users: "users_inv db" and sp: "spaces_inv db" and wf: "twf (maccounts db)" and run: "join_owner now m o' db = Inr db'"
  shows "map_of (maccounts db) (o', m) = None" and "maccounts db' = tput (o', m) (new_maccount now o') (maccounts db)"
    and "users_inv db'" and "spaces_inv db'"
    and "storepools db' = storepools db" "minerinfos db' = minerinfos db" "miners db' = miners db"
      "miner2s db' = miner2s db" "gminer2ex db' = gminer2ex db" "gcounter db' = gcounter db"
proof -
  define db0 where "db0 = (if list_all (\<lambda>r. fst (fst r) \<noteq> o') (maccounts db)
      then db\<lparr>gmacccount := map_option (\<lambda>n. n + 1) (gmacccount db)\<rparr> else db)"
  define db1 where "db1 = put_maccount o' m (new_maccount now o') db0"
  have f0: "maccounts db0 = maccounts db" "userhdds db0 = userhdds db" "gusercount db0 = gusercount db"
      "storepools db0 = storepools db" "minerinfos db0 = minerinfos db" "miners db0 = miners db"
      "miner2s db0 = miner2s db" "gminer2ex db0 = gminer2ex db" "gcounter db0 = gcounter db"
    by (simp_all add: db0_def)
  show new: "map_of (maccounts db) (o', m) = None"
    using run by (simp add: join_owner_def db0_def [symmetric] has_key_def f0 Let_def)
  have run1: "(if has_key (userhdds db1) o' then Inr db1 else new_user_hdd now o' 0 db1) = Inr db'"
    using run by (auto simp: join_owner_def db0_def [symmetric] db1_def Let_def split: if_splits)
  have f1: "maccounts db1 = tput (o', m) (new_maccount now o') (maccounts db)" "userhdds db1 = userhdds db" "gusercount db1 = gusercount db"
      "storepools db1 = storepools db" "minerinfos db1 = minerinfos db" "miners db1 = miners db"
      "miner2s db1 = miner2s db" "gminer2ex db1 = gminer2ex db" "gcounter db1 = gcounter db"
    by (simp_all add: db1_def put_maccount_def f0)
  have u1: "users_inv db1" by (rule users_inv_cong [OF users f1(2,3)])
  let ?d = "\<lambda>u. owner_load u (maccounts db)"
  have at1: "spaces_at ?d db1" using sp f1(2) by (auto simp: spaces_inv_at intro: spaces_at_cong)
  have "active_space (new_maccount now o') = 0" by (simp add: active_space_def new_maccount_def)
  then have ld: "owner_load u (tput (o', m) (new_maccount now o') (maccounts db)) = ?d u" for u
    using owner_load_new [OF wf new] by simp
  have r: "users_inv db' \<and> spaces_at ?d db' \<and> same_miners db1 db' \<and> space_of db' = (space_of db)(o' \<mapsto> the (space_of db' o'))"
  proof (cases "has_key (userhdds db1) o'")
    case True
    then have "db' = db1" using run1 by simp
    moreover have "space_of db o' \<noteq> None" using True f1(2) by (auto simp: has_key_def space_of_def)
    ultimately show ?thesis using u1 at1 space_of_cong [OF f1(2)] by auto
  next
    case False
    then have n: "space_of db o' = None" using f1(2) by (simp add: has_key_def space_of_def)
    have "map_of (maccounts db) (o', k) = None" for k using sp n unfolding spaces_inv_def by blast
    then have z: "?d o' = 0" by (rule owner_load_zero [OF wf])
    have "new_user_hdd now o' 0 db1 = Inr db'" using run1 False by simp
    note e = new_user_hdd_at [OF u1 at1 this z]
    show ?thesis using e space_of_cong [OF f1(2)] by auto
  qed
  then show t: "maccounts db' = tput (o', m) (new_maccount now o') (maccounts db)" and "users_inv db'"
      and "storepools db' = storepools db" "minerinfos db' = minerinfos db" "miners db' = miners db"
      "miner2s db' = miner2s db" "gminer2ex db' = gminer2ex db" "gcounter db' = gcounter db"
    using f1 by (simp_all add: same_miners_def)
  have dom: "space_of db' u \<noteq> None" if "u = o' \<or> space_of db u \<noteq> None" for u
    using r that by (metis fun_upd_apply option.distinct(1))
  have own: "space_of db u \<noteq> None" if "map_of (maccounts db) (u, k) \<noteq> None" for u k
    using sp that unfolding spaces_inv_def by blast
  have "space_of db' u \<noteq> None" if "map_of (maccounts db') (u, k) \<noteq> None" for u k
    using that own [of u k] dom [of u] unfolding t by (auto split: if_splits)
  then show "spaces_inv db'" using r unfolding spaces_inv_at t ld by blast
qed

lemma pool_load_new:
  assumes "twf t" and "map_of t m = None"
  shows "pool_load p (tput m info t) = pool_load p t + (if mi_pool_id info = p then uint (mi_max_space info) else 0)"
  using assms by (simp add: pool_load_def tbl.total_put)

lemma pool_load_del:
  assumes "twf t" and "map_of t m = Some info"
  shows "pool_load p (tdel m t) = pool_load p t - (if mi_pool_id info = p then uint (mi_max_space info) else 0)"
  using assms by (simp add: pool_load_def tbl.total_del)

lemma total_inv_gb: "total_inv db \<longleftrightarrow> uint (total_gb db) = registered_gb (minerinfos db)"
  by (simp add: total_inv_def total_gb_def)

definition ids_room :: "pool_db \<Rightarrow> bool" where
  "ids_room db \<longleftrightarrow> unat (mx_max_table_count (m2ex_of db)) + 1 < 2 ^ 32"

lemma ids_agree_add:
  assumes ag: "ids_agree db" and new: "map_of (miners db) m = None" and free: "slots (miner2s db) (ucast iid) = None"
    and t: "miners db' = tput m row (miners db)" "mn_internal_id row = iid" "slots (miner2s db') = (slots (miner2s db))(ucast iid \<mapsto> m)"
  shows "ids_agree db'"
proof -
  have e: "\<exists>row. map_of (miners db) m' = Some row \<and> ucast (mn_internal_id row) = i" if "slots (miner2s db) i = Some m'" for m' i
    using ag that by (simp add: ids_agree_def)
  have ne: "m' \<noteq> m" if "slots (miner2s db) i = Some m'" for m' i using e [OF that] new by auto
  have f: "ucast (mn_internal_id r) \<noteq> (ucast iid :: u64)" if "map_of (miners db) m' = Some r" for m' r
    using ag that free by (metis ids_agree_def option.distinct(1))
  show ?thesis unfolding ids_agree_def t using ag t(2) ne f new
    by (auto simp: ids_agree_def split: if_splits)
qed

lemma ids_agree_del:
  assumes ag: "ids_agree db" and row: "map_of (miners db) m = Some row"
    and t: "miners db' = tdel m (miners db)" "slots (miner2s db') = (slots (miner2s db))(ucast (mn_internal_id row) := None)"
  shows "ids_agree db'"
proof -
  have "m' = m" if "slots (miner2s db) (ucast (mn_internal_id row)) = Some m'" for m'
    using ag row that by (metis ids_agree_def option.inject)
  then show ?thesis unfolding ids_agree_def t using ag row by (auto simp: ids_agree_def split: if_splits)
qed

lemma regminer_db_inv:
  assumes inv: "pool_inv db" and room: "ids_room db" and ids0: "m \<noteq> 0" "o' \<noteq> 0"
    and new: "map_of (minerinfos db) m = None" and p: "map_of (storepools db) pid = Some p"
    and mx: "65536 dvd uint mx" "min_miner_space \<le> mx" "mx \<le> max_miner_space" "mx \<le> sp_space_left p"
    and run: "regminer_db now m adm pid o' mx p db = Inr db'"
  shows "pool_inv db'"
proof -
  let ?info = "\<lparr>mi_owner = o', mi_admin = adm, mi_pool_id = pid, mi_max_space = mx, mi_space_left = mx\<rparr>"
  have i: "users_inv db" "spaces_inv db" "ids_inv db" "ids_agree db" "miners_inv db" "total_inv db" "pools_inv db"
      "twf (minerinfos db)" "twf (maccounts db)"
    using inv by (simp_all add: pool_inv_def miners_inv_def)
  let ?db1 = "put_storepool pid (p\<lparr>sp_space_left := sp_space_left p - mx\<rparr>) db"
  obtain db2 where j: "join_owner now m o' ?db1 = Inr db2"
    using run by (auto simp: regminer_db_def Let_def)
  have s1: "users_inv ?db1" "spaces_inv ?db1" "twf (maccounts ?db1)"
    using users_inv_cong [OF i(1)] spaces_inv_cong [OF i(2)] i(9) by (simp_all add: put_storepool_def)
  note je = join_owner_effect [OF s1 j]
  define db3 where "db3 = chg_total_space mx True (put_minerinfo m ?info db2)"
  have newm: "map_of (miners db) m = None" using i(5) new by (auto simp: miners_inv_def)
  have f3: "miner2s db3 = miner2s db" "gminer2ex db3 = gminer2ex db" "miners db3 = miners db"
      "minerinfos db3 = tput m ?info (minerinfos db)" "storepools db3 = tput pid (p\<lparr>sp_space_left := sp_space_left p - mx\<rparr>) (storepools db)"
      "maccounts db3 = tput (o', m) (new_maccount now o') (maccounts db)" "userhdds db3 = userhdds db2" "gusercount db3 = gusercount db2"
    by (simp_all add: db3_def put_minerinfo_def je put_storepool_def)
  have ids3: "ids_inv db3" by (rule ids_inv_cong [OF i(3) f3(1,2)])
  have m2: "m2ex_of db3 = m2ex_of db" by (simp add: m2ex_of_def f3)
  have rm: "free_ids (miner2s db3) = {} \<longrightarrow> unat (mx_max_table_count (m2ex_of db3)) + 1 < 2 ^ 32"
    using room m2 by (simp add: ids_room_def)
  obtain t g iid where ins: "insert_miner2 m db3 = Inr (db3\<lparr>miner2s := t, gminer2ex := Some g\<rparr>, iid)"
      and ids4: "ids_inv (db3\<lparr>miner2s := t, gminer2ex := Some g\<rparr>)"
      and free: "slots (miner2s db) (ucast iid) = None" and sl: "slots t = (slots (miner2s db))(ucast iid \<mapsto> m)"
    using insert_miner2_refines [OF ids3 ids0(1) rm] f3(1) by auto
  let ?row = "new_miner now o' adm pid mx iid"
  have db': "db' = db3\<lparr>miner2s := t, gminer2ex := Some g, miners := tput m ?row (miners db)\<rparr>"
    using run j ins newm by (auto simp: regminer_db_def Let_def db3_def [symmetric] f3)
  have ok: "miner_ok ?info ?row (new_maccount now o')"
    using mx by (simp add: miner_ok_def new_miner_def new_maccount_def defaul_miner_level_def)
  have r: "pool_row_ok db pid p" using i(7) p by (simp add: pools_inv_def)
  have us: "uint (sp_space_left p - mx) = uint (sp_space_left p) - uint mx" using mx(4) by (rule uint_sub)
  have pl: "sp_space_left p - mx \<le> sp_max_space p" using word_sub_le [OF mx(4)] r by (auto simp: pool_row_ok_def)
  have "pools_inv db'"
    using i(7) new us pl r
    by (auto simp: db' f3 pools_inv_def pool_row_ok_def pool_load_new [OF i(8) new] split: if_splits)
  moreover have "miners_inv db'"
    by (rule miners_inv_add [OF i(5) new ok]) (simp_all add: db' f3 ids0)
  moreover have "ids_agree db'"
    by (rule ids_agree_add [OF i(4) newm free, where row = ?row]) (simp_all add: db' f3 new_miner_def sl)
  moreover have "ids_inv db'" by (rule ids_inv_cong [OF ids4]) (simp_all add: db')
  moreover have "total_inv db'"
  proof -
    have "mx \<le> max_pool_space" using mx(3) by (simp add: word_le_def)
    then have "uint (total_gb db3) = registered_gb (minerinfos db) + uint mx div 65536"
      unfolding db3_def using registered_gb_bound [OF i(5,3,4)] i(6)
      by (subst chg_total_space_effect) (simp_all add: total_inv_gb total_gb_def put_minerinfo_def je put_storepool_def)
    then show ?thesis using new unfolding total_inv_gb
      by (simp add: total_gb_def db' f3 registered_gb_def tbl.total_put [OF i(8)])
  qed
  moreover have "users_inv db'" by (rule users_inv_cong [OF je(3)]) (simp_all add: db' f3)
  moreover have "spaces_inv db'" by (rule spaces_inv_cong [OF je(4)]) (simp_all add: db' f3 je put_storepool_def)
  ultimately show ?thesis by (simp add: pool_inv_def)
qed

lemma regminer_inv:
  assumes inv: "pool_inv (pool w)" and room: "ids_room (pool w)" and acc0: "\<not> is_account c 0"
    and run: "regminer c m adm da pid o' mx q b w = Inr w'"
  shows "pool_inv (pool w')"
proof -
  obtain p where c: "is_account c o'" "0 < m" "map_of (storepools (pool w)) pid = Some p" "map_of (minerinfos (pool w)) m = None"
      "mx AND 65535 = 0" "mx \<le> max_miner_space" "min_miner_space \<le> mx" "mx \<le> sp_space_left p"
      and r: "regminer_db (current_time c) m adm pid o' mx p (pool w) = Inr (pool w')"
    using run by (auto simp: regminer_def has_key_def simp del: if_split)
  show ?thesis
    by (rule regminer_db_inv [OF inv room _ _ c(4,3) _ c(7,6,8) r]) (use c acc0 in \<open>auto simp: and_65535\<close>)
qed

lemma slots_zero:
  assumes "ids_inv db"
  shows "slots (miner2s db) 0 = None"
proof -
  have "map_of (miner2s db) 0 \<noteq> None \<longleftrightarrow> 1 \<le> (0 :: u64) \<and> 0 \<le> mx_max_table_count (m2ex_of db)"
    using assms unfolding ids_inv_def by blast
  then show ?thesis by (simp add: slots_def)
qed

text \<open>Taking the production space of a miner from its owner, when the miner is active.\<close>

lemma release_space:
  assumes users: "users_inv db" and sp: "spaces_inv db" and wf: "twf (maccounts db)"
    and acc: "map_of (maccounts db) (o', m) = Some acc" "ma_space acc \<le> max_miner_space"
    and run: "(if 0 < ma_hdd_per_cycle_profit acc then chg_owner_space o' (ma_space acc) False calc now 0 db else Inr db) = Inr db1"
  shows "spaces_at (\<lambda>u. owner_load u (tdel (o', m) (maccounts db))) db1" and "users_inv db1" and "same_miners db db1"
    and "space_of db1 u = None \<longleftrightarrow> space_of db u = None"
proof -
  let ?d = "\<lambda>u. owner_load u (maccounts db)"
  have at: "spaces_at ?d db" using sp by (simp add: spaces_inv_at)
  note ld = owner_load_del [OF wf acc(1)]
  have "spaces_at (\<lambda>u. owner_load u (tdel (o', m) (maccounts db))) db1 \<and> users_inv db1 \<and> same_miners db db1
    \<and> (space_of db1 u = None \<longleftrightarrow> space_of db u = None)"
  proof (cases "0 < ma_hdd_per_cycle_profit acc")
    case True
    then have a: "active_space acc = uint (ma_space acc)" by (simp add: active_space_def)
    have le: "\<not> False \<Longrightarrow> uint (ma_space acc) \<le> ?d o'" using active_le_load [OF wf acc(1)] a by simp
    have r: "chg_owner_space o' (ma_space acc) False calc now 0 db = Inr db1" using run True by simp
    note e = chg_owner_space_at [OF users at r acc(2) le]
    have "spaces_at (\<lambda>u. owner_load u (tdel (o', m) (maccounts db))) db1"
      by (rule spaces_at_cong [OF e(1)]) (simp_all add: ld a)
    then show ?thesis using e by simp
  next
    case False
    then have a: "active_space acc = 0" and e: "db1 = db" using run by (simp_all add: active_space_def)
    show ?thesis unfolding e using users by (auto intro: spaces_at_cong [OF at] simp: ld a)
  qed
  then show "spaces_at (\<lambda>u. owner_load u (tdel (o', m) (maccounts db))) db1" and "users_inv db1" and "same_miners db db1"
    and "space_of db1 u = None \<longleftrightarrow> space_of db u = None" by simp_all
qed

lemma leave_owner_effect:
  assumes users: "users_inv db" and sp: "spaces_inv db" and wf: "twf (maccounts db)"
    and acc: "map_of (maccounts db) (mi_owner info, m) = Some acc" "ma_space acc \<le> max_miner_space" and o0: "mi_owner info \<noteq> 0"
    and run: "leave_owner now m info db = Inr db'"
  shows "maccounts db' = tdel (mi_owner info, m) (maccounts db)" and "users_inv db'" and "spaces_inv db'"
    and "storepools db' = storepools db" "minerinfos db' = minerinfos db" "miners db' = miners db"
      "miner2s db' = miner2s db" "gminer2ex db' = gminer2ex db" "gcounter db' = gcounter db"
proof -
  obtain db1 where r: "(if 0 < ma_hdd_per_cycle_profit acc then chg_owner_space (mi_owner info) (ma_space acc) False False now 0 db
        else Inr db) = Inr db1"
      and db': "db' = db1\<lparr>maccounts := tdel (mi_owner info, m) (maccounts db1)\<rparr>"
    using run acc o0 by (auto simp: leave_owner_def simp del: if_split)
  note e = release_space [OF users sp wf acc r]
  show t: "maccounts db' = tdel (mi_owner info, m) (maccounts db)" and "storepools db' = storepools db" "minerinfos db' = minerinfos db"
      "miners db' = miners db" "miner2s db' = miner2s db" "gminer2ex db' = gminer2ex db" "gcounter db' = gcounter db"
    using e(3) by (simp_all add: db' same_miners_def)
  show "users_inv db'" by (rule users_inv_cong [OF e(2)]) (simp_all add: db')
  have at: "spaces_at (\<lambda>u. owner_load u (maccounts db')) db'"
    by (rule spaces_at_cong [OF e(1)]) (simp_all add: t, simp add: db')
  have so: "space_of db' = space_of db1" by (rule space_of_cong) (simp add: db')
  have own: "space_of db u \<noteq> None" if "map_of (maccounts db) (u, k) \<noteq> None" for u k
    using sp that unfolding spaces_inv_def by blast
  have "space_of db' u \<noteq> None" if "map_of (maccounts db') (u, k) \<noteq> None" for u k
    using that own [of u k] e(4) [of u] unfolding t so by (auto split: if_splits)
  then show "spaces_inv db'" using at unfolding spaces_inv_at by blast
qed

lemma delminer_inv:
  assumes inv: "pool_inv (pool w)" and run: "delminer c m ty x w = Inr w'"
  shows "pool_inv (pool w')"
proof -
  let ?db = "pool w"
  have i: "users_inv ?db" "spaces_inv ?db" "ids_inv ?db" "ids_agree ?db" "miners_inv ?db" "total_inv ?db" "pools_inv ?db"
      "twf (minerinfos ?db)" "twf (maccounts ?db)"
    using inv by (simp_all add: pool_inv_def miners_inv_def)
  obtain info db1 where info: "map_of (minerinfos ?db) m = Some info"
      and lo: "leave_owner (current_time c) m info ?db = Inr db1"
      and dm: "drop_miner m (chg_total_space (mi_max_space info) False
        ((leave_pool info db1)\<lparr>minerinfos := tdel m (minerinfos (leave_pool info db1))\<rparr>)) = Inr (pool w')"
    using run by (auto simp: delminer_def Let_def split: if_splits)
  obtain row acc where row: "map_of (miners ?db) m = Some row" and acc: "map_of (maccounts ?db) (mi_owner info, m) = Some acc"
      and ok: "miner_ok info row acc" and o0: "mi_owner info \<noteq> 0" using i(5) info by (rule miner_rows)
  note o = miner_okD [OF ok]
  note le = leave_owner_effect [OF i(1,2,9) acc o(5) o0 lo]
  obtain p where p: "map_of (storepools ?db) (mi_pool_id info) = Some p"
    using i(7) info by (fastforce simp: pools_inv_def)
  let ?sp = "if mi_pool_id info = 0 then storepools ?db
    else tput (mi_pool_id info) (p\<lparr>sp_space_left := sp_space_left p + mi_max_space info\<rparr>) (storepools ?db)"
  have lp: "leave_pool info db1 = db1\<lparr>storepools := ?sp\<rparr>"
    using p le(4) by (simp add: leave_pool_def put_storepool_def)
  define db3 where "db3 = chg_total_space (mi_max_space info) False
    ((leave_pool info db1)\<lparr>minerinfos := tdel m (minerinfos (leave_pool info db1))\<rparr>)"
  have f3: "miner2s db3 = miner2s ?db" "gminer2ex db3 = gminer2ex ?db" "miners db3 = miners ?db"
      "minerinfos db3 = tdel m (minerinfos ?db)" "storepools db3 = ?sp"
      "maccounts db3 = tdel (mi_owner info, m) (maccounts ?db)" "userhdds db3 = userhdds db1" "gusercount db3 = gusercount db1"
    by (simp_all add: db3_def lp le)
  have slot: "slots (miner2s db3) (ucast (mn_internal_id row)) = Some m"
    using i(4) row unfolding f3 ids_agree_def by blast
  have ids3: "ids_inv db3" by (rule ids_inv_cong [OF i(3) f3(1,2)])
  then have "mn_internal_id row \<noteq> 0" using slot slots_zero [of db3] by auto
  moreover obtain t g where del: "del_miner2 (ucast (mn_internal_id row)) db3 = Inr (db3\<lparr>miner2s := t, gminer2ex := Some g\<rparr>)"
      and ids4: "ids_inv (db3\<lparr>miner2s := t, gminer2ex := Some g\<rparr>)"
      and sl: "slots t = (slots (miner2s ?db))(ucast (mn_internal_id row) := None)"
    using del_miner2_refines [OF ids3 slot] f3(1) by auto
  ultimately have db': "pool w' = db3\<lparr>miner2s := t, gminer2ex := Some g, miners := tdel m (miners ?db)\<rparr>"
    using dm row f3(3) by (simp add: drop_miner_def db3_def [symmetric])
  have r: "pool_row_ok ?db (mi_pool_id info) p" using i(7) p by (simp add: pools_inv_def)
  have used: "uint (mi_max_space info) \<le> uint (sp_max_space p) - uint (sp_space_left p)"
    using pool_load_ge [OF i(8) info] r by (simp add: pool_row_ok_def)
  have mp: "uint (sp_max_space p) \<le> uint max_pool_space" using r by (intro uint_le) (simp add: pool_row_ok_def)
  have ul: "uint (sp_space_left p + mi_max_space info) = uint (sp_space_left p) + uint (mi_max_space info)"
    using used mp by (intro uint_add) simp
  have lm: "sp_space_left p + mi_max_space info \<le> sp_max_space p" unfolding word_le_def ul using used by simp
  have "pools_inv (pool w')"
  proof -
    have "pool_row_ok (pool w') q sp" if q: "map_of (storepools (pool w')) q = Some sp" for q sp
    proof (cases "q = mi_pool_id info")
      case True
      obtain y where y: "uint (mi_max_space info) = y" "0 \<le> y" by simp
      show ?thesis using True q p r lm ul y(2)
        by (auto simp: y(1) db' f3 pool_row_ok_def pool_load_del [OF i(8) info] split: if_splits)
    next
      case False
      then have "map_of (storepools ?db) q = Some sp" using q by (simp add: db' f3 split: if_splits)
      then have "pool_row_ok ?db q sp" using i(7) by (simp add: pools_inv_def)
      then show ?thesis using False by (simp add: db' f3 pool_row_ok_def pool_load_del [OF i(8) info])
    qed
    then show ?thesis using i(7) by (auto simp: pools_inv_def db' f3 split: if_splits)
  qed
  moreover have "miners_inv (pool w')"
    by (rule miners_inv_del [OF i(5) info]) (simp_all add: db' f3)
  moreover have "ids_agree (pool w')"
    by (rule ids_agree_del [OF i(4) row]) (simp_all add: db' f3 sl)
  moreover have "ids_inv (pool w')" by (rule ids_inv_cong [OF ids4]) (simp_all add: db')
  moreover have "total_inv (pool w')"
  proof -
    have mx: "mi_max_space info \<le> max_pool_space" using o(3) by (simp add: word_le_def)
    have g0: "registered_gb (tdel m (minerinfos ?db)) = registered_gb (minerinfos ?db) - uint (mi_max_space info) div 65536"
      using info by (simp add: registered_gb_def tbl.total_del [OF i(8)])
    have ge: "uint (mi_max_space info) div 65536 \<le> registered_gb (minerinfos ?db)"
      using registered_gb_nonneg [of "tdel m (minerinfos ?db)"] i(8) g0 by simp
    have tg: "total_gb ((leave_pool info db1)\<lparr>minerinfos := u\<rparr>) = total_gb ?db" for u
      by (simp add: total_gb_def lp le)
    have "uint (total_gb db3) = registered_gb (minerinfos ?db) - uint (mi_max_space info) div 65536"
      unfolding db3_def using registered_gb_bound [OF i(5,3,4)] i(6) mx ge
      by (subst chg_total_space_effect) (simp_all add: total_inv_gb tg)
    then show ?thesis unfolding total_inv_gb by (simp add: total_gb_def db' f3 g0)
  qed
  moreover have "users_inv (pool w')" by (rule users_inv_cong [OF le(2)]) (simp_all add: db' f3)
  moreover have "spaces_inv (pool w')" by (rule spaces_inv_cong [OF le(3)]) (simp_all add: db' f3 le)
  ultimately show ?thesis by (simp add: pool_inv_def)
qed

lemma mchgowneracc_inv:
  assumes inv: "pool_inv (pool w)" and acc0: "\<not> is_account c 0" and run: "mchgowneracc c m n w = Inr w'"
  shows "pool_inv (pool w')"
proof -
  let ?db = "pool w"
  have i: "users_inv ?db" "spaces_inv ?db" "ids_inv ?db" "ids_agree ?db" "miners_inv ?db" "total_inv ?db" "pools_inv ?db"
      "twf (minerinfos ?db)" "twf (maccounts ?db)"
    using inv by (simp_all add: pool_inv_def miners_inv_def)
  obtain info acc db1 db2 db3 where info: "map_of (minerinfos ?db) m = Some info" and n: "is_account c n"
      and acc: "map_of (maccounts ?db) (mi_owner info, m) = Some acc"
      and r1: "(if 0 < ma_hdd_per_cycle_profit acc then chg_owner_space (mi_owner info) (ma_space acc) False True (current_time c) 0 ?db
        else Inr ?db) = Inr db1"
      and r2: "(if has_key (userhdds db1) n then Inr db1 else new_user_hdd (current_time c) n 0 db1) = Inr db2"
      and r3: "(if 0 < ma_hdd_per_cycle_profit acc then chg_owner_space n (ma_space acc) True True (current_time c) 0 db2
        else Inr db2) = Inr db3"
      and nk: "map_of (maccounts db3) (n, m) = None"
      and w': "pool w' = sync_miner m (\<lambda>row. row\<lparr>mn_owner := n\<rparr>) (put_minerinfo m (info\<lparr>mi_owner := n\<rparr>)
        ((put_maccount n m (acc\<lparr>ma_owner := n\<rparr>) db3)\<lparr>maccounts := tdel (mi_owner info, m)
          (maccounts (put_maccount n m (acc\<lparr>ma_owner := n\<rparr>) db3))\<rparr>))"
    using run by (auto simp: mchgowneracc_def Let_def has_key_def simp del: if_split)
  obtain row where row: "map_of (miners ?db) m = Some row" and ok: "miner_ok info row acc"
    using miner_rows [OF i(5) info] acc by auto
  note o = miner_okD [OF ok]
  let ?t = "maccounts ?db" and ?acc = "acc\<lparr>ma_owner := n\<rparr>"
  have own: "space_of ?db u \<noteq> None" if "map_of ?t (u, k) \<noteq> None" for u k
    using i(2) that unfolding spaces_inv_def by blast
  note e1 = release_space [OF i(1,2,9) acc o(5) r1]
  let ?d = "\<lambda>u. owner_load u (tdel (mi_owner info, m) ?t)"
  have e2: "spaces_at ?d db2 \<and> users_inv db2 \<and> same_miners db1 db2 \<and> space_of db2 n \<noteq> None
      \<and> (\<forall>u. space_of db1 u \<noteq> None \<longrightarrow> space_of db2 u \<noteq> None)"
  proof (cases "has_key (userhdds db1) n")
    case True
    then have "db2 = db1" "space_of db1 n \<noteq> None" using r2 by (auto simp: has_key_def space_of_def)
    then show ?thesis using e1(1-3) by simp
  next
    case False
    then have "space_of db1 n = None" by (simp add: has_key_def space_of_def)
    then have no: "map_of ?t (n, k) = None" for k using e1(4) [of n] own [of n k] by blast
    have z: "?d n = 0" using i(9) no by (intro owner_load_zero) auto
    have "new_user_hdd (current_time c) n 0 db1 = Inr db2" using r2 False by simp
    note nu = new_user_hdd_at [OF e1(2,1) this z]
    show ?thesis using nu by auto
  qed
  let ?t' = "tput (n, m) ?acc (tdel (mi_owner info, m) ?t)"
  have sm: "same_miners ?db db2" using e1(3) e2 same_miners_trans by blast
  have e3: "spaces_at (\<lambda>u. owner_load u ?t') db3 \<and> users_inv db3 \<and> same_miners db2 db3
      \<and> (\<forall>u. space_of db2 u \<noteq> None \<longrightarrow> space_of db3 u \<noteq> None)"
  proof (cases "0 < ma_hdd_per_cycle_profit acc")
    case True
    have "same_miners db2 db3"
      using r3 True e2 by (auto dest: chg_owner_space_effect(2) [rotated])
    then have nk': "map_of (tdel (mi_owner info, m) ?t) (n, m) = None" using nk sm by (simp add: same_miners_def)
    have a: "active_space ?acc = uint (ma_space acc)" using True by (simp add: active_space_def)
    have ld: "owner_load u ?t' = ?d u + (if u = n then uint (ma_space acc) else 0)" for u
      using owner_load_new [OF _ nk'] i(9) a by simp
    have r: "chg_owner_space n (ma_space acc) True True (current_time c) 0 db2 = Inr db3" using r3 True by simp
    have u2: "users_inv db2" and a2: "spaces_at ?d db2" using e2 by auto
    note e = chg_owner_space_at [OF u2 a2 r o(5)]
    have "spaces_at (\<lambda>u. owner_load u ?t') db3" by (rule spaces_at_cong [OF e(1)]) (simp_all add: ld)
    then show ?thesis using e by simp
  next
    case False
    then have db3: "db3 = db2" using r3 by simp
    then have nk': "map_of (tdel (mi_owner info, m) ?t) (n, m) = None" using nk sm by (simp add: same_miners_def)
    have "active_space ?acc = 0" using False by (simp add: active_space_def)
    then have ld: "owner_load u ?t' = ?d u" for u using owner_load_new [OF _ nk'] i(9) by simp
    have "spaces_at (\<lambda>u. owner_load u ?t') db2" by (rule spaces_at_cong [of ?d]) (use e2 in \<open>simp_all add: ld\<close>)
    then show ?thesis using e2 db3 by simp
  qed
  have s3: "same_miners ?db db3" using sm e3 same_miners_trans by blast
  have no: "n \<noteq> mi_owner info" using nk acc s3 by (auto simp: same_miners_def)
  have t': "tdel (mi_owner info, m) (tput (n, m) ?acc ?t) = ?t'"
    by (rule twf_ext) (use i(9) no in auto)
  have f: "maccounts (pool w') = ?t'" "minerinfos (pool w') = tput m (info\<lparr>mi_owner := n\<rparr>) (minerinfos ?db)"
      "miners (pool w') = tput m (row\<lparr>mn_owner := n\<rparr>) (miners ?db)" "storepools (pool w') = storepools ?db"
      "miner2s (pool w') = miner2s ?db" "gminer2ex (pool w') = gminer2ex ?db" "gcounter (pool w') = gcounter ?db"
      "userhdds (pool w') = userhdds db3" "gusercount (pool w') = gusercount db3"
    using row s3 t' by (simp_all add: w' sync_miner_def put_minerinfo_def put_maccount_def same_miners_def)
  have so: "space_of (pool w') = space_of db3" by (rule space_of_cong) (simp add: f)
  have "spaces_at (\<lambda>u. owner_load u (maccounts (pool w'))) (pool w')"
    unfolding f(1) by (rule spaces_at_cong [of "\<lambda>u. owner_load u ?t'" db3]) (use e3 f(8) in simp_all)
  moreover have "space_of (pool w') u \<noteq> None" if "map_of (maccounts (pool w')) (u, k) \<noteq> None" for u k
    using that own [of u k] e1(4) [of u] e2 e3 unfolding f(1) so by (auto split: if_splits)
  ultimately have "spaces_inv (pool w')" unfolding spaces_inv_at by blast
  moreover have "users_inv (pool w')" by (rule users_inv_cong [OF _ f(8,9)]) (use e3 in simp)
  moreover have "pools_inv (pool w')" by (rule pools_inv_put [OF i(7,8) info _ _ f(2,4)]) simp_all
  moreover have "total_inv (pool w')" by (rule total_inv_put [OF i(6,8) info _ _ f(2,7)]) simp_all
  moreover have "ids_agree (pool w')" by (rule ids_agree_put [OF i(4) row _ f(3,5)]) simp
  moreover have "ids_inv (pool w')" by (rule ids_inv_cong [OF i(3) f(5,6)])
  moreover have "miners_inv (pool w')"
  proof -
    have n0: "n \<noteq> 0" using n acc0 by auto
    have ok': "miner_ok (info\<lparr>mi_owner := n\<rparr>) (row\<lparr>mn_owner := n\<rparr>) ?acc" using ok by (simp add: miner_ok_def)
    have "map_of ?t (u, m) = None" if "u \<noteq> mi_owner info" for u using i(5) info that by (fastforce simp: miners_inv_def)
    then show ?thesis using i(5) info ok' n0 unfolding miners_inv_def f(1-3) by (auto split: if_splits)
  qed
  ultimately show ?thesis by (simp add: pool_inv_def)
qed

lemma oldsync_fails:
  assumes "miners_inv (pool w)"
  shows "isl (oldsync c m w)"
proof (rule ccontr)
  assume "\<not> isl (oldsync c m w)"
  then obtain w' where "oldsync c m w = Inr w'" by (cases "oldsync c m w") auto
  then obtain info where "map_of (miners (pool w)) m = None" "map_of (minerinfos (pool w)) m = Some info"
    by (auto simp: oldsync_def has_key_def)
  then show False using miner_rows [OF assms] by fastforce
qed

subsection \<open>Every action keeps the invariant\<close>

theorem pool_miner_apply_inv:
  assumes inv: "pool_inv (pool w)" and room: "ids_room (pool w)" and acc0: "\<not> is_account c 0"
    and run: "pool_miner_apply c a w = Inr w'"
  shows "pool_inv (pool w')"
proof (cases a)
  case (Oldsync m)
  then show ?thesis using run oldsync_fails [of w c m] inv by (simp add: pool_inv_def)
qed (use run addmprofit_inv [OF inv] submprofit_inv [OF inv] delminer_inv [OF inv] regminer_inv [OF inv room acc0] mdeactive_inv [OF inv]
      mactive_inv [OF inv] mlevel_inv [OF inv] mrspace_inv [OF inv] in \<open>simp_all add: calcmbalance_def newminer_def addm2pool_def\<close>)

theorem pool_change_apply_inv:
  assumes inv: "pool_inv (pool w)" and acc0: "\<not> is_account c 0" and run: "pool_change_apply c a w = Inr w'"
  shows "pool_inv (pool w')"
  using run delstrpool_inv [OF inv] regstrpool_inv [OF inv] chgpoolspace_inv [OF inv] mincdeposit_inv [OF inv] mchgstrpool_inv [OF inv]
    mchgadminacc_inv [OF inv] mchgowneracc_inv [OF inv acc0]
  by (cases a) (simp_all add: mchgspace_def)

text \<open>The actions on accounts leave the miners alone.\<close>

lemma keeps_accounts_inv:
  assumes inv: "pool_inv db" and k: "keeps_accounts db db'"
  shows "pool_inv db'"
proof -
  have i: "spaces_inv db" "twf (maccounts db)" using inv by (simp_all add: pool_inv_def miners_inv_def)
  have f: "maccounts db' = maccounts db" "storepools db' = storepools db" "minerinfos db' = minerinfos db"
      "miners db' = miners db" "miner2s db' = miner2s db" "gminer2ex db' = gminer2ex db" "gcounter db' = gcounter db"
    using k by (simp_all add: keeps_accounts_def same_miners_def)
  have s: "space_of db' u = space_of db u \<or> space_of db u = None \<and> space_of db' u = Some 0" for u
    using k by (simp add: keeps_accounts_def same_spaces_def)
  have own: "space_of db u \<noteq> None" if "map_of (maccounts db) (u, m) \<noteq> None" for u m
    using i(1) that unfolding spaces_inv_def by blast
  have z: "owner_load u (maccounts db) = 0" if "space_of db u = None" for u
    using own [of u] that by (intro owner_load_zero i(2)) blast
  have at: "spaces_at (\<lambda>u. owner_load u (maccounts db)) db" using i(1) by (simp add: spaces_inv_at)
  have "spaces_at (\<lambda>u. owner_load u (maccounts db)) db'"
    unfolding spaces_at_def
  proof (intro allI impI)
    fix u x assume "space_of db' u = Some x" "u \<noteq> ecologyfound"
    then show "uint x = owner_load u (maccounts db)" using s [of u] at z [of u] by (auto simp: spaces_at_def)
  qed
  moreover have "space_of db' u \<noteq> None" if "map_of (maccounts db) (u, m) \<noteq> None" for u m
    using s [of u] own [OF that] by auto
  ultimately have "spaces_inv db'" unfolding spaces_inv_at f by blast
  then show ?thesis using inv k f
    by (simp add: pool_inv_def keeps_accounts_def miners_inv_def ids_inv_def ids_agree_def pools_inv_def pool_row_ok_def total_inv_def m2ex_of_def)
qed

theorem pool_user_apply_inv:
  assumes inv: "pool_inv (pool w)" and run: "pool_user_apply c a w = Inr w'"
  shows "pool_inv (pool w')"
proof (rule keeps_accounts_inv [OF inv])
  have "users_inv (pool w)" using inv by (simp add: pool_inv_def)
  then show "keeps_accounts (pool w) (pool w')" using run by (rule pool_user_apply_effect)
qed

end
