(* ===== verification/Hddpool_Reward.thy ===== *)
theory Hddpool_Reward
  imports Hddpool_Miner Memo
begin

unbundle bit_operations_syntax

text \<open>
  Rewards of the new economic model in \<open>src/contracts/hddpool/hddpool.cpp\<close>: the
  daily issue of tokens, the probability tables that are rebuilt a few miners at a
  time in the buffer that is not in use, the draw of a miner by binary search in the
  cumulative ranges, and the payment of the reward through the channel.
\<close>

subsection \<open>Parameters of the new model\<close>

definition newmparam_default :: newmparam where
  "newmparam_default = \<lparr>start_time = 0, next_day_time = 0, start_space = 0, task_space = 0,
     last_day_inc_space = 0, last_month_inc_space = 0, total_issue = 0, total_destory = 0, cur_issue = 0,
     cur_destory = 0, cur_reward1 = 0, cur_reward2 = 0, cur_reward1gas = 0, cur_reward2gas = 0,
     random_seed_ext1 = 0, random_seed_ext2 = 0, reward_day = 0, reward_month = 0, last_reward_slot = 0,
     span_reward_slot = 12, new_span_reward_slot = 12, last_build_slot = 0, span_build_slot = 2,
     reward_type = 0, is_started = False\<rparr>"

text \<open>The fraction \<open>r\<close> of an amount, computed in floating point.\<close>

definition scale_i64 :: "int \<Rightarrow> rat \<Rightarrow> int result" where
  "scale_i64 x r = f64_trunc_i64s (fmul (f64_of_int x) (f64_of_rat r))"

text \<open>All tokens issued up to a day, and the number of rewards of one kind in a day.\<close>

definition reward_issue_until :: "(f64 \<Rightarrow> f64 \<Rightarrow> f64) \<Rightarrow> u32 \<Rightarrow> int result" where
  "reward_issue_until pow day =
     f64_trunc_i64s (fmul (fsub (f64_of_int 1)
       (pow (f64_of_int 2) (fmul (f64_of_int (- 1)) (fdiv (f64_of_int (uint day)) (f64_of_int 2880)))))
       (f64_of_int 20000000000000))"

definition rewards_per_day :: "u32 \<Rightarrow> int result" where
  "rewards_per_day sp =
     f64_trunc_i64s (fadd (fdiv (f64_of_int (uint blocks_per_day)) (f64_of_int (uint (2 * sp)))) (f64_of_rat (1 / 2)))"

definition one_reward :: "int \<Rightarrow> u32 \<Rightarrow> int result" where
  "one_reward tot sp = rbind (rewards_per_day sp) (\<lambda>n. sdiv tot n)"

definition set_rewards :: "int \<Rightarrow> newmparam \<Rightarrow> newmparam result" where
  "set_rewards tot g =
     rbind (one_reward tot (span_reward_slot g)) (\<lambda>real_reward.
     rbind (scale_i64 real_reward (8 / 10)) (\<lambda>real_reward1.
     let real_reward2 = i64 (real_reward - real_reward1) in
     rbind (scale_i64 real_reward1 (1 / 10)) (\<lambda>gas1.
     rbind (scale_i64 real_reward2 (1 / 10)) (\<lambda>gas2.
     Inr (g\<lparr>cur_reward1 := real_reward1, cur_reward2 := real_reward2, cur_reward1gas := gas1,
            cur_reward2gas := gas2\<rparr>)))))"

definition send_issue :: "ctx \<Rightarrow> int \<Rightarrow> world \<Rightarrow> world result" where
  "send_issue c amnt w =
     rbind (mk_asset amnt CORE_SYMBOL) (\<lambda>quant_issue.
     send c hdd_pool_account (mk_act system_account token_account
       (Tok (Issue fund_sys quant_issue ''issue tokens for reward''))) w)"

definition startnewm :: "ctx \<Rightarrow> world \<Rightarrow> world result" where
  "startnewm c w =
     require_auth c hddpooladmin (
     case gcounter (pool w) of
       None \<Rightarrow> Inl (Eosio_assert ''can not start new model'')
     | Some counter \<Rightarrow>
         let g = get_or_default (gnewmparam (pool w)) newmparam_default in
         ensure (\<not> is_started g) ''new model already started'' (
         let ct = current_time c;
             g = g\<lparr>start_time := ct, span_reward_slot := 12, new_span_reward_slot := 12, reward_type := 0,
                   reward_day := 1, reward_month := 1, next_day_time := ct + microseconds_in_one_day,
                   total_destory := 0, cur_destory := 0\<rparr> in
         rbind (reward_issue_until (libm_pow c) 1) (\<lambda>reward_issue.
         let g = g\<lparr>total_issue := reward_issue, cur_issue := reward_issue\<rparr> in
         rbind (send_issue c reward_issue w) (\<lambda>w.
         rbind (set_rewards reward_issue g) (\<lambda>g.
         let g = g\<lparr>start_space := total_space counter, last_month_inc_space := 14365491\<rparr>;
             g = g\<lparr>last_day_inc_space := last_month_inc_space g div 30\<rparr>;
             g = g\<lparr>task_space := start_space g + last_day_inc_space g, is_started := True\<rparr> in
         Inr (w\<lparr>pool := (pool w)\<lparr>gnewmparam := Some g\<rparr>\<rparr>))))))"

text \<open>The growth of the network that is asked for: a new target every day, a smaller step every month.\<close>

definition next_task :: "newmparam \<Rightarrow> newmparam" where
  "next_task g =
     (let day = reward_day g + 1;
          month = ucast ((ucast (day - 1) :: u64) div days_in_one_month + 1);
          g = g\<lparr>reward_day := day\<rparr>;
          g = (if reward_month g < month then
                 let inc = (if last_month_inc_space g < 104858 then 0 else last_month_inc_space g - 104858) in
                 g\<lparr>reward_month := month, last_month_inc_space := inc, last_day_inc_space := inc div 30\<rparr>
               else g) in
      g\<lparr>task_space := task_space g + last_day_inc_space g\<rparr>)"

text \<open>Destroying what is left in the reward fund, but for a reserve.\<close>

definition destroy_fund :: "ctx \<Rightarrow> newmparam \<Rightarrow> world \<Rightarrow> (newmparam \<times> world) result" where
  "destroy_fund c g w =
     rbind (mk_asset 0 CORE_SYMBOL) (\<lambda>z.
     rbind (get_balance w fund_sys (sym_name (symbol z))) (\<lambda>fund_balance.
     let min_amount = 1000000000;
         real_destory = (if amount fund_balance > min_amount then i64 (amount fund_balance - min_amount) else 0) in
     if real_destory > 0 then
       let g = g\<lparr>total_destory := i64 (total_destory g + real_destory)\<rparr> in
       rbind (mk_asset real_destory CORE_SYMBOL) (\<lambda>quant_destory.
       rbind (send c hdd_pool_account (mk_act fund_sys token_account
         (Tok (Transfer fund_sys eosio_null quant_destory ''destory reward tokens''))) w) (\<lambda>w.
       Inr (g, w)))
     else Inr (g, w)))"

definition day_issue :: "ctx \<Rightarrow> bool \<Rightarrow> int \<Rightarrow> newmparam \<Rightarrow> world \<Rightarrow> (newmparam \<times> world) result" where
  "day_issue c is_destory reward_issue g w =
     (let issue = i64 (reward_issue - total_issue g);
          g = g\<lparr>cur_destory := 0\<rparr> in
      rbind (if is_destory then
               rbind (scale_i64 issue (7 / 10)) (\<lambda>d. destroy_fund c (g\<lparr>cur_destory := d\<rparr>) w)
             else Inr (g, w)) (\<lambda>(g, w).
      let g = g\<lparr>cur_issue := issue\<rparr> in
      rbind (send_issue c issue w) (\<lambda>w.
      let g = g\<lparr>total_issue := reward_issue, span_reward_slot := new_span_reward_slot g\<rparr> in
      rbind (set_rewards (i64 (issue - cur_destory g)) g) (\<lambda>g. Inr (g, w)))))"

definition no_rewards :: "newmparam \<Rightarrow> newmparam" where
  "no_rewards g = g\<lparr>cur_issue := 0, cur_destory := 0, cur_reward1 := 0, cur_reward2 := 0,
     cur_reward1gas := 0, cur_reward2gas := 0\<rparr>"

text \<open>The start of a new day: the new parameters, and whether there is something to pay.\<close>

definition new_day :: "ctx \<Rightarrow> u64 \<Rightarrow> newmparam \<Rightarrow> world \<Rightarrow> (newmparam \<times> world \<times> bool) result" where
  "new_day c tot g w =
     (let is_destory = tot < task_space g;
          g = next_task g in
      rbind (reward_issue_until (libm_pow c) (reward_day g)) (\<lambda>reward_issue.
      let issue = i64 (reward_issue - total_issue g) in
      rbind (if reward_issue > total_issue g \<and> issue \<le> 4812942883
             then rbind (day_issue c is_destory reward_issue g w) (\<lambda>(g, w). Inr (g, w, True))
             else Inr (no_rewards g, w, False)) (\<lambda>(g, w, bret).
      let ct = current_time c;
          next = next_day_time g + microseconds_in_one_day in
      Inr (g\<lparr>next_day_time := (if next \<le> ct then ct + microseconds_in_one_day else next)\<rparr>, w, bret))))"

text \<open>
  The parameters for one reward.  The result has the amount, whether part of the
  issue was destroyed and the kind of the reward, or nothing when none is due.
\<close>

definition update_newmodel_params ::
    "ctx \<Rightarrow> u32 \<Rightarrow> world \<Rightarrow> (world \<times> (int \<times> bool \<times> u8) option) result" where
  "update_newmodel_params c slot w =
     (case gnewmparam (pool w) of
        None \<Rightarrow> Inr (w, None)
      | Some g \<Rightarrow>
          let g = g\<lparr>last_reward_slot := slot\<rparr> in
          if \<not> is_started g then Inr (w\<lparr>pool := (pool w)\<lparr>gnewmparam := Some g\<rparr>\<rparr>, None)
          else
            case gcounter (pool w) of
              None \<Rightarrow> Inr (w, None)
            | Some counter \<Rightarrow>
                rbind (if current_time c \<ge> next_day_time g then new_day c (total_space counter) g w
                       else Inr (g, w, True)) (\<lambda>(g, w, bret).
                let is_reward_destory = cur_destory g > 0 in
                rbind (one_reward (cur_issue g) (span_reward_slot g)) (\<lambda>real_reward.
                rbind (scale_i64 real_reward (if reward_type g = 0 then 8 / 10 else 2 / 10)) (\<lambda>reward.
                let kind = (if reward_type g = 0 then 0 else 1);
                    g = g\<lparr>reward_type := (if reward_type g = 0 then 1 else 0)\<rparr>;
                    w = w\<lparr>pool := (pool w)\<lparr>gnewmparam := Some g\<rparr>\<rparr> in
                Inr (w, if bret then Some (reward, is_reward_destory, kind) else None)))))"

subsection \<open>Rebuilding the probability tables\<close>

definition mscore2ex_default :: mscore2ex where
  "mscore2ex_default = \<lparr>mscore1_s0_count = 0, mscore1_s1_count = 0, mscore2_s0_count = 0, mscore2_s1_count = 0,
     build_proc_id = 1, prev_build_range1 = 0, prev_build_range2 = 0, build_count1 = 0, build_count2 = 0,
     current_s = 0\<rparr>"

text \<open>The buffer that was built becomes the current one.\<close>

definition swap_buffers :: "mscore2ex \<Rightarrow> mscore2ex" where
  "swap_buffers g =
     (let g = (if current_s g = 0
               then g\<lparr>current_s := 1, mscore1_s1_count := build_count1 g, mscore2_s1_count := build_count2 g\<rparr>
               else g\<lparr>current_s := 0, mscore1_s0_count := build_count1 g, mscore2_s0_count := build_count2 g\<rparr>) in
      g\<lparr>build_proc_id := 1, prev_build_range1 := 0, prev_build_range2 := 0, build_count1 := 0, build_count2 := 0\<rparr>)"

definition capacity_range :: "miner \<Rightarrow> u64 result" where
  "capacity_range row =
     (let realspace = (if mn_real_space row > 0 \<and> mn_max_space row > mn_real_space row
                       then mn_real_space row else mn_max_space row);
          realspace_gb = drop_bit 16 realspace in
      if realspace_gb > 0 then
        f64_trunc_i64u (fdiv (f64_of_u64 (realspace_gb * ucast (mn_level row))) (f64_of_int 100))
      else Inr 0)"

definition storage_range :: "miner \<Rightarrow> u64" where
  "storage_range row = (let gb = drop_bit 16 (mn_space row) in (if gb = 0 then 1 else gb) * 3)"

text \<open>The entry of one miner in each table: the row is changed if it is there and made otherwise.\<close>

definition build_capacity :: "name \<Rightarrow> u64 \<Rightarrow> u64 \<Rightarrow> pool_db \<times> mscore2ex \<Rightarrow> pool_db \<times> mscore2ex" where
  "build_capacity scope minerid rng st =
     (let (db, g) = st in
      if rng > 0 then
        let g = g\<lparr>prev_build_range1 := prev_build_range1 g + rng\<rparr>;
            t = tput (scope, build_count1 g + 1) \<lparr>ms_minerid = minerid, ms_range = prev_build_range1 g\<rparr> (mscore1s db) in
        (db\<lparr>mscore1s := t\<rparr>, g\<lparr>build_count1 := build_count1 g + 1\<rparr>)
      else (db, g))"

definition build_storage :: "name \<Rightarrow> u64 \<Rightarrow> u64 \<Rightarrow> pool_db \<times> mscore2ex \<Rightarrow> pool_db \<times> mscore2ex" where
  "build_storage scope minerid rng st =
     (let (db, g) = st;
          g = g\<lparr>prev_build_range2 := prev_build_range2 g + rng\<rparr>;
          t = tput (scope, build_count2 g + 1) \<lparr>ms_minerid = minerid, ms_range = prev_build_range2 g\<rparr> (mscore2s db) in
      (db\<lparr>mscore2s := t\<rparr>, g\<lparr>build_count2 := build_count2 g + 1\<rparr>))"

text \<open>The miner with the internal identifier \<open>build_proc_id\<close>, if it takes part.\<close>

definition build_one :: "name \<Rightarrow> pool_db \<times> mscore2ex \<Rightarrow> (pool_db \<times> mscore2ex) result" where
  "build_one scope st =
     (case map_of (miner2s (fst st)) (build_proc_id (snd st)) of
        None \<Rightarrow> Inr st
      | Some m2 \<Rightarrow>
          if m2_minerid m2 \<noteq> 0 then
            case map_of (miners (fst st)) (m2_minerid m2) of
              None \<Rightarrow> Inr st
            | Some row \<Rightarrow>
                if mn_status row = 0 \<and> mn_max_space row > 0 then
                  rbind (capacity_range row) (\<lambda>rng.
                  Inr (build_storage scope (m2_minerid m2) (storage_range row)
                        (build_capacity scope (m2_minerid m2) rng st)))
                else Inr st
          else Inr st)"

fun build_loop :: "nat \<Rightarrow> u64 \<Rightarrow> name \<Rightarrow> pool_db \<times> mscore2ex \<Rightarrow> (pool_db \<times> mscore2ex) result" where
  "build_loop 0 max_table scope st = Inr st"
| "build_loop (Suc n) max_table scope st =
     rbind (build_one scope st) (\<lambda>(db, g).
     let g = g\<lparr>build_proc_id := build_proc_id g + 1\<rparr> in
     if build_proc_id g > max_table then Inr (db, swap_buffers g)
     else build_loop n max_table scope (db, g))"

definition onbuild :: "ctx \<Rightarrow> u32 \<Rightarrow> world \<Rightarrow> world result" where
  "onbuild c slot w =
     require_auth c hdd_pool_account (
     case gnewmparam (pool w) of
       None \<Rightarrow> Inr w
     | Some p \<Rightarrow>
         let db = (pool w)\<lparr>gnewmparam := Some (p\<lparr>last_build_slot := slot, span_build_slot := 2\<rparr>)\<rparr> in
         case gminer2ex db of
           None \<Rightarrow> Inr (w\<lparr>pool := db\<rparr>)
         | Some mx \<Rightarrow>
             let g = get_or_default (gmscore2ex db) mscore2ex_default in
             if build_proc_id g > mx_max_table_count mx then
               Inr (w\<lparr>pool := db\<lparr>gmscore2ex := Some (swap_buffers g)\<rparr>\<rparr>)
             else
               let tablescope = (if current_s g = 0 then scopeb else scopea) in
               rbind (build_loop 3 (mx_max_table_count mx) tablescope (db, g)) (\<lambda>(db, g).
               Inr (w\<lparr>pool := db\<lparr>gmscore2ex := Some g\<rparr>\<rparr>)))"

subsection \<open>The draw\<close>

text \<open>
  The binary search over the rows \<open>1..max_count\<close>.  It ends with a hit, with the
  empty interval, or without a result when a row is missing or after 20 rounds.
\<close>

datatype search_end = Given_up | Hit u64 u64 u64 | Missed u64 u64

function range_search :: "nat \<Rightarrow> (u64 \<Rightarrow> mscore option) \<Rightarrow> u64 \<Rightarrow> u64 \<Rightarrow> u64 \<Rightarrow> search_end" where
  "range_search rounds look sel low high =
     (if low \<le> high then
        let mid = (low + high) div 2 in
        case look mid of
          None \<Rightarrow> Given_up
        | Some it \<Rightarrow>
            if ms_range it = sel then Hit (ms_minerid it) low high
            else if rounds + 1 \<ge> 20 then Given_up
            else if sel > ms_range it then range_search (rounds + 1) look sel (mid + 1) high
            else range_search (rounds + 1) look sel low (mid - 1)
      else Missed low high)"
  by auto
termination
  by (relation "measure (\<lambda>(rounds, _). 20 - rounds)") auto

declare range_search.simps [simp del]

text \<open>The neighbours of an empty interval, of which the first that reaches the drawn value is taken.\<close>

definition pick_neighbour :: "(u64 \<Rightarrow> mscore option) \<Rightarrow> u64 \<Rightarrow> u64 \<Rightarrow> u64 \<Rightarrow> u64 option" where
  "pick_neighbour look sel low high =
     (let high = (if low = 1 then 1 else high) in
      case look high of
        None \<Rightarrow> None
      | Some it \<Rightarrow> if ms_range it \<ge> sel then Some (ms_minerid it)
                   else map_option ms_minerid (look low))"

definition pick_miner :: "(u64 \<Rightarrow> mscore option) \<Rightarrow> u64 \<Rightarrow> u64 \<Rightarrow> u64 option" where
  "pick_miner look sel max_count =
     (case range_search 0 look sel 1 max_count of
        Given_up \<Rightarrow> None
      | Hit minerid low high \<Rightarrow> if minerid = 0 then pick_neighbour look sel low high else Some minerid
      | Missed low high \<Rightarrow> pick_neighbour look sel low high)"

text \<open>The reward is paid by a deferred transaction whose identifier is the slot.\<close>

definition rewardlog :: "ctx \<Rightarrow> u64 \<Rightarrow> u8 \<Rightarrow> int \<Rightarrow> bool \<Rightarrow> u32 \<Rightarrow> world \<Rightarrow> world result" where
  "rewardlog c minerid kind reward is_reward_destory slot w =
     require_auth c hdd_pool_account (
     rbind (mk_asset reward CORE_SYMBOL) (\<lambda>reward_t.
     let a = mk_act hdd_pool_account hdd_pool_account
               (Pol (Pool_reward (Payrewardnew kind reward_t minerid is_reward_destory))) in
     if (hdd_pool_account, ucast slot) \<in> fst ` set (deferred w)
     then Inl (Chain_error ''deferred transaction with the same sender_id and payer already exists'')
     else Inr (w\<lparr>deferred := deferred w @ [((hdd_pool_account, ucast slot), a)]\<rparr>)))"

definition draw :: "ctx \<Rightarrow> (u64 \<Rightarrow> mscore option) \<Rightarrow> u64 \<Rightarrow> u8 \<Rightarrow> u64 \<Rightarrow> u32 \<Rightarrow> int \<Rightarrow> bool \<Rightarrow> world \<Rightarrow> world result" where
  "draw c look max_count kind random slot reward is_reward_destory w =
     (case look max_count of
        None \<Rightarrow> Inr w
      | Some itmax \<Rightarrow>
          rbind (umod random (ms_range itmax)) (\<lambda>r.
          case pick_miner look (r + 1) max_count of
            None \<Rightarrow> Inr w
          | Some minerid \<Rightarrow>
              if minerid \<noteq> 0 then rewardlog c minerid kind reward is_reward_destory slot w else Inr w))"

text \<open>The reward for capacity and the reward for storage, each with its own table.\<close>

definition rewardproc1 :: "ctx \<Rightarrow> u64 \<Rightarrow> u32 \<Rightarrow> int \<Rightarrow> bool \<Rightarrow> world \<Rightarrow> world result" where
  "rewardproc1 c random slot reward is_reward_destory w =
     (case gmscore2ex (pool w) of
        None \<Rightarrow> Inr w
      | Some g \<Rightarrow>
          let (tablescope, max_count) =
                (if current_s g = 0 then (scopea, mscore1_s0_count g) else (scopeb, mscore1_s1_count g)) in
          draw c (\<lambda>i. map_of (mscore1s (pool w)) (tablescope, i)) max_count 1 random slot reward is_reward_destory w)"

definition rewardproc2 :: "ctx \<Rightarrow> u64 \<Rightarrow> u32 \<Rightarrow> int \<Rightarrow> bool \<Rightarrow> world \<Rightarrow> world result" where
  "rewardproc2 c random slot reward is_reward_destory w =
     (case gmscore2ex (pool w) of
        None \<Rightarrow> Inr w
      | Some g \<Rightarrow>
          let (tablescope, max_count) =
                (if current_s g = 0 then (scopea, mscore2_s0_count g) else (scopeb, mscore2_s1_count g)) in
          draw c (\<lambda>i. map_of (mscore2s (pool w)) (tablescope, i)) max_count 2 random slot reward is_reward_destory w)"

text \<open>The reference block of the transaction is an \<open>int\<close>, so the cast extends its sign.\<close>

definition reward_random :: "ctx \<Rightarrow> u64" where
  "reward_random c = scast (tapos_block_prefix c) * scast (tapos_block_num c) * scast (tapos_block_num c)"

definition onreward :: "ctx \<Rightarrow> u32 \<Rightarrow> world \<Rightarrow> world result" where
  "onreward c slot w =
     require_auth c hdd_pool_account (
     rbind (update_newmodel_params c slot w) (\<lambda>(w, r).
     case r of
       None \<Rightarrow> Inr w
     | Some (reward, is_reward_destory, kind) \<Rightarrow>
         if reward = 0 then Inr w
         else if kind = 0 then rewardproc1 c (reward_random c) slot reward is_reward_destory w
         else rewardproc2 c (reward_random c) slot reward is_reward_destory w))"

subsection \<open>Payment\<close>

definition payrewardnew :: "ctx \<Rightarrow> u8 \<Rightarrow> asset \<Rightarrow> u64 \<Rightarrow> bool \<Rightarrow> world \<Rightarrow> world result" where
  "payrewardnew c ty quant minerid is_destory w =
     require_auth c hdd_pool_account (
     fetch (miners (pool w)) minerid ''invalid mimerid'' (\<lambda>row.
     rbind (scale_i64 (amount quant) (1 / 10)) (\<lambda>gas0.
     rbind (if is_old_miner w minerid \<and> is_destory
            then rbind (scale_i64 (amount quant) (8 / 10)) (\<lambda>r.
                 rbind (scale_i64 r (1 / 10)) (\<lambda>g. Inr (r, g)))
            else Inr (amount quant, gas0)) (\<lambda>(reward_amount, gas_amount).
     rbind (mk_asset reward_amount CORE_SYMBOL) (\<lambda>reward.
     rbind (mk_asset gas_amount CORE_SYMBOL) (\<lambda>gas.
     rbind (getfeebalance w (mn_owner row)) (\<lambda>fee.
     send c hdd_pool_account (mk_act hdd_pool_account hdd_pool_account (Pol (Pool_reward
       (if amount fee \<ge> amount gas then Pool_channellog ty reward minerid gas (mn_owner row)
        else Channelfail ty reward minerid gas (mn_owner row))))) w)))))))"

definition channelfail :: "ctx \<Rightarrow> u8 \<Rightarrow> asset \<Rightarrow> u64 \<Rightarrow> asset \<Rightarrow> name \<Rightarrow> world \<Rightarrow> world result" where
  "channelfail c ty quant minerid gas owner w =
     require_auth c hdd_pool_account (Inr (require_recipient owner w))"

definition reward_memo :: "u8 \<Rightarrow> name \<Rightarrow> u64 \<Rightarrow> string" where
  "reward_memo ty owner minerid =
     std_to_string (unat ty) @ '':'' @ to_string owner @ '':'' @ std_to_string (unat minerid)"

definition pool_channellog :: "ctx \<Rightarrow> u8 \<Rightarrow> asset \<Rightarrow> u64 \<Rightarrow> asset \<Rightarrow> name \<Rightarrow> world \<Rightarrow> world result" where
  "pool_channellog c ty quant minerid gas owner w =
     require_auth c hdd_pool_account (
     let w = require_recipient owner w in
     rbind (send c hdd_pool_account (mk_act channel_sys channel_sys
        (Chn (Subfee owner gas (reward_memo ty owner minerid @ '':gas'')))) w) (\<lambda>w.
     send c hdd_pool_account (mk_act fund_sys token_account
        (Tok (Transfer fund_sys channel_sys quant (reward_memo ty owner minerid)))) w))"

fun pool_reward_apply :: "ctx \<Rightarrow> pool_reward_act \<Rightarrow> world \<Rightarrow> world result" where
  "pool_reward_apply c (Onbuild s) w = onbuild c s w"
| "pool_reward_apply c (Onreward s) w = onreward c s w"
| "pool_reward_apply c (Payrewardnew t q m d) w = payrewardnew c t q m d w"
| "pool_reward_apply c (Pool_channellog t q m g o') w = pool_channellog c t q m g o' w"
| "pool_reward_apply c (Channelfail t q m g o') w = channelfail c t q m g o' w"
| "pool_reward_apply c Startnewm w = startnewm c w"

subsection \<open>The draw finds the miner whose range holds the drawn value\<close>

text \<open>
  A usable table has the rows \<open>1..n\<close>, each with a miner and a range above zero, and its cumulative ranges grow
  strictly.
\<close>

definition rg :: "(u64 \<Rightarrow> mscore option) \<Rightarrow> u64 \<Rightarrow> u64" where
  "rg look i = (case look i of None \<Rightarrow> 0 | Some r \<Rightarrow> ms_range r)"

definition scores_ok :: "(u64 \<Rightarrow> mscore option) \<Rightarrow> u64 \<Rightarrow> bool" where
  "scores_ok look n \<longleftrightarrow> (\<forall>i. 1 \<le> i \<longrightarrow> i \<le> n \<longrightarrow> (\<exists>r. look i = Some r \<and> ms_minerid r \<noteq> 0 \<and> ms_range r \<noteq> 0))
     \<and> (\<forall>i j. 1 \<le> i \<longrightarrow> i < j \<longrightarrow> j \<le> n \<longrightarrow> rg look i < rg look j)"

text \<open>The interval that is still to be searched: left of it are smaller ranges, right of it larger ones.\<close>

definition search_inv :: "(u64 \<Rightarrow> mscore option) \<Rightarrow> u64 \<Rightarrow> u64 \<Rightarrow> u64 \<Rightarrow> u64 \<Rightarrow> bool" where
  "search_inv look n sel low high \<longleftrightarrow> 1 \<le> low \<and> unat low \<le> unat high + 1 \<and> high \<le> n
     \<and> (\<forall>i. 1 \<le> i \<longrightarrow> i < low \<longrightarrow> rg look i < sel) \<and> (\<forall>i. high < i \<longrightarrow> i \<le> n \<longrightarrow> sel < rg look i)"

lemma unat_mid:
  assumes "unat (low :: u64) \<le> unat high" "unat (high :: u64) < 2 ^ 32"
  shows "unat ((low + high) div 2) = (unat low + unat high) div 2"
proof -
  have "unat (low + high) = unat low + unat high" using assms by (simp add: unat_word_ariths)
  then show ?thesis by (simp add: unat_div_distrib)
qed

lemma search_right:
  assumes inv: "search_inv look n sel low high" and ok: "scores_ok look n" and n: "unat n < 2 ^ 32" and le: "low \<le> high"
    and m: "mid = (low + high) div 2" and less: "rg look mid < sel"
  shows "search_inv look n sel (mid + 1) high" and "unat (mid + 1) = unat mid + 1"
proof -
  have um: "unat mid = (unat low + unat high) div 2"
    unfolding m using le inv n by (intro unat_mid) (auto simp: word_le_nat_alt search_inv_def)
  have b: "unat low \<le> unat mid" "unat mid \<le> unat high" using le um by (auto simp: word_le_nat_alt)
  have h: "unat high < 2 ^ 32" using inv n by (auto simp: search_inv_def word_le_nat_alt)
  show s: "unat (mid + 1) = unat mid + 1" using b h by (simp add: unat_word_ariths)
  have mn: "mid \<le> n" using b inv by (auto simp: search_inv_def word_le_nat_alt)
  have "rg look i < sel" if i: "1 \<le> i" "i < mid + 1" for i
  proof (cases "i = mid")
    case False
    then have "i < mid" using i(2) s by (auto simp: word_less_nat_alt word_unat_eq_iff)
    then have "rg look i < rg look mid" using ok i(1) mn by (simp add: scores_ok_def)
    then show ?thesis using less by order
  qed (use less in simp)
  then show "search_inv look n sel (mid + 1) high"
    using inv s b unfolding search_inv_def by (auto simp: word_le_nat_alt)
qed

lemma search_left:
  assumes inv: "search_inv look n sel low high" and ok: "scores_ok look n" and n: "unat n < 2 ^ 32" and le: "low \<le> high"
    and m: "mid = (low + high) div 2" and less: "sel < rg look mid"
  shows "search_inv look n sel low (mid - 1)" and "unat (mid - 1) = unat mid - 1"
proof -
  have um: "unat mid = (unat low + unat high) div 2"
    unfolding m using le inv n by (intro unat_mid) (auto simp: word_le_nat_alt search_inv_def)
  have b: "unat low \<le> unat mid" "unat mid \<le> unat high" using le um by (auto simp: word_le_nat_alt)
  have m1: "1 \<le> mid" using b inv by (auto simp: search_inv_def word_le_nat_alt)
  then show s: "unat (mid - 1) = unat mid - 1" by (simp add: unat_sub)
  have l1: "1 \<le> unat low" using inv by (auto simp: search_inv_def word_le_nat_alt)
  have "sel < rg look i" if i: "mid - 1 < i" "i \<le> n" for i
  proof (cases "i = mid")
    case False
    then have "mid < i" using i(1) s m1 by (auto simp: word_less_nat_alt word_unat_eq_iff word_le_nat_alt)
    then have "rg look mid < rg look i" using ok m1 i(2) by (simp add: scores_ok_def)
    then show ?thesis using less by order
  qed (use less in simp)
  moreover have "mid - 1 \<le> n" using s b inv by (auto simp: search_inv_def word_le_nat_alt)
  moreover have "unat low \<le> unat (mid - 1) + 1" using s b l1 by simp
  ultimately show "search_inv look n sel low (mid - 1)" using inv unfolding search_inv_def by blast
qed

lemma range_search_spec:
  assumes n: "unat n < 2 ^ 32"
  shows "scores_ok look n \<Longrightarrow> search_inv look n sel low high \<Longrightarrow> rounds \<le> 19 \<Longrightarrow>
    unat high + 1 - unat low < 2 ^ (19 - rounds) \<Longrightarrow>
    (case range_search rounds look sel low high of
       Given_up \<Rightarrow> False
     | Hit m l h \<Rightarrow> m \<noteq> 0 \<and> (\<exists>i r. 1 \<le> i \<and> i \<le> n \<and> look i = Some r \<and> ms_range r = sel \<and> ms_minerid r = m)
     | Missed l h \<Rightarrow> search_inv look n sel l h \<and> unat l = unat h + 1)"
proof (induction rounds look sel low high rule: range_search.induct)
  case (1 rounds look sel low high)
  define mid where "mid = (low + high) div 2"
  note ok = "1.prems"(1) and inv = "1.prems"(2) and size = "1.prems"(4)
  show ?case
  proof (cases "low \<le> high")
    case False
    then show ?thesis using inv by (simp add: range_search.simps [of rounds] search_inv_def word_le_nat_alt)
  next
    case le: True
    have r18: "rounds < 19"
    proof (rule ccontr)
      assume "\<not> rounds < 19"
      then have "unat high + 1 - unat low < 1" using "1.prems"(3) size by simp
      then show False using le by (simp add: word_le_nat_alt)
    qed
    then have pow: "2 ^ (19 - rounds) = 2 * (2 :: nat) ^ (19 - (rounds + 1))"
      by (metis Suc_diff_Suc Suc_eq_plus1 power_Suc)
    have um: "unat mid = (unat low + unat high) div 2"
      unfolding mid_def using le inv n by (intro unat_mid) (auto simp: word_le_nat_alt search_inv_def)
    have b: "1 \<le> mid" "mid \<le> n" using um le inv by (auto simp: search_inv_def word_le_nat_alt)
    then obtain it where it: "look mid = Some it" "ms_minerid it \<noteq> 0" using ok unfolding scores_ok_def by blast
    have rgm: "rg look mid = ms_range it" by (simp add: rg_def it)
    have unf: "range_search rounds look sel low high = (if ms_range it = sel then Hit (ms_minerid it) low high
        else if sel > ms_range it then range_search (rounds + 1) look sel (mid + 1) high
        else range_search (rounds + 1) look sel low (mid - 1))"
      using le it r18 by (simp add: range_search.simps [of rounds] mid_def [symmetric])
    consider "ms_range it = sel" | "ms_range it < sel" | "sel < ms_range it" by (rule linorder_cases)
    then show ?thesis
    proof cases
      case 1
      then show ?thesis using it b unfolding unf by auto
    next
      case 2
      note s = search_right [OF inv ok n le mid_def 2 [folded rgm]]
      have "unat high + 1 - unat (mid + 1) < 2 ^ (19 - (rounds + 1))" using size um s(2) pow by linarith
      then have "case range_search (rounds + 1) look sel (mid + 1) high of
          Given_up \<Rightarrow> False
        | Hit m l h \<Rightarrow> m \<noteq> 0 \<and> (\<exists>i r. 1 \<le> i \<and> i \<le> n \<and> look i = Some r \<and> ms_range r = sel \<and> ms_minerid r = m)
        | Missed l h \<Rightarrow> search_inv look n sel l h \<and> unat l = unat h + 1"
        using "1.IH"(1) [OF le mid_def it(1) _ _ 2 ok s(1)] 2 r18 by simp
      moreover have "range_search rounds look sel low high = range_search (rounds + 1) look sel (mid + 1) high"
        unfolding unf using 2 by auto
      ultimately show ?thesis by (simp only:)
    next
      case 3
      note s = search_left [OF inv ok n le mid_def 3 [folded rgm]]
      have "1 \<le> unat mid" using b(1) by (simp add: word_le_nat_alt)
      then have "unat (mid - 1) + 1 - unat low < 2 ^ (19 - (rounds + 1))" using size um s(2) pow by linarith
      then have "case range_search (rounds + 1) look sel low (mid - 1) of
          Given_up \<Rightarrow> False
        | Hit m l h \<Rightarrow> m \<noteq> 0 \<and> (\<exists>i r. 1 \<le> i \<and> i \<le> n \<and> look i = Some r \<and> ms_range r = sel \<and> ms_minerid r = m)
        | Missed l h \<Rightarrow> search_inv look n sel l h \<and> unat l = unat h + 1"
        using "1.IH"(2) [OF le mid_def it(1) _ _ _ ok s(1)] 3 r18 by auto
      moreover have "range_search rounds look sel low high = range_search (rounds + 1) look sel low (mid - 1)"
        unfolding unf using 3 by auto
      ultimately show ?thesis by (simp only:)
    qed
  qed
qed

text \<open>
  The reference: the first row whose cumulative range reaches the drawn value.  With
  fewer than \<open>2^19\<close> rows the 20 rounds of the search are enough.
\<close>

definition first_reaching :: "(u64 \<Rightarrow> mscore option) \<Rightarrow> u64 \<Rightarrow> u64 \<Rightarrow> bool" where
  "first_reaching look sel i \<longleftrightarrow> 1 \<le> i \<and> sel \<le> rg look i \<and> (\<forall>j. 1 \<le> j \<longrightarrow> j < i \<longrightarrow> rg look j < sel)"

lemma pick_miner_correct:
  assumes ok: "scores_ok look n" and n: "unat n < 2 ^ 19" "1 \<le> n" and sel: "sel \<le> rg look n"
  obtains i r where "i \<le> n" "look i = Some r" "first_reaching look sel i" "ms_minerid r \<noteq> 0"
    "pick_miner look sel n = Some (ms_minerid r)"
proof -
  have n32: "unat n < 2 ^ 32" using n by simp
  have inv: "search_inv look n sel 1 n" using n by (auto simp: search_inv_def word_less_nat_alt word_le_nat_alt)
  have "unat n + 1 - unat (1 :: u64) < 2 ^ (19 - 0)" using n by simp
  note spec = range_search_spec [OF n32 ok inv _ this]
  have row: "\<exists>r. look i = Some r \<and> ms_minerid r \<noteq> 0" if "1 \<le> i" "i \<le> n" for i
    using ok that unfolding scores_ok_def by blast
  show ?thesis
  proof (cases "range_search 0 look sel 1 n")
    case (Hit m l h)
    then obtain i r where i: "1 \<le> i" "i \<le> n" "look i = Some r" "ms_range r = sel" "ms_minerid r = m" "m \<noteq> 0" using spec by auto
    have "rg look j < sel" if "1 \<le> j" "j < i" for j
      using ok that i(2,3,4) unfolding scores_ok_def by (metis option.simps(5) rg_def)
    then have "first_reaching look sel i" using i by (simp add: first_reaching_def rg_def)
    then show ?thesis using i Hit by (intro that [of i r]) (simp_all add: pick_miner_def)
  next
    case (Missed l h)
    have s: "search_inv look n sel l h" "unat l = unat h + 1" using spec Missed by auto
    have ln: "l \<le> n"
    proof (rule ccontr)
      assume "\<not> l \<le> n"
      then have "rg look n < sel" using s(1) n(2) by (simp add: search_inv_def)
      then show False using sel by order
    qed
    have l1: "1 \<le> l" using s(1) by (simp add: search_inv_def)
    have hl: "h < l" using s(2) by (simp add: word_less_nat_alt)
    have lr: "sel < rg look l" using s(1) ln hl by (simp add: search_inv_def)
    obtain r where r: "look l = Some r" "ms_minerid r \<noteq> 0" using row l1 ln by blast
    have fr: "first_reaching look sel l" using s(1) lr l1 by (simp add: first_reaching_def search_inv_def)
    have "pick_neighbour look sel l h = Some (ms_minerid r)"
    proof (cases "l = 1")
      case True
      then show ?thesis using lr r by (simp add: pick_neighbour_def rg_def less_imp_le)
    next
      case False
      then have h1: "1 \<le> h" "h \<le> n" using l1 s(1,2) by (auto simp: word_le_nat_alt search_inv_def word_unat_eq_iff)
      then obtain r' where r': "look h = Some r'" using row by blast
      have "rg look h < sel" using s(1) h1(1) hl by (simp add: search_inv_def)
      then show ?thesis using False r r' by (simp add: pick_neighbour_def rg_def not_le [symmetric])
    qed
    then show ?thesis using ln r fr Missed by (intro that [of l r]) (simp_all add: pick_miner_def)
  qed (use spec in simp)
qed

text \<open>So a miner is drawn for exactly the values between the range before it and its own.\<close>

lemma first_reaching_iff:
  assumes ok: "scores_ok look n" and i: "1 \<le> i" "i \<le> n" and sel: "sel \<le> rg look n"
  shows "first_reaching look sel i \<longleftrightarrow> sel \<le> rg look i \<and> (i = 1 \<or> rg look (i - 1) < sel)"
proof -
  have p: "rg look j \<le> rg look (i - 1)" if j: "1 \<le> j" "j < i" and i1: "i \<noteq> 1" for j
  proof (cases "j = i - 1")
    case False
    have "unat (i - 1) = unat i - 1" using i(1) by (simp add: unat_sub)
    then have "j < i - 1" "i - 1 \<le> n" using j i False by (auto simp: word_less_nat_alt word_le_nat_alt word_unat_eq_iff)
    then show ?thesis using ok j(1) by (simp add: scores_ok_def less_imp_le)
  qed simp
  have "unat (i - 1) = unat i - 1" using i(1) by (simp add: unat_sub)
  then have q: "1 \<le> i - 1 \<and> i - 1 < i" if "i \<noteq> 1" using i that by (auto simp: word_less_nat_alt word_le_nat_alt word_unat_eq_iff)
  show ?thesis
  proof (cases "i = 1")
    case True
    have "\<not> (1 \<le> j \<and> j < i)" for j using True by (metis linorder_not_less)
    then show ?thesis using i(1) True by (auto simp: first_reaching_def)
  next
    case False
    have "rg look j < sel" if "1 \<le> j" "j < i" "rg look (i - 1) < sel" for j using p [OF that(1,2) False] that(3) by order
    then show ?thesis using i(1) q [OF False] False by (auto simp: first_reaching_def)
  qed
qed


lemma first_reaching_unique: "first_reaching look sel i \<Longrightarrow> first_reaching look sel j \<Longrightarrow> i = j"
  by (metis first_reaching_def linorder_less_linear not_le)

lemma pick_miner_row:
  assumes ok: "scores_ok look n" and n: "unat n < 2 ^ 19" and i: "1 \<le> i" "i \<le> n" and r: "look i = Some r"
    and x: "(if i = 1 then 0 else rg look (i - 1)) \<le> x" "x < rg look i"
  shows "pick_miner look (x + 1) n = Some (ms_minerid r)"
proof -
  have "rg look i \<le> rg look n"
    using ok i by (cases "i = n") (auto simp: scores_ok_def order.order_iff_strict)
  moreover have x1: "x + 1 \<le> rg look i" using x(2) by (rule inc_le)
  ultimately have sel: "x + 1 \<le> rg look n" by order
  have n1: "1 \<le> n" using i by order
  have "unat x + 1 < 2 ^ 64"
  proof -
    have "unat (rg look i) < 2 ^ LENGTH(64)" by (rule unsigned_less)
    then show ?thesis using x(2) by (simp add: word_less_nat_alt)
  qed
  then have "unat (x + 1) = unat x + 1" by (simp add: unat_word_ariths)
  then have "rg look (i - 1) < x + 1" if "i \<noteq> 1" using x(1) that by (simp add: word_less_nat_alt word_le_nat_alt)
  then have "first_reaching look (x + 1) i" using first_reaching_iff [OF ok i sel] x1 by blast
  moreover obtain j s where "look j = Some s" "first_reaching look (x + 1) j" "pick_miner look (x + 1) n = Some (ms_minerid s)"
    using pick_miner_correct [OF ok n n1 sel] by metis
  ultimately show ?thesis using first_reaching_unique r by fastforce
qed

end
