(* ===== verification/Hddpool_Score.thy ===== *)
theory Hddpool_Score
  imports Hddpool_Inv Hddpool_Reward
begin

unbundle bit_operations_syntax

text \<open>
  The probability tables of the rewards: the buffer in use always has the rows
  \<open>1..count\<close> with strictly growing ranges, while the other buffer is built up a few
  miners at a time.  So every draw finds a miner.
\<close>

subsection \<open>The invariant of the two buffers\<close>

definition counts_ok :: "u64 \<Rightarrow> u64 \<Rightarrow> u64 \<Rightarrow> bool" where
  "counts_ok cnt prev pid \<longleftrightarrow> unat prev \<le> 2 ^ 27 * unat cnt \<and> unat cnt < unat pid \<and> unat pid \<le> 2 ^ 32"

definition view :: "(name \<times> u64, mscore) table \<Rightarrow> name \<Rightarrow> u64 \<Rightarrow> mscore option" where
  "view t scope i = map_of t (scope, i)"

definition cur_scope :: "mscore2ex \<Rightarrow> name" where
  "cur_scope g = (if current_s g = 0 then scopea else scopeb)"

definition next_scope :: "mscore2ex \<Rightarrow> name" where
  "next_scope g = (if current_s g = 0 then scopeb else scopea)"

definition cur_count1 :: "mscore2ex \<Rightarrow> u64" where
  "cur_count1 g = (if current_s g = 0 then mscore1_s0_count g else mscore1_s1_count g)"

definition cur_count2 :: "mscore2ex \<Rightarrow> u64" where
  "cur_count2 g = (if current_s g = 0 then mscore2_s0_count g else mscore2_s1_count g)"

text \<open>One table: the buffer in use, and the buffer that has been built up so far.\<close>

definition buffers_ok :: "(name \<times> u64, mscore) table \<Rightarrow> name \<Rightarrow> u64 \<Rightarrow> name \<Rightarrow> u64 \<Rightarrow> u64 \<Rightarrow> u64 \<Rightarrow> bool" where
  "buffers_ok t cur cnt nxt bcnt prev pid \<longleftrightarrow> scores_ok (view t cur) cnt \<and> scores_ok (view t nxt) bcnt
     \<and> (1 \<le> bcnt \<longrightarrow> rg (view t nxt) bcnt = prev) \<and> counts_ok bcnt prev pid"

definition scores_inv :: "pool_db \<Rightarrow> mscore2ex \<Rightarrow> bool" where
  "scores_inv db g \<longleftrightarrow>
     buffers_ok (mscore1s db) (cur_scope g) (cur_count1 g) (next_scope g) (build_count1 g) (prev_build_range1 g) (build_proc_id g)
     \<and> buffers_ok (mscore2s db) (cur_scope g) (cur_count2 g) (next_scope g) (build_count2 g) (prev_build_range2 g) (build_proc_id g)"

definition score_inv :: "pool_db \<Rightarrow> bool" where
  "score_inv db \<longleftrightarrow> (case gmscore2ex db of None \<Rightarrow> True | Some g \<Rightarrow> scores_inv db g)"

definition same_scores :: "pool_db \<Rightarrow> pool_db \<Rightarrow> bool" where
  "same_scores db db' \<longleftrightarrow> mscore1s db' = mscore1s db \<and> mscore2s db' = mscore2s db \<and> gmscore2ex db' = gmscore2ex db"

lemma same_scores_inv: "score_inv db \<Longrightarrow> same_scores db db' \<Longrightarrow> score_inv db'"
  by (cases "gmscore2ex db") (simp_all add: score_inv_def same_scores_def scores_inv_def)

subsection \<open>One more row\<close>

lemma not_le_zero_u64 [simp]: "\<not> (1 :: u64) \<le> 0"
  by simp

lemma scores_ok_0 [simp]: "scores_ok look 0"
  by (auto simp: scores_ok_def dest: order_trans)

lemma scores_ok_snoc:
  assumes ok: "scores_ok look n" and n: "unat n < 2 ^ 32" and r: "ms_minerid r \<noteq> 0" "ms_range r \<noteq> 0"
    and grow: "1 \<le> n \<Longrightarrow> rg look n < ms_range r"
  shows "scores_ok (look(n + 1 \<mapsto> r)) (n + 1)"
proof -
  note suc = u64_succ [OF n]
  have up: "rg (look(n + 1 \<mapsto> r)) i = (if i = n + 1 then ms_range r else rg look i)" for i by (simp add: rg_def)
  have "\<exists>r'. (look(n + 1 \<mapsto> r)) i = Some r' \<and> ms_minerid r' \<noteq> 0 \<and> ms_range r' \<noteq> 0" if "1 \<le> i" "i \<le> n + 1" for i
    using ok that r suc(2) [of i] by (auto simp: scores_ok_def)
  moreover have "rg (look(n + 1 \<mapsto> r)) i < rg (look(n + 1 \<mapsto> r)) j" if ij: "1 \<le> i" "i < j" "j \<le> n + 1" for i j
  proof (cases "j = n + 1")
    case True
    then have "i \<le> n" using ij(2) suc(3) by (auto simp: word_less_nat_alt word_le_nat_alt)
    then have "1 \<le> n" and "i = n \<or> i < n" using ij(1) by auto
    then have "rg look i < ms_range r"
      using ok ij(1) grow unfolding scores_ok_def by (metis order_refl less_trans)
    then show ?thesis using True ij(2) unfolding up by auto
  next
    case False
    then have "j \<le> n" using ij(3) suc(2) by simp
    then show ?thesis using ok ij False unfolding up by (auto simp: scores_ok_def)
  qed
  ultimately show ?thesis unfolding scores_ok_def by blast
qed

lemma view_tput: "view (tput (sc, i) r t) sc' = (if sc' = sc then (view t sc)(i \<mapsto> r) else view t sc')"
  by (auto simp: view_def fun_eq_iff)

lemma buffers_ok_add:
  assumes inv: "buffers_ok t cur cnt nxt b prev pid" and ne: "cur \<noteq> nxt" and pid: "unat pid < 2 ^ 32"
    and rng: "0 < rng" "unat rng \<le> 2 ^ 27" and m: "minerid \<noteq> 0"
  shows "buffers_ok (tput (nxt, b + 1) \<lparr>ms_minerid = minerid, ms_range = prev + rng\<rparr> t) cur cnt nxt (b + 1) (prev + rng) (pid + 1)"
proof -
  have c: "unat prev \<le> 2 ^ 27 * unat b" "unat b < unat pid" using inv by (simp_all add: buffers_ok_def counts_ok_def)
  have b32: "unat b < 2 ^ 32" using c(2) pid by simp
  have "unat prev + unat rng < 2 ^ 64" using c(1) b32 rng(2) by simp
  then have up: "unat (prev + rng) = unat prev + unat rng" by (simp add: unat_word_ariths)
  then have gr: "prev < prev + rng" using rng(1) by (simp add: word_less_nat_alt)
  have ok: "scores_ok ((view t nxt)(b + 1 \<mapsto> \<lparr>ms_minerid = minerid, ms_range = prev + rng\<rparr>)) (b + 1)"
    using inv m gr by (intro scores_ok_snoc b32) (auto simp: buffers_ok_def)
  have "counts_ok (b + 1) (prev + rng) (pid + 1)"
    using c pid rng(2) up u64_succ(3) [OF b32] u64_succ(3) [OF pid] by (simp add: counts_ok_def)
  then show ?thesis using inv ok ne by (simp add: buffers_ok_def view_tput rg_def)
qed

lemma buffers_ok_skip:
  "buffers_ok t cur cnt nxt b prev pid \<Longrightarrow> unat pid < 2 ^ 32 \<Longrightarrow> buffers_ok t cur cnt nxt b prev (pid + 1)"
  using u64_succ(3) [of pid] by (simp add: buffers_ok_def counts_ok_def)

lemma buffers_ok_swap:
  "buffers_ok t cur cnt nxt b prev pid \<Longrightarrow> buffers_ok t nxt b cur 0 0 1"
  by (simp add: buffers_ok_def counts_ok_def)

subsection \<open>The ranges of one miner\<close>

lemma uint_ucast_u32: "uint (ucast (x :: u32) :: u64) = uint x"
proof -
  have "uint x < 2 ^ 64" using uint_lt2p [of x] by simp
  then show ?thesis by (simp add: unsigned_ucast_eq take_bit_int_eq_self_iff)
qed

lemma capacity_range_bound:
  assumes "mn_max_space row \<le> max_miner_space" and "mn_level row \<le> 89657"
  shows "\<exists>r. capacity_range row = Inr r \<and> unat r \<le> 2 ^ 27"
proof -
  define s where "s = (if mn_real_space row > 0 \<and> mn_max_space row > mn_real_space row then mn_real_space row else mn_max_space row)"
  define x where "x = drop_bit 16 s * ucast (mn_level row)"
  have "s \<le> mn_max_space row" by (auto simp: s_def)
  then have "s \<le> max_miner_space" using assms(1) by order
  then have s1: "uint (drop_bit 16 s) \<le> 102400" using uint_le [of s max_miner_space] by (simp add: uint_drop16)
  have l1: "uint (ucast (mn_level row) :: u64) \<le> 89657" using assms(2) by (simp add: uint_ucast_u32 word_le_def)
  have pr: "uint (drop_bit 16 s) * uint (ucast (mn_level row) :: u64) \<le> 102400 * 89657" using s1 l1 by (intro mult_mono) simp_all
  then have ux: "uint x = uint (drop_bit 16 s) * uint (ucast (mn_level row) :: u64)" by (simp add: x_def uint_word_ariths)
  have xb: "0 \<le> uint x" "uint x \<le> 9180876800" using pr ux by simp_all
  have fx: "f64_of_u64 x = Fin (of_int (uint x))" using xb by (simp add: f64_of_u64_def f64_of_int_exact)
  define y where "y = rnd (of_int (uint x) / 100)"
  have xr: "0 \<le> (of_int (uint x) :: rat)" "(of_int (uint x) :: rat) \<le> 9180876800"
    using xb of_int_le_iff [of "uint x" 9180876800, where ?'a = rat] by simp_all
  have y: "0 \<le> y" "y \<le> 91808768"
    using rnd_nonneg [of "of_int (uint x) / 100"] rnd_le_int [of "of_int (uint x) / 100" 91808768] xr by (simp_all add: y_def)
  have fy: "fdiv (f64_of_u64 x) (f64_of_int 100) = Fin y" unfolding fx using xr by (simp add: y_def f64_of_rat_Fin)
  have t: "0 \<le> rtrunc y" "rtrunc y \<le> 91808768" using rtrunc_bounds [of y 91808768] y by simp_all
  have "f64_trunc_i64u (Fin y) = Inr (word_of_int (rtrunc y))" using y by (intro f64_trunc_i64u_Fin) simp_all
  moreover have "unat (word_of_int (rtrunc y) :: u64) \<le> 2 ^ 27"
    using t uint_of_int_u64 [of "rtrunc y"] by (simp add: unat_eq_nat_uint nat_le_iff)
  ultimately show ?thesis
    using fy unfolding capacity_range_def by (simp add: Let_def s_def [symmetric] x_def [symmetric])
qed

lemma storage_range_bound:
  assumes "mn_space row \<le> max_miner_space"
  shows "0 < storage_range row" and "unat (storage_range row) \<le> 2 ^ 27"
proof -
  define gb where "gb = (if drop_bit 16 (mn_space row) = 0 then 1 else drop_bit 16 (mn_space row))"
  have "uint (drop_bit 16 (mn_space row)) \<le> 102400" using uint_le [OF assms] by (simp add: uint_drop16)
  then have g2: "uint gb \<le> 102400" by (simp add: gb_def)
  have "gb \<noteq> 0" by (simp add: gb_def)
  then have "uint gb \<noteq> 0" by (simp add: uint_0_iff)
  then have g: "1 \<le> uint gb" "uint gb \<le> 102400" using uint_ge_0 [of gb] g2 by linarith+
  then have u: "uint (gb * 3) = uint gb * 3" by (simp add: uint_word_ariths)
  have e: "storage_range row = gb * 3" by (simp add: storage_range_def gb_def Let_def)
  show "0 < storage_range row" unfolding e word_less_def u using g by simp
  show "unat (storage_range row) \<le> 2 ^ 27" unfolding e unat_eq_nat_uint u using g by simp
qed

subsection \<open>Building\<close>

lemma scopes_differ: "cur_scope g \<noteq> next_scope g"
  by (simp add: cur_scope_def next_scope_def acct_simps)

lemma score_rows:
  assumes inv: "pool_inv db" and row: "map_of (miners db) m = Some row"
  shows "mn_max_space row \<le> max_miner_space" "mn_level row \<le> 89657" "mn_space row \<le> max_miner_space"
proof -
  have mi: "miners_inv db" using inv by (simp add: pool_inv_def)
  obtain info where info: "map_of (minerinfos db) m = Some info" using mi row by (rule miner_row_info)
  obtain acc where ok: "miner_ok info row acc" using miner_rows [OF mi info] row by auto
  then show "mn_max_space row \<le> max_miner_space" "mn_level row \<le> 89657" by (simp_all add: miner_ok_def)
  show "mn_space row \<le> max_miner_space" using miner_okD(5,6) [OF ok] by simp
qed

text \<open>The entries of one miner, and the step to the next identifier.\<close>

definition next_id :: "mscore2ex \<Rightarrow> mscore2ex" where
  "next_id g = g\<lparr>build_proc_id := build_proc_id g + 1\<rparr>"

lemma next_id_simps [simp]:
  "cur_scope (next_id g) = cur_scope g" "next_scope (next_id g) = next_scope g" "cur_count1 (next_id g) = cur_count1 g"
  "cur_count2 (next_id g) = cur_count2 g" "build_count1 (next_id g) = build_count1 g" "build_count2 (next_id g) = build_count2 g"
  "prev_build_range1 (next_id g) = prev_build_range1 g" "prev_build_range2 (next_id g) = prev_build_range2 g"
  "build_proc_id (next_id g) = build_proc_id g + 1"
  by (simp_all add: next_id_def cur_scope_def next_scope_def cur_count1_def cur_count2_def)

lemma build_one_inv:
  assumes inv: "pool_inv db" and sc: "scores_inv db g" and pid: "unat (build_proc_id g) < 2 ^ 32"
    and run: "build_one (next_scope g) (db, g) = Inr (db', g')"
  shows "scores_inv db' (next_id g')" and "same_core db db'" and "build_proc_id g' = build_proc_id g"
    and "next_scope g' = next_scope g" and "gmscore2ex db' = gmscore2ex db"
proof -
  have "scores_inv db' (next_id g') \<and> same_core db db' \<and> build_proc_id g' = build_proc_id g \<and> next_scope g' = next_scope g
    \<and> gmscore2ex db' = gmscore2ex db"
  proof (cases "db' = db \<and> g' = g")
    case True
    then show ?thesis using sc buffers_ok_skip [OF _ pid] by (simp add: scores_inv_def same_core_def)
  next
    case False
    then obtain m2 :: miner2 and row where m2: "m2_minerid m2 \<noteq> 0" and row: "map_of (miners db) (m2_minerid m2) = Some row"
        and st: "rbind (capacity_range row) (\<lambda>rng. Inr (build_storage (next_scope g) (m2_minerid m2) (storage_range row)
          (build_capacity (next_scope g) (m2_minerid m2) rng (db, g)))) = Inr (db', g')"
      using run unfolding build_one_def by (auto split: option.splits if_splits)
    note rows = score_rows [OF inv row]
    obtain r where r: "capacity_range row = Inr r" "unat r \<le> 2 ^ 27" using capacity_range_bound [OF rows(1,2)] by blast
    note sr = storage_range_bound [OF rows(3)]
    have b: "buffers_ok (mscore1s db) (cur_scope g) (cur_count1 g) (next_scope g) (build_count1 g) (prev_build_range1 g) (build_proc_id g)"
        "buffers_ok (mscore2s db) (cur_scope g) (cur_count2 g) (next_scope g) (build_count2 g) (prev_build_range2 g) (build_proc_id g)"
      using sc by (simp_all add: scores_inv_def)
    note s2 = buffers_ok_add [OF b(2) scopes_differ pid sr m2]
    have s1: "0 < r \<Longrightarrow> buffers_ok (tput (next_scope g, build_count1 g + 1) \<lparr>ms_minerid = m2_minerid m2, ms_range = prev_build_range1 g + r\<rparr>
        (mscore1s db)) (cur_scope g) (cur_count1 g) (next_scope g) (build_count1 g + 1) (prev_build_range1 g + r) (build_proc_id g + 1)"
      using buffers_ok_add [OF b(1) scopes_differ pid _ r(2) m2] .
    note s0 = buffers_ok_skip [OF b(1) pid]
    show ?thesis
    proof (cases "0 < r")
      case True
      then show ?thesis using st r(1) s1 [OF True] s2
        by (auto simp: build_storage_def build_capacity_def Let_def scores_inv_def same_core_def next_id_def
            cur_scope_def next_scope_def cur_count1_def cur_count2_def)
    next
      case False
      then show ?thesis using st r(1) s0 s2
        by (auto simp: build_storage_def build_capacity_def Let_def scores_inv_def same_core_def next_id_def
            cur_scope_def next_scope_def cur_count1_def cur_count2_def)
    qed
  qed
  then show "scores_inv db' (next_id g')" and "same_core db db'" and "build_proc_id g' = build_proc_id g"
    and "next_scope g' = next_scope g" and "gmscore2ex db' = gmscore2ex db" by blast+
qed

lemma scores_inv_swap: "scores_inv db g \<Longrightarrow> scores_inv db (swap_buffers g)"
  using buffers_ok_swap [of "mscore1s db"] buffers_ok_swap [of "mscore2s db"]
  by (auto simp: scores_inv_def swap_buffers_def Let_def cur_scope_def next_scope_def cur_count1_def cur_count2_def)

lemma pool_inv_core: "pool_inv db \<Longrightarrow> same_core db db' \<Longrightarrow> pool_inv db'"
  by (simp add: same_core_def pool_inv_def users_inv_def miners_inv_def ids_inv_def ids_agree_def pools_inv_def pool_row_ok_def
      total_inv_def spaces_inv_def space_of_def m2ex_of_def)

lemma same_core_trans: "same_core a b \<Longrightarrow> same_core b d \<Longrightarrow> same_core a d"
  by (simp add: same_core_def)

lemma build_loop_inv:
  "pool_inv db \<Longrightarrow> scores_inv db g \<Longrightarrow> build_proc_id g \<le> mt \<Longrightarrow> unat mt < 2 ^ 32 \<Longrightarrow>
     build_loop n mt (next_scope g) (db, g) = Inr (db', g') \<Longrightarrow> scores_inv db' g' \<and> same_core db db'"
proof (induction n arbitrary: db g)
  case 0
  then show ?case by (simp add: same_core_def)
next
  case (Suc n)
  obtain db1 g1 where one: "build_one (next_scope g) (db, g) = Inr (db1, g1)"
      and rest: "(if build_proc_id (next_id g1) > mt then Inr (db1, swap_buffers (next_id g1))
        else build_loop n mt (next_scope g) (db1, next_id g1)) = Inr (db', g')"
    using Suc.prems(5) by (auto simp: Let_def simp flip: next_id_def)
  have pid: "unat (build_proc_id g) < 2 ^ 32" using Suc.prems(3,4) by (simp add: word_le_nat_alt)
  note b = build_one_inv [OF Suc.prems(1,2) pid one]
  have p1: "pool_inv db1" using pool_inv_core [OF Suc.prems(1) b(2)] .
  show ?case
  proof (cases "build_proc_id (next_id g1) > mt")
    case True
    then show ?thesis using rest scores_inv_swap [OF b(1)] b(2) by simp
  next
    case False
    then have "build_loop n mt (next_scope (next_id g1)) (db1, next_id g1) = Inr (db', g')" using rest b(4) by simp
    then have "scores_inv db' g' \<and> same_core db1 db'"
      using Suc.IH [OF p1 b(1) _ Suc.prems(4)] False by (simp add: not_less)
    then show ?thesis using same_core_trans [OF b(2)] by blast
  qed
qed

lemma scores_inv_default: "scores_inv db mscore2ex_default"
  by (simp add: scores_inv_def buffers_ok_def counts_ok_def mscore2ex_default_def cur_count1_def cur_count2_def)

lemma scores_inv_cong: "mscore1s db' = mscore1s db \<Longrightarrow> mscore2s db' = mscore2s db \<Longrightarrow> scores_inv db' = scores_inv db"
  by (simp add: scores_inv_def fun_eq_iff)

lemma onbuild_inv:
  assumes inv: "pool_inv (pool w)" and sc: "score_inv (pool w)" and run: "onbuild c slot w = Inr w'"
  shows "score_inv (pool w')" and "same_core (pool w) (pool w')"
proof -
  have "score_inv (pool w') \<and> same_core (pool w) (pool w')"
  proof (cases "gnewmparam (pool w)")
    case None
    then show ?thesis using run sc by (simp add: onbuild_def same_core_def)
  next
    case (Some p)
    define db where "db = (pool w)\<lparr>gnewmparam := Some (p\<lparr>last_build_slot := slot, span_build_slot := 2\<rparr>)\<rparr>"
    have core: "same_core (pool w) db" by (simp add: db_def same_core_def)
    have inv1: "pool_inv db" using pool_inv_core [OF inv core] .
    have sc1: "score_inv db" using sc by (rule same_scores_inv) (simp add: db_def same_scores_def)
    show ?thesis
    proof (cases "gminer2ex db")
      case None
      then show ?thesis using run Some sc1 core by (auto simp: onbuild_def db_def [symmetric] Let_def)
    next
      case mx: (Some mx)
      define g where "g = get_or_default (gmscore2ex db) mscore2ex_default"
      have sg: "scores_inv db g"
        using sc1 scores_inv_default by (cases "gmscore2ex db") (simp_all add: g_def score_inv_def)
      show ?thesis
      proof (cases "build_proc_id g > mx_max_table_count mx")
        case True
        then have w': "pool w' = db\<lparr>gmscore2ex := Some (swap_buffers g)\<rparr>"
          using run Some mx by (auto simp: onbuild_def db_def [symmetric] Let_def g_def [symmetric])
        have "scores_inv (pool w') (swap_buffers g)"
          using scores_inv_swap [OF sg] scores_inv_cong [of "pool w'" db] by (simp add: w')
        then show ?thesis using core by (simp add: w' score_inv_def same_core_def)
      next
        case False
        then obtain db2 g2 where loop: "build_loop 3 (mx_max_table_count mx) (next_scope g) (db, g) = Inr (db2, g2)"
            and w': "pool w' = db2\<lparr>gmscore2ex := Some g2\<rparr>"
          using run Some mx by (auto simp: onbuild_def db_def [symmetric] Let_def g_def [symmetric] next_scope_def)
        have "unat (mx_max_table_count mx) < 2 ^ 32" using inv1 mx by (simp add: pool_inv_def ids_inv_def m2ex_of_def)
        then have l: "scores_inv db2 g2 \<and> same_core db db2" using build_loop_inv [OF inv1 sg _ _ loop] False by (simp add: not_less)
        then have "scores_inv (pool w') g2" using scores_inv_cong [of "pool w'" db2] by (simp add: w')
        moreover have "same_core (pool w) db2" using l same_core_trans [OF core] by blast
        ultimately show ?thesis by (simp add: w' score_inv_def same_core_def)
      qed
    qed
  qed
  then show "score_inv (pool w')" and "same_core (pool w) (pool w')" by blast+
qed


subsection \<open>Every draw finds a miner\<close>

definition scheduled_reward :: "u8 \<Rightarrow> int \<Rightarrow> u64 \<Rightarrow> bool \<Rightarrow> act" where
  "scheduled_reward kind reward minerid is_destory = mk_act hdd_pool_account hdd_pool_account
     (Pol (Pool_reward (Payrewardnew kind \<lparr>amount = reward, symbol = CORE_SYMBOL\<rparr> minerid is_destory)))"

lemma draw_schedules:
  assumes ok: "scores_ok look n" and n: "1 \<le> n" "unat n < 2 ^ 19" and au: "hdd_pool_account \<in> set (auths c)"
    and q: "- max_amount \<le> reward" "reward \<le> max_amount" and free: "(hdd_pool_account, ucast slot) \<notin> fst ` set (deferred w)"
  shows "\<exists>i r. i \<le> n \<and> look i = Some r \<and> first_reaching look (random mod rg look n + 1) i \<and> ms_minerid r \<noteq> 0
    \<and> draw c look n kind random slot reward d w
        = Inr (w\<lparr>deferred := deferred w @ [((hdd_pool_account, ucast slot), scheduled_reward kind reward (ms_minerid r) d)]\<rparr>)"
proof -
  obtain rn where rn: "look n = Some rn" "ms_range rn \<noteq> 0" using ok n(1) unfolding scores_ok_def by blast
  have g: "rg look n = ms_range rn" by (simp add: rg_def rn)
  have "random mod ms_range rn < ms_range rn" using rn(2) by (simp add: word_less_nat_alt unat_mod unat_gt_0)
  then have "random mod ms_range rn + 1 \<le> rg look n" unfolding g by (rule inc_le)
  from pick_miner_correct [OF ok n(2,1) this] obtain i r where
    "i \<le> n" "look i = Some r" "first_reaching look (random mod ms_range rn + 1) i" "ms_minerid r \<noteq> 0"
    "pick_miner look (random mod ms_range rn + 1) n = Some (ms_minerid r)" by blast
  moreover have "umod random (ms_range rn) = Inr (random mod ms_range rn)" using rn(2) by (simp add: umod_def)
  ultimately show ?thesis using rn(1) g au q free
    by (intro exI [of _ i] exI [of _ r]) (simp add: draw_def rewardlog_def scheduled_reward_def Let_def)
qed


subsection \<open>The payment of a reward\<close>

definition core_asset :: "int \<Rightarrow> asset" where
  "core_asset x = \<lparr>amount = x, symbol = CORE_SYMBOL\<rparr>"

lemma scaled_part:
  assumes "0 \<le> a" "a \<le> 2 ^ 53" and "scale_i64 a r = Inr x" and "0 \<le> r" "r \<le> 1"
  shows "0 \<le> x" and "x \<le> a"
  using trunc_scaled [OF assms(1,2,4,5)] assms(3) by (auto simp: scale_i64_def)

lemma payrewardnew_effect:
  assumes q: "0 \<le> amount q" "amount q \<le> 2 ^ 53" and run: "payrewardnew c ty q minerid d w = Inr w'"
  shows "\<exists>row reward gas fee. map_of (miners (pool w)) minerid = Some row \<and> 0 \<le> gas \<and> gas \<le> reward \<and> reward \<le> amount q
    \<and> getfeebalance w (mn_owner row) = Inr fee
    \<and> inlines w' = inlines w @ [mk_act hdd_pool_account hdd_pool_account (Pol (Pool_reward
        (if gas \<le> amount fee then Pool_channellog ty (core_asset reward) minerid (core_asset gas) (mn_owner row)
         else Channelfail ty (core_asset reward) minerid (core_asset gas) (mn_owner row))))]"
proof -
  obtain row gas0 reward gas fee where r: "map_of (miners (pool w)) minerid = Some row" "scale_i64 (amount q) (1 / 10) = Inr gas0"
      "(if is_old_miner w minerid \<and> d
        then rbind (scale_i64 (amount q) (8 / 10)) (\<lambda>r. rbind (scale_i64 r (1 / 10)) (\<lambda>g. Inr (r, g)))
        else Inr (amount q, gas0)) = Inr (reward, gas)"
      "getfeebalance w (mn_owner row) = Inr fee"
      and i: "inlines w' = inlines w @ [mk_act hdd_pool_account hdd_pool_account (Pol (Pool_reward
        (if gas \<le> amount fee then Pool_channellog ty (core_asset reward) minerid (core_asset gas) (mn_owner row)
         else Channelfail ty (core_asset reward) minerid (core_asset gas) (mn_owner row))))]"
    using run by (fastforce simp: payrewardnew_def core_asset_def)
  have "0 \<le> gas \<and> gas \<le> reward \<and> reward \<le> amount q"
  proof (cases "is_old_miner w minerid \<and> d")
    case True
    then have s: "scale_i64 (amount q) (8 / 10) = Inr reward" "scale_i64 reward (1 / 10) = Inr gas" using r(3) by auto
    have t: "0 \<le> reward" "reward \<le> amount q" using scaled_part [OF q s(1)] by simp_all
    moreover have "reward \<le> 2 ^ 53" using t q by linarith
    ultimately show ?thesis using scaled_part [OF _ _ s(2)] by simp
  next
    case False
    then have "reward = amount q" "gas = gas0" using r(3) by auto
    then show ?thesis using scaled_part [OF q r(2)] by simp
  qed
  then show ?thesis using r(1,4) i by blast
qed

end
