(* ===== verification/Hddpool_Params.thy ===== *)
theory Hddpool_Params
  imports Hddpool_Account
begin

text \<open>
  The global parameters of \<open>src/contracts/hddpool/hddpool.cpp\<close>: prices and ratios,
  the guards that bound how fast an authorised account may move them, and the
  deposit rate that follows from the price of the token in dollars.
\<close>

subsection \<open>The deposit rate\<close>

text \<open>
  The price of the token in dollars, in units of \<open>10^-4\<close>, gives the rate: one up
  to a price of 0.2, and \<open>0.38\<close> over the root of the price above.
\<close>

definition rate_of_price :: "u64 \<Rightarrow> int result" where
  "rate_of_price yta_u_price =
     (if yta_u_price \<le> 2000 then Inr 10000
      else
        let drate = fmul (fdiv (f64_of_int 1) (fsqrt (fdiv (f64_of_u64 yta_u_price) (f64_of_int 10000))))
                         (f64_of_rat (38 / 100)) in
        f64_trunc_i64s (fmul drate (f64_of_int 10000)))"

definition calc_deposit_rate :: "ctx \<Rightarrow> world \<Rightarrow> world result" where
  "calc_deposit_rate c w =
     (let usdprice = get_or_default (gusdprice (pool w)) 64500;
          p = gparams_get (pool w) in
      rbind (udiv (yta_price p * 10000) usdprice) (\<lambda>yta_u_price.
      rbind (rate_of_price yta_u_price) (\<lambda>rate.
      let g = get_or_default (gdeprate (pool w)) \<lparr>gr_rate = 10000, gr_last_rate_time = current_time c\<rparr>;
          w = w\<lparr>pool := (pool w)\<lparr>gdeprate := Some (g\<lparr>gr_rate := rate\<rparr>)\<rparr>\<rparr>;
          rate2 = tdiv rate 100 in
      send c hdd_pool_account (mk_act hddpooladmin hdd_deposit_account (Dep (Setrate rate2))) w)))"

subsection \<open>Prices and ratios\<close>

definition put_gparams :: "hdd_global_param \<Rightarrow> world \<Rightarrow> world" where
  "put_gparams p w = w\<lparr>pool := (pool w)\<lparr>gparams := Some p\<rparr>\<rparr>"

definition sethddprice :: "ctx \<Rightarrow> u64 \<Rightarrow> world \<Rightarrow> world result" where
  "sethddprice c price w =
     require_auth c hdd_pool_account (
     ensure (price > 0) ''invalid price'' (
     Inr (put_gparams ((gparams_get (pool w))\<lparr>hdd_price := price\<rparr>) w)))"

definition setdrdratio :: "ctx \<Rightarrow> u64 \<Rightarrow> world \<Rightarrow> world result" where
  "setdrdratio c ratio w =
     require_auth c hdd_pool_account (
     ensure (ratio \<ge> 10000) ''invalid deduplication ratio'' (
     Inr (put_gparams ((gparams_get (pool w))\<lparr>dup_remove_dist_ratio := ratio\<rparr>) w)))"

text \<open>Who may set a parameter, by the type of account the caller claims.\<close>

definition param_auth :: "u8 \<Rightarrow> name" where
  "param_auth acc_type =
     (if acc_type = 1 then hddpooladml1 else if acc_type = 2 then hddpooladmin else hdd_pool_account)"

definition setusdprice :: "ctx \<Rightarrow> u64 \<Rightarrow> u8 \<Rightarrow> world \<Rightarrow> world result" where
  "setusdprice c price acc_type w =
     require_auth c (param_auth acc_type) (
     ensure (price > 0) ''invalid price'' (
     calc_deposit_rate c (w\<lparr>pool := (pool w)\<lparr>gusdprice := Some price\<rparr>\<rparr>)))"

definition guard_default :: "u64 \<Rightarrow> hdd_price_guard" where
  "guard_default now = \<lparr>
     last_yta_guard_price1 = 8000, last_ytaprice_guard_time1 = now,
     last_yta_guard_price2 = 8000, last_ytaprice_guard_time2 = now,
     last_dup_remove_guard_ratio1 = 10000, last_duprmv_ratio_guard_time1 = now,
     last_dup_remove_guard_ratio2 = 10000, last_duprmv_ratio_guard_time2 = now,
     yta_price_delta_1 = 15, yta_price_timespan_1 = 480,
     yta_price_delta_2 = 50, yta_price_timespan_2 = 86400,
     duprmv_ratio_delta_1 = 10, duprmv_ratio_timespan_1 = 86400,
     duprmv_ratio_delta_2 = 50, duprmv_ratio_timespan_2 = 864000\<rparr>"

text \<open>The absolute difference of two values read as signed numbers.\<close>

definition abs_diff :: "u64 \<Rightarrow> u64 \<Rightarrow> u64" where
  "abs_diff a b = word_of_int (i64 \<bar>i64 (sint a - sint b)\<bar>)"

text \<open>One window of a guard: within its time span the value may move by a percentage only.\<close>

definition guard_window :: "u64 \<Rightarrow> u64 \<Rightarrow> u64 \<Rightarrow> u64 \<Rightarrow> u64 \<Rightarrow> u64 \<Rightarrow> bool result" where
  "guard_window ct new last_value last_time timespan max_delta =
     (let tmp_t = (ct - last_time) div 1000000 in
      rbind (udiv (abs_diff new last_value * 100) last_value) (\<lambda>delta.
      Inr (\<not> (tmp_t < timespan \<and> delta > max_delta))))"

definition window_over :: "u64 \<Rightarrow> u64 \<Rightarrow> u64 \<Rightarrow> bool" where
  "window_over ct last_time timespan \<longleftrightarrow> (ct - last_time) div 1000000 > timespan"

text \<open>Both windows, the second one only when the first lets the value pass.\<close>

definition guard_both :: "bool result \<Rightarrow> bool result \<Rightarrow> bool result" where
  "guard_both g1 g2 = rbind g1 (\<lambda>ok1. if ok1 then g2 else Inr False)"

definition guarded_price :: "u64 \<Rightarrow> u64 \<Rightarrow> hdd_global_param \<Rightarrow> hdd_price_guard
    \<Rightarrow> (hdd_global_param \<times> hdd_price_guard) result" where
  "guarded_price ct price p g =
     rbind (guard_both
       (guard_window ct price (last_yta_guard_price1 g) (last_ytaprice_guard_time1 g) (yta_price_timespan_1 g) (yta_price_delta_1 g))
       (guard_window ct price (last_yta_guard_price2 g) (last_ytaprice_guard_time2 g) (yta_price_timespan_2 g) (yta_price_delta_2 g)))
     (\<lambda>ok.
     if \<not> ok then Inr (p, g)
     else
       let g1 = (if window_over ct (last_ytaprice_guard_time1 g) (yta_price_timespan_1 g)
                 then g\<lparr>last_yta_guard_price1 := price, last_ytaprice_guard_time1 := ct\<rparr> else g);
           g2 = (if window_over ct (last_ytaprice_guard_time2 g) (yta_price_timespan_2 g)
                 then g1\<lparr>last_yta_guard_price2 := price, last_ytaprice_guard_time2 := ct\<rparr> else g1) in
       Inr (p\<lparr>yta_price := price\<rparr>, g2))"

definition put_params :: "hdd_global_param \<times> hdd_price_guard \<Rightarrow> world \<Rightarrow> world" where
  "put_params pg w = w\<lparr>pool := (pool w)\<lparr>gparams := Some (fst pg), paramguard := Some (snd pg)\<rparr>\<rparr>"

definition setytaprice :: "ctx \<Rightarrow> u64 \<Rightarrow> u8 \<Rightarrow> world \<Rightarrow> world result" where
  "setytaprice c price acc_type w =
     require_auth c (param_auth acc_type) (
     ensure (price > 0) ''invalid price'' (
     let ct = current_time c;
         p = gparams_get (pool w);
         g = get_or_default (paramguard (pool w)) (guard_default ct) in
     rbind (if acc_type = 100 then guarded_price ct price p g
            else Inr (p\<lparr>yta_price := price\<rparr>,
                      g\<lparr>last_yta_guard_price1 := price, last_yta_guard_price2 := price,
                        last_ytaprice_guard_time1 := ct, last_ytaprice_guard_time2 := ct\<rparr>)) (\<lambda>pg.
     calc_deposit_rate c (put_params pg w))))"

definition guarded_ratio :: "u64 \<Rightarrow> u64 \<Rightarrow> hdd_global_param \<Rightarrow> hdd_price_guard
    \<Rightarrow> (hdd_global_param \<times> hdd_price_guard) result" where
  "guarded_ratio ct ratio p g =
     rbind (guard_both
       (guard_window ct ratio (last_dup_remove_guard_ratio1 g) (last_duprmv_ratio_guard_time1 g) (duprmv_ratio_timespan_1 g) (duprmv_ratio_delta_1 g))
       (guard_window ct ratio (last_dup_remove_guard_ratio2 g) (last_duprmv_ratio_guard_time2 g) (duprmv_ratio_timespan_2 g) (duprmv_ratio_delta_2 g)))
     (\<lambda>ok.
     if \<not> ok then Inr (p, g)
     else
       let g1 = (if window_over ct (last_duprmv_ratio_guard_time1 g) (duprmv_ratio_timespan_1 g)
                 then g\<lparr>last_dup_remove_guard_ratio1 := ratio, last_duprmv_ratio_guard_time1 := ct\<rparr> else g);
           g2 = (if window_over ct (last_duprmv_ratio_guard_time2 g) (duprmv_ratio_timespan_2 g)
                 then g1\<lparr>last_dup_remove_guard_ratio2 := ratio, last_duprmv_ratio_guard_time2 := ct\<rparr> else g1) in
       Inr (p\<lparr>dup_remove_ratio := ratio\<rparr>, g2))"

definition setdrratio :: "ctx \<Rightarrow> u64 \<Rightarrow> u8 \<Rightarrow> world \<Rightarrow> world result" where
  "setdrratio c ratio acc_type w =
     require_auth c (param_auth acc_type) (
     ensure (ratio > 0 \<and> ratio \<le> 10000) ''invalid deduplication distribute ratio'' (
     let ct = current_time c;
         p = gparams_get (pool w);
         g = get_or_default (paramguard (pool w)) (guard_default ct) in
     rbind (if acc_type = 1 then guarded_ratio ct ratio p g
            else Inr (p\<lparr>dup_remove_ratio := ratio\<rparr>,
                      g\<lparr>last_dup_remove_guard_ratio1 := ratio, last_dup_remove_guard_ratio2 := ratio,
                        last_duprmv_ratio_guard_time1 := ct, last_duprmv_ratio_guard_time2 := ct\<rparr>)) (\<lambda>pg.
     Inr (put_params pg w))))"

definition addhddcnt :: "ctx \<Rightarrow> int \<Rightarrow> u8 \<Rightarrow> world \<Rightarrow> world result" where
  "addhddcnt c count acc_type w =
     require_auth c (param_auth acc_type) (
     let p = gparams_get (pool w) in
     Inr (put_gparams (p\<lparr>hdd_counter := i64 (hdd_counter p + count)\<rparr>) w))"

fun pool_param_apply :: "ctx \<Rightarrow> pool_param_act \<Rightarrow> world \<Rightarrow> world result" where
  "pool_param_apply c (Sethddprice p) w = sethddprice c p w"
| "pool_param_apply c (Setusdprice p t) w = setusdprice c p t w"
| "pool_param_apply c (Setytaprice p t) w = setytaprice c p t w"
| "pool_param_apply c (Setdrratio r t) w = setdrratio c r t w"
| "pool_param_apply c (Setdrdratio r) w = setdrdratio c r w"
| "pool_param_apply c (Addhddcnt n t) w = addhddcnt c n t w"

subsection \<open>Bounds of the deposit rate\<close>

lemma rnd_dyadic: "\<bar>m\<bar> \<le> 2 ^ 53 \<Longrightarrow> k \<le> 1000 \<Longrightarrow> rnd (of_int m / 2 ^ k) = of_int m / 2 ^ k"
  using rnd_exact [of m "- int k"] by (simp add: power_int_minus divide_inverse)

text \<open>The computed root falls short of the exact one by less than a hundredth.\<close>

lemma fsqrt_lower:
  assumes a: "0 < a"
  obtains v where "fsqrt (Fin a) = Fin v" "0 < v" "a < (101 / 100 * v) * (101 / 100 * v)"
proof -
  define e where "e = expo a div 2 - 52"
  define p where "p = (2 :: rat) powi e"
  define y where "y = a / (p * p)"
  have p0: "0 < p" by (simp add: p_def)
  have "2 * e + 104 \<le> expo a" by (simp add: e_def)
  then have "(2 :: rat) powi (2 * e + 104) \<le> 2 powi (expo a)" by (rule p2_mono)
  also have "\<dots> \<le> a" using expo_bounds(1) [OF a] .
  also have "(2 :: rat) powi (2 * e + 104) = p * p * 2 ^ 104"
    unfolding mult_2 p_def by (simp only: power_int_add [of 2, OF disjI1, simplified] p2_nat) simp
  finally have "p * p * 2 ^ 104 \<le> a" .
  then have y1: "2 ^ 104 \<le> y" using p0 by (simp add: y_def pos_le_divide_eq mult.commute)
  then have f1: "10000 \<le> \<lfloor>y\<rfloor>" by (simp add: le_floor_iff)
  define s where "s = isqrt \<lfloor>y\<rfloor>"
  have sb: "0 \<le> s" "\<lfloor>y\<rfloor> < (s + 1) * (s + 1)" using isqrt_bounds [of "\<lfloor>y\<rfloor>"] f1 by (simp_all add: s_def)
  have s100: "100 \<le> s"
  proof (rule ccontr)
    assume "\<not> 100 \<le> s"
    then have "(s + 1) * (s + 1) \<le> 100 * 100" using sb(1) by (intro mult_mono) auto
    then show False using sb(2) f1 by simp
  qed
  have "y < of_int (\<lfloor>y\<rfloor> + 1)" by linarith
  also have "\<dots> \<le> of_int ((s + 1) * (s + 1))" using sb(2) of_int_le_iff by fastforce
  finally have yl: "y < (of_int s + 1) * (of_int s + 1)" by simp
  have n: "s \<le> sqrt_ne y" by (simp add: sqrt_ne_def s_def [symmetric] Let_def)
  define v where "v = of_int (sqrt_ne y) * p"
  have v100: "100 * p \<le> v" unfolding v_def using s100 n p0 of_int_le_iff [of 100 "sqrt_ne y", where ?'a = rat]
    by (intro mult_right_mono) auto
  have sv: "(of_int s + 1) * p \<le> 101 / 100 * v"
  proof -
    have "of_int s * p \<le> v" unfolding v_def using n p0 by (intro mult_right_mono) auto
    then show ?thesis using v100 by (simp add: algebra_simps)
  qed
  have "a = y * (p * p)" using p0 by (simp add: y_def)
  also have "\<dots> < (of_int s + 1) * (of_int s + 1) * (p * p)" using yl p0 by (intro mult_strict_right_mono) auto
  also have "\<dots> = ((of_int s + 1) * p) * ((of_int s + 1) * p)" by simp
  also have "\<dots> \<le> (101 / 100 * v) * (101 / 100 * v)"
    using v100 p0 sb(1) by (intro mult_mono [OF sv sv]) simp_all
  finally have "a < (101 / 100 * v) * (101 / 100 * v)" .
  moreover have "fsqrt (Fin a) = Fin v" using a by (simp add: Let_def e_def [symmetric] p_def [symmetric] y_def [symmetric] v_def)
  moreover have "0 < v" using v100 p0 by simp
  ultimately show ?thesis using that by blast
qed

lemma rate_of_price_bounds: "\<exists>r. rate_of_price p = Inr r \<and> 0 \<le> r \<and> r \<le> 10000"
proof (cases "p \<le> 2000")
  case False
  have p1: "2001 \<le> uint p" using False by (simp add: word_le_def)
  define x where "x = rnd (of_int (uint p))"
  have x: "2001 \<le> x" "x \<le> 2 ^ 64"
    using rnd_ge_int [of 2001 "of_int (uint p)"] p1 rnd_le_pow2 [of "of_int (uint p)" 64] rat_of_u64 [of p] by (auto simp: x_def)
  have fx: "f64_of_u64 p = Fin x" using f64_of_uint [of p] by (simp add: f64_of_u64_def x_def)
  define a where "a = rnd (x / 10000)"
  have "51 / 256 \<le> x / 10000" using x by simp
  then have a1: "51 / 256 \<le> a" using rnd_mono [of "51 / 256" "x / 10000"] rnd_dyadic [of 51 8] by (simp add: a_def)
  have fa: "fdiv (Fin x) (f64_of_int 10000) = Fin a"
    using x by (simp add: a_def f64_of_rat_Fin)
  have a0: "0 < a" using a1 by (rule less_le_trans [rotated]) simp
  obtain v where v: "fsqrt (Fin a) = Fin v" "0 < v" "a < (101 / 100 * v) * (101 / 100 * v)" using fsqrt_lower [OF a0] .
  have v1: "7 / 16 \<le> v"
  proof (rule ccontr)
    assume "\<not> 7 / 16 \<le> v"
    then have "(101 / 100 * v) * (101 / 100 * v) \<le> (101 / 100 * (7 / 16)) * (101 / 100 * (7 / 16))"
      using v(2) by (intro mult_mono) auto
    then show False using v(3) a1 by simp
  qed
  define b where "b = rnd (1 / v)"
  have iv: "0 \<le> 1 / v" "1 / v \<le> 37 / 16" using v1 by (simp_all add: pos_divide_le_eq)
  have b: "0 \<le> b" "b \<le> 37 / 16"
    using rnd_nonneg [OF iv(1)] rnd_mono [OF iv(2)] rnd_dyadic [of 37 4] by (simp_all add: b_def)
  define d where "d = rnd (38 / 100)"
  have d: "0 \<le> d" "d \<le> 25 / 64" using rnd_nonneg [of "38 / 100"] rnd_mono [of "38 / 100" "25 / 64"] rnd_dyadic [of 25 6] by (simp_all add: d_def)
  have fb: "fdiv (f64_of_int 1) (Fin v) = Fin b" using v(2) iv by (simp add: b_def f64_of_rat_Fin)
  have fd: "f64_of_rat (38 / 100) = Fin d" by (simp add: d_def f64_of_rat_Fin)
  have bd: "0 \<le> b * d" "b * d \<le> 1" using b d mult_mono [of b "37 / 16" d "25 / 64"] by auto
  define r where "r = rnd (b * d)"
  have r: "0 \<le> r" "r \<le> 1" using rnd_01 [OF bd] by (simp_all add: r_def)
  have fr: "fmul (Fin b) (Fin d) = Fin r" using bd by (simp add: r_def f64_of_rat_Fin)
  define t where "t = rnd (r * 10000)"
  have t: "0 \<le> t" "t \<le> 10000" using rnd_nonneg [of "r * 10000"] rnd_le_int [of "r * 10000" 10000] r by (simp_all add: t_def)
  have ft: "fmul (Fin r) (f64_of_int 10000) = Fin t" using r by (simp add: t_def f64_of_rat_Fin)
  have "rate_of_price p = Inr (rtrunc t)"
    using False t unfolding rate_of_price_def by (simp only: fx fa v(1) fb fd fr ft if_False Let_def) simp
  then show ?thesis using rtrunc_bounds [of t 10000] t by auto
qed (simp add: rate_of_price_def)

subsection \<open>The guards\<close>

lemma div_le_less_mult:
  assumes "0 < (b :: int)" and "x div b \<le> d"
  shows "x < (d + 1) * b"
proof -
  have "x < (x div b + 1) * b" 
    using pos_mod_bound [OF assms(1), of x] div_mult_mod_eq [of x b] unfolding distrib_right by linarith
  also have "\<dots> \<le> (d + 1) * b" using assms by (intro mult_right_mono) auto
  finally show ?thesis .
qed

lemma sint_small: "uint (x :: u64) < 2 ^ 63 \<Longrightarrow> sint x = uint x"
  using uint_ge_0 [of x] by (simp add: sint_uint signed_take_bit_int_eq_self_iff order_trans [of _ 0])

lemma abs_diff_small:
  assumes "uint new \<le> 2 ^ 56" "uint last_v \<le> 2 ^ 56"
  shows "uint (abs_diff new last_v * 100) = \<bar>uint new - uint last_v\<bar> * 100"
proof -
  define d where "d = \<bar>uint new - uint last_v\<bar>"
  have d: "0 \<le> d" "d \<le> 2 ^ 56" and b: "- (2 ^ 56) \<le> uint new - uint last_v" "uint new - uint last_v \<le> 2 ^ 56"
    using assms uint_ge_0 [of new] uint_ge_0 [of last_v] unfolding d_def by linarith+
  have "i64 (uint new - uint last_v) = uint new - uint last_v" using b by (intro i64_bounds) simp_all
  moreover have "i64 d = d" using d by (intro i64_bounds) simp_all
  ultimately have "abs_diff new last_v = word_of_int d"
    using assms by (simp add: abs_diff_def sint_small d_def)
  moreover have "uint (word_of_int d :: u64) = d" using d by (intro uint_of_int_u64) simp_all
  ultimately show ?thesis using d by (simp add: uint_word_ariths d_def [symmetric])
qed

text \<open>What one window lets pass, without the wrap-around of words.\<close>

lemma guard_window_pass:
  assumes pass: "guard_window ct new last_v last_t timespan max_delta = Inr True"
    and small: "uint new \<le> 2 ^ 56" "uint last_v \<le> 2 ^ 56"
  shows "last_v \<noteq> 0 \<and> (timespan \<le> (ct - last_t) div 1000000
    \<or> \<bar>uint new - uint last_v\<bar> * 100 < (uint max_delta + 1) * uint last_v)"
proof -
  note u = abs_diff_small [OF small]
  have nz: "last_v \<noteq> 0" using pass by (auto simp: guard_window_def udiv_def split: if_splits)
  then have p: "\<not> ((ct - last_t) div 1000000 < timespan \<and> max_delta < (abs_diff new last_v * 100) div last_v)"
    using pass by (simp add: guard_window_def udiv_def)
  have "\<bar>uint new - uint last_v\<bar> * 100 < (uint max_delta + 1) * uint last_v"
    if "(ct - last_t) div 1000000 < timespan"
  proof -
    have "(abs_diff new last_v * 100) div last_v \<le> max_delta" using p that by auto
    then have "\<bar>uint new - uint last_v\<bar> * 100 div uint last_v \<le> uint max_delta" by (simp add: word_le_def uint_div_distrib u)
    moreover have pos: "0 < uint last_v" using nz uint_ge_0 [of last_v] uint_0_iff [of last_v] by linarith
    ultimately show ?thesis by (rule div_le_less_mult [rotated])
  qed
  then show ?thesis using nz by (meson linorder_not_less)
qed

lemma guarded_ratio_change:
  assumes "guarded_ratio ct ratio p g = Inr (p', g')" and "p' \<noteq> p"
  shows "p' = p\<lparr>dup_remove_ratio := ratio\<rparr>"
    and "guard_window ct ratio (last_dup_remove_guard_ratio1 g) (last_duprmv_ratio_guard_time1 g)
      (duprmv_ratio_timespan_1 g) (duprmv_ratio_delta_1 g) = Inr True"
    and "guard_window ct ratio (last_dup_remove_guard_ratio2 g) (last_duprmv_ratio_guard_time2 g)
      (duprmv_ratio_timespan_2 g) (duprmv_ratio_delta_2 g) = Inr True"
  using assms by (auto simp: guarded_ratio_def guard_both_def Let_def split: if_splits)

lemma calc_deposit_rate_effect:
  assumes "calc_deposit_rate c w = Inr w'"
  obtains r g where "0 \<le> r" "r \<le> 10000" "pool w' = (pool w)\<lparr>gdeprate := Some g\<rparr>" "gr_rate g = r"
    "inlines w' = inlines w @ [mk_act hddpooladmin hdd_deposit_account (Dep (Setrate (tdiv r 100)))]"
    "tok w' = tok w" "lck w' = lck w" "dep w' = dep w" "chn w' = chn w" "syst w' = syst w" "deferred w' = deferred w"
proof -
  let ?g = "get_or_default (gdeprate (pool w)) \<lparr>gr_rate = 10000, gr_last_rate_time = current_time c\<rparr>"
  obtain y r where "rate_of_price y = Inr r"
      and w': "w' = w\<lparr>pool := (pool w)\<lparr>gdeprate := Some (?g\<lparr>gr_rate := r\<rparr>)\<rparr>,
        inlines := inlines w @ [mk_act hddpooladmin hdd_deposit_account (Dep (Setrate (tdiv r 100)))]\<rparr>"
    using assms by (auto simp: calc_deposit_rate_def Let_def)
  moreover from this(1) have "0 \<le> r" "r \<le> 10000" using rate_of_price_bounds [of y] by auto
  ultimately show ?thesis by (intro that [of r "?g\<lparr>gr_rate := r\<rparr>"]) simp_all
qed

subsection \<open>What the actions leave alone\<close>

lemma pool_param_apply_frame:
  assumes "pool_param_apply c a w = Inr w'"
  shows "tok w' = tok w" "lck w' = lck w" "dep w' = dep w" "chn w' = chn w" "syst w' = syst w" "deferred w' = deferred w"
    "same_core (pool w) (pool w')"
proof -
  have "tok w' = tok w \<and> lck w' = lck w \<and> dep w' = dep w \<and> chn w' = chn w \<and> syst w' = syst w \<and> deferred w' = deferred w
    \<and> same_core (pool w) (pool w')"
    using assms
    by (cases a) (auto simp: sethddprice_def setusdprice_def setytaprice_def setdrratio_def setdrdratio_def addhddcnt_def
        put_gparams_def put_params_def same_core_def Let_def elim!: calc_deposit_rate_effect)
  then show "tok w' = tok w" "lck w' = lck w" "dep w' = dep w" "chn w' = chn w" "syst w' = syst w" "deferred w' = deferred w"
    "same_core (pool w) (pool w')" by blast+
qed

end
