(* ===== verification/Hddpool.thy ===== *)
theory Hddpool
  imports Hddpool_Score Hddpool_Params
begin

text \<open>
  The dispatcher of \<open>src/contracts/hddpool/hddpool.cpp\<close> over the groups of its
  actions, what an action leaves alone, and the invariant of the whole contract.
\<close>

definition hddpool_apply :: "ctx \<Rightarrow> pool_act \<Rightarrow> world \<Rightarrow> world result" where
  "hddpool_apply c a w =
     (let w = w\<lparr>pool := pool_ctor (pool w)\<rparr> in
      case a of
        Pool_user x \<Rightarrow> pool_user_apply c x w
      | Pool_miner x \<Rightarrow> pool_miner_apply c x w
      | Pool_change x \<Rightarrow> pool_change_apply c x w
      | Pool_param x \<Rightarrow> pool_param_apply c x w
      | Pool_reward x \<Rightarrow> pool_reward_apply c x w)"

subsection \<open>What an action leaves alone\<close>

text \<open>The tables of the other contracts.\<close>

definition others :: "world \<Rightarrow> world \<Rightarrow> bool" where
  "others w w' \<longleftrightarrow> tok w' = tok w \<and> lck w' = lck w \<and> dep w' = dep w \<and> chn w' = chn w \<and> syst w' = syst w"

lemma others_refl [simp]: "others w w"
  by (simp add: others_def)

lemma others_trans: "others a b \<Longrightarrow> others b d \<Longrightarrow> others a d"
  by (simp add: others_def)

lemma others_upd [simp]:
  "others w (w'\<lparr>pool := p\<rparr>) = others w w'" "others (w\<lparr>pool := p\<rparr>) w' = others w w'"
  "others w (w'\<lparr>inlines := i\<rparr>) = others w w'" "others w (w'\<lparr>notified := n\<rparr>) = others w w'"
  "others w (w'\<lparr>deferred := d\<rparr>) = others w w'"
  by (simp_all add: others_def)

lemma others_steps [simp]:
  "others w (require_recipient n w') = others w w'" "send c self a w' = Inr w2 \<Longrightarrow> others w w2 = others w w'"
  by (auto simp: others_def require_recipient_def send_def split: if_splits)

lemma keeps_pool:
  "(\<And>d. g (pool w) = Inr d \<Longrightarrow> P (w\<lparr>pool := d\<rparr>)) \<Longrightarrow> keeps P (on_pool g w)"
  by (auto simp: keeps_def)

lemma keeps_rbind_pool:
  "(\<And>d. g (pool w) = Inr d \<Longrightarrow> keeps P (f (w\<lparr>pool := d\<rparr>))) \<Longrightarrow> keeps P (rbind (on_pool g w) f)"
  by (auto simp: keeps_def)

lemmas pool_intros = keeps_pool keeps_rbind_pool keeps_intros

lemmas user_defs = getbalance_def buyhdd_def transhdds_def sellhdd_def sethfee_def subbalance_def addhspace_def subhspace_def
  calcprofit_def fixownspace_def

definition frame :: "world \<Rightarrow> world \<Rightarrow> bool" where
  "frame w w' \<longleftrightarrow> others w w' \<and> deferred w' = deferred w"

lemma frame_upd [simp]:
  "frame w w" "frame w (w'\<lparr>pool := p\<rparr>) = frame w w'" "frame (w\<lparr>pool := p\<rparr>) w' = frame w w'"
  "frame w (w'\<lparr>inlines := i\<rparr>) = frame w w'" "frame w (w'\<lparr>notified := n\<rparr>) = frame w w'"
  "frame w (require_recipient k w') = frame w w'"
  by (simp_all add: frame_def require_recipient_def)

lemma pool_user_apply_frame: "pool_user_apply c a w = Inr w' \<Longrightarrow> frame w w'"
proof (rule keepsD [of "frame w"])
  show "keeps (frame w) (pool_user_apply c a w)"
    by (cases a; simp only: pool_user_apply.simps user_defs Let_def; intro pool_intros; simp)
qed

lemmas miner_defs = addmprofit_def submprofit_def calcmbalance_def mdeactive_def mactive_def delminer_def newminer_def
  addm2pool_def regminer_def oldsync_def mlevel_def mrspace_def

lemma pool_miner_apply_frame: "pool_miner_apply c a w = Inr w' \<Longrightarrow> frame w w'"
proof (rule keepsD [of "frame w"])
  show "keeps (frame w) (pool_miner_apply c a w)"
    by (cases a; simp only: pool_miner_apply.simps miner_defs Let_def; intro pool_intros; simp)
qed

lemmas change_defs = delstrpool_def regstrpool_def chgpoolspace_def mchgspace_def mchgstrpool_def mincdeposit_def mchgadminacc_def
  mchgowneracc_def

lemma pool_change_apply_frame: "pool_change_apply c a w = Inr w' \<Longrightarrow> frame w w'"
proof (rule keepsD [of "frame w"])
  show "keeps (frame w) (pool_change_apply c a w)"
    by (cases a; simp only: pool_change_apply.simps change_defs Let_def; intro pool_intros; simp split: option.splits)
qed


subsection \<open>The probability tables are left alone\<close>

lemma same_scores_refl [simp]: "same_scores db db"
  by (simp add: same_scores_def)

lemma same_scores_trans: "same_scores a b \<Longrightarrow> same_scores b d \<Longrightarrow> same_scores a d"
  by (simp add: same_scores_def)

lemma same_scores_upd [simp]:
  "same_scores d (db\<lparr>userhdds := t1\<rparr>) = same_scores d db" "same_scores d (db\<lparr>maccounts := t2\<rparr>) = same_scores d db"
  "same_scores d (db\<lparr>storepools := t3\<rparr>) = same_scores d db" "same_scores d (db\<lparr>minerinfos := t4\<rparr>) = same_scores d db"
  "same_scores d (db\<lparr>miners := t5\<rparr>) = same_scores d db" "same_scores d (db\<lparr>miner2s := t6\<rparr>) = same_scores d db"
  "same_scores d (db\<lparr>gminer2ex := g1\<rparr>) = same_scores d db" "same_scores d (db\<lparr>gcounter := g2\<rparr>) = same_scores d db"
  "same_scores d (db\<lparr>gusercount := g3\<rparr>) = same_scores d db" "same_scores d (db\<lparr>gmacccount := g4\<rparr>) = same_scores d db"
  "same_scores d (db\<lparr>gparams := g5\<rparr>) = same_scores d db" "same_scores d (db\<lparr>gnewmparam := g6\<rparr>) = same_scores d db"
  "same_scores d (put_user u r1 db) = same_scores d db" "same_scores d (put_minerinfo m r2 db) = same_scores d db"
  "same_scores d (put_maccount u m r3 db) = same_scores d db" "same_scores d (put_storepool u r4 db) = same_scores d db"
  "same_scores d (chg_total_space s b db) = same_scores d db"
  "same_scores d (sync_miner m f db) = same_scores d db" "same_scores d (leave_pool info db) = same_scores d db"
  by (simp_all add: same_scores_def put_user_def put_minerinfo_def put_maccount_def put_storepool_def chg_total_space_def
      sync_miner_def leave_pool_def Let_def split: option.splits)

lemma same_scores_upd_left [simp]:
  "same_scores (db\<lparr>userhdds := t1\<rparr>) d = same_scores db d" "same_scores (db\<lparr>maccounts := t2\<rparr>) d = same_scores db d"
  "same_scores (db\<lparr>storepools := t3\<rparr>) d = same_scores db d" "same_scores (db\<lparr>minerinfos := t4\<rparr>) d = same_scores db d"
  "same_scores (db\<lparr>miners := t5\<rparr>) d = same_scores db d" "same_scores (db\<lparr>miner2s := t6\<rparr>) d = same_scores db d"
  "same_scores (db\<lparr>gminer2ex := g1\<rparr>) d = same_scores db d" "same_scores (db\<lparr>gcounter := g2\<rparr>) d = same_scores db d"
  "same_scores (db\<lparr>gusercount := g3\<rparr>) d = same_scores db d" "same_scores (db\<lparr>gmacccount := g4\<rparr>) d = same_scores db d"
  "same_scores (db\<lparr>gparams := g5\<rparr>) d = same_scores db d" "same_scores (db\<lparr>gnewmparam := g6\<rparr>) d = same_scores db d"
  "same_scores (put_user u r1 db) d = same_scores db d" "same_scores (put_minerinfo m r2 db) d = same_scores db d"
  "same_scores (put_maccount u m r3 db) d = same_scores db d" "same_scores (put_storepool u r4 db) d = same_scores db d"
  "same_scores (chg_total_space s b db) d = same_scores db d"
  "same_scores (sync_miner m f db) d = same_scores db d" "same_scores (leave_pool info db) d = same_scores db d"
  by (simp_all add: same_scores_def put_user_def put_minerinfo_def put_maccount_def put_storepool_def chg_total_space_def
      sync_miner_def leave_pool_def Let_def split: option.splits)

lemma account_scores:
  "new_user_hdd now u b db = Inr db' \<Longrightarrow> same_scores db db'" "credit_ecology x db = Inr db' \<Longrightarrow> same_scores db db'"
proof -
  have "keeps (same_scores db) (new_user_hdd now u b db)" "keeps (same_scores db) (credit_ecology x db)"
    by (simp only: new_user_hdd_def credit_ecology_def Let_def; intro pool_intros; simp)+
  then show "new_user_hdd now u b db = Inr db' \<Longrightarrow> same_scores db db'" "credit_ecology x db = Inr db' \<Longrightarrow> same_scores db db'"
    by (auto dest: keepsD)
qed

lemma owner_scores: "chg_owner_space u s b1 b2 ct dl db = Inr db' \<Longrightarrow> same_scores db db'"
proof (rule keepsD [of "same_scores db"])
  show "keeps (same_scores db) (chg_owner_space u s b1 b2 ct dl db)"
    by (simp only: chg_owner_space_def credit_ecology_def Let_def; intro pool_intros; simp)
qed


lemma id_scores:
  "insert_miner2 m db = Inr (db1, i) \<Longrightarrow> same_scores db db1" "del_miner2 k db = Inr db2 \<Longrightarrow> same_scores db db2"
proof -
  have "keeps (\<lambda>(d, i). same_scores db d) (insert_miner2 m db)" "keeps (same_scores db) (del_miner2 k db)"
    by (simp only: insert_miner2_def del_miner2_def Let_def; intro pool_intros; simp)+
  then show "insert_miner2 m db = Inr (db1, i) \<Longrightarrow> same_scores db db1" "del_miner2 k db = Inr db2 \<Longrightarrow> same_scores db db2"
    by (auto dest: keepsD)
qed

lemma owner_change_scores:
  "leave_owner now m info db = Inr db1 \<Longrightarrow> same_scores db db1" "join_owner now m u db = Inr db2 \<Longrightarrow> same_scores db db2"
  "drop_miner m db = Inr db3 \<Longrightarrow> same_scores db db3"
proof -
  have "keeps (same_scores db) (leave_owner now m info db)" "keeps (same_scores db) (drop_miner m db)"
    by (simp only: leave_owner_def drop_miner_def Let_def; intro pool_intros; simp add: owner_scores id_scores)+
  moreover have "keeps (same_scores db) (join_owner now m u db)"
    by (simp only: join_owner_def new_user_hdd_def Let_def; intro pool_intros; simp)
  ultimately show "leave_owner now m info db = Inr db1 \<Longrightarrow> same_scores db db1" "join_owner now m u db = Inr db2 \<Longrightarrow> same_scores db db2"
    "drop_miner m db = Inr db3 \<Longrightarrow> same_scores db db3"
    by (auto dest: keepsD)
qed

lemma regminer_scores: "regminer_db now m a p u s st db = Inr db' \<Longrightarrow> same_scores db db'"
proof (rule keepsD [of "same_scores db"])
  show "keeps (same_scores db) (regminer_db now m a p u s st db)"
    by (simp only: regminer_db_def Let_def; intro pool_intros; simp)
       (auto dest!: id_scores(1) owner_change_scores(2) intro: same_scores_trans)
qed

lemmas scores_dests = owner_scores id_scores owner_change_scores account_scores regminer_scores

lemma pool_miner_apply_scores: "pool_miner_apply c a w = Inr w' \<Longrightarrow> same_scores (pool w) (pool w')"
proof (rule keepsD [of "\<lambda>w'. same_scores (pool w) (pool w')"])
  show "keeps (\<lambda>w'. same_scores (pool w) (pool w')) (pool_miner_apply c a w)"
    by (cases a; simp only: pool_miner_apply.simps miner_defs Let_def; intro pool_intros;
        simp)
       (auto dest!: scores_dests intro: same_scores_trans)
qed


lemma store_scores: "credit_store now u x db = Inr db1 \<Longrightarrow> same_scores db db1" "debit_store u x db = Inr db2 \<Longrightarrow> same_scores db db2"
proof -
  have "keeps (same_scores db) (credit_store now u x db)" "keeps (same_scores db) (debit_store u x db)"
    by (simp only: credit_store_def debit_store_def new_user_hdd_def Let_def; intro pool_intros; simp)+
  then show "credit_store now u x db = Inr db1 \<Longrightarrow> same_scores db db1" "debit_store u x db = Inr db2 \<Longrightarrow> same_scores db db2"
    by (auto dest: keepsD)
qed

lemma pool_require_recipient [simp]: "pool (require_recipient n w) = pool w"
  by (simp add: require_recipient_def)

lemma pool_user_apply_scores: "pool_user_apply c a w = Inr w' \<Longrightarrow> same_scores (pool w) (pool w')"
proof (rule keepsD [of "\<lambda>w'. same_scores (pool w) (pool w')"])
  show "keeps (\<lambda>w'. same_scores (pool w) (pool w')) (pool_user_apply c a w)"
    by (cases a; simp only: pool_user_apply.simps user_defs Let_def; intro pool_intros; simp)
       (auto dest!: scores_dests store_scores intro: same_scores_trans)
qed

lemma pool_change_apply_scores: "pool_change_apply c a w = Inr w' \<Longrightarrow> same_scores (pool w) (pool w')"
proof (rule keepsD [of "\<lambda>w'. same_scores (pool w) (pool w')"])
  show "keeps (\<lambda>w'. same_scores (pool w) (pool w')) (pool_change_apply c a w)"
    by (cases a; simp only: pool_change_apply.simps change_defs Let_def; intro pool_intros; simp split: option.splits)
       (auto dest!: scores_dests intro: same_scores_trans)
qed

lemmas param_defs = sethddprice_def setusdprice_def setytaprice_def setdrratio_def setdrdratio_def addhddcnt_def put_gparams_def
  put_params_def

lemma rate_scores: "calc_deposit_rate c w = Inr w' \<Longrightarrow> same_scores (pool w) (pool w')"
  by (erule calc_deposit_rate_effect) (simp add: same_scores_def)

lemma pool_param_apply_scores: "pool_param_apply c a w = Inr w' \<Longrightarrow> same_scores (pool w) (pool w')"
  by (cases a) (auto simp: param_defs same_scores_def Let_def dest!: rate_scores)


subsection \<open>Rewards\<close>

text \<open>Besides the probability tables only the parameters of the new model change.\<close>

definition calm :: "world \<Rightarrow> world \<Rightarrow> bool" where
  "calm w w' \<longleftrightarrow> frame w w' \<and> (\<exists>g. pool w' = (pool w)\<lparr>gnewmparam := g\<rparr>)"

lemma calm_refl [simp]: "calm w w"
  by (auto simp: calm_def intro: exI [of _ "gnewmparam (pool w)"])

lemma calm_upd [simp]:
  "calm w (w'\<lparr>inlines := i\<rparr>) = calm w w'" "calm w (w'\<lparr>notified := n\<rparr>) = calm w w'" "calm w (require_recipient k w') = calm w w'"
  by (simp_all add: calm_def)

lemma calm_newm [simp]: "calm w w' \<Longrightarrow> calm w (w'\<lparr>pool := (pool w')\<lparr>gnewmparam := g\<rparr>\<rparr>)"
  by (auto simp: calm_def)

lemma calm_trans: "calm a b \<Longrightarrow> calm b d \<Longrightarrow> calm a d"
  by (auto simp: calm_def frame_def others_def)

lemma issue_calm: "send_issue c x w = Inr w' \<Longrightarrow> calm w w'"
proof (rule keepsD [of "calm w"])
  show "keeps (calm w) (send_issue c x w)"
    by (simp only: send_issue_def; intro pool_intros; simp)
qed

lemma destroy_calm: "destroy_fund c g w = Inr (g', w') \<Longrightarrow> calm w w'"
  using keepsD [of "\<lambda>(_, w'). calm w w'" "destroy_fund c g w"]
  by (fastforce simp: destroy_fund_def Let_def intro: pool_intros)

lemma day_calm: "day_issue c b x g w = Inr (g', w') \<Longrightarrow> calm w w'"
proof -
  have "keeps (\<lambda>(_, w'). calm w w') (day_issue c b x g w)"
    by (simp only: day_issue_def Let_def; intro pool_intros; simp)
       (auto dest!: issue_calm destroy_calm intro: calm_trans)
  then show "day_issue c b x g w = Inr (g', w') \<Longrightarrow> calm w w'" by (auto dest: keepsD)
qed

lemma new_day_calm: "new_day c t g w = Inr (g', w', b) \<Longrightarrow> calm w w'"
proof -
  have "keeps (\<lambda>(_, w', _). calm w w') (new_day c t g w)"
    by (simp only: new_day_def Let_def; intro pool_intros; simp)
       (auto dest!: day_calm)
  then show "new_day c t g w = Inr (g', w', b) \<Longrightarrow> calm w w'" by (auto dest: keepsD)
qed

lemma update_calm: "update_newmodel_params c slot w = Inr (w', r) \<Longrightarrow> calm w w'"
proof -
  have "keeps (\<lambda>(w', _). calm w w') (update_newmodel_params c slot w)"
    by (simp only: update_newmodel_params_def Let_def; intro pool_intros; simp)
       (auto dest!: new_day_calm intro: calm_newm)
  then show "update_newmodel_params c slot w = Inr (w', r) \<Longrightarrow> calm w w'" by (auto dest: keepsD)
qed


definition paying :: "world \<Rightarrow> world \<Rightarrow> bool" where
  "paying w w' \<longleftrightarrow> others w w' \<and> (\<exists>g. pool w' = (pool w)\<lparr>gnewmparam := g\<rparr>)"

lemma calm_paying: "calm w w' \<Longrightarrow> paying w w'"
  by (simp add: calm_def paying_def frame_def)

lemma draw_paying: "draw c look n k rn slot x b w = Inr w' \<Longrightarrow> others w w' \<and> pool w' = pool w"
proof (rule keepsD [of "\<lambda>w'. others w w' \<and> pool w' = pool w"])
  show "keeps (\<lambda>w'. others w w' \<and> pool w' = pool w) (draw c look n k rn slot x b w)"
    by (simp only: draw_def rewardlog_def Let_def; intro pool_intros; simp)
qed

lemma onreward_paying: "onreward c slot w = Inr w' \<Longrightarrow> paying w w'"
proof (rule keepsD [of "paying w"])
  have *: "paying w w2" if "calm w w1" "draw c look n k rn slot x b w1 = Inr w2" for w1 w2 look n k rn x b
    using calm_paying [OF that(1)] draw_paying [OF that(2)] by (simp add: paying_def others_def)
  have "keeps (paying w) (rewardproc1 c rn slot x b w1)" "keeps (paying w) (rewardproc2 c rn slot x b w1)"
    if "calm w w1" for w1 rn x b
    using * [OF that] calm_paying [OF that]
    by (auto simp: rewardproc1_def rewardproc2_def keeps_def Let_def split: option.splits if_splits)
  then show "keeps (paying w) (onreward c slot w)"
    by (simp only: onreward_def; intro pool_intros; auto dest!: update_calm intro: calm_paying)
qed

lemma startnewm_calm: "startnewm c w = Inr w' \<Longrightarrow> calm w w'"
proof (rule keepsD [of "calm w"])
  show "keeps (calm w) (startnewm c w)"
    by (simp only: startnewm_def Let_def; intro pool_intros; auto dest: issue_calm intro: calm_newm)
qed

lemma payment_calm:
  "payrewardnew c t q m d w = Inr w' \<Longrightarrow> calm w w'" "pool_channellog c t q m g u w = Inr w' \<Longrightarrow> calm w w'"
  "channelfail c t q m g u w = Inr w' \<Longrightarrow> calm w w'"
proof -
  have "keeps (calm w) (payrewardnew c t q m d w)" "keeps (calm w) (pool_channellog c t q m g u w)"
    by (simp only: payrewardnew_def pool_channellog_def Let_def; intro pool_intros; simp)+
  then show "payrewardnew c t q m d w = Inr w' \<Longrightarrow> calm w w'" "pool_channellog c t q m g u w = Inr w' \<Longrightarrow> calm w w'"
    "channelfail c t q m g u w = Inr w' \<Longrightarrow> calm w w'"
    by (auto dest: keepsD simp: channelfail_def)
qed

lemma onbuild_others: "onbuild c slot w = Inr w' \<Longrightarrow> frame w w'"
proof (rule keepsD [of "frame w"])
  show "keeps (frame w) (onbuild c slot w)"
    by (simp only: onbuild_def Let_def; intro pool_intros; simp)
qed

lemma paying_core: "paying w w' \<Longrightarrow> same_core (pool w) (pool w') \<and> same_scores (pool w) (pool w')"
  by (auto simp: paying_def same_core_def)

text \<open>What an action of the contract keeps of the tables of the contract.\<close>

lemma pool_reward_apply_effect:
  assumes inv: "pool_inv (pool w)" and sc: "score_inv (pool w)" and run: "pool_reward_apply c a w = Inr w'"
  shows "same_core (pool w) (pool w')" and "score_inv (pool w')" and "others w w'"
proof -
  have *: "paying w w' \<Longrightarrow> same_core (pool w) (pool w') \<and> score_inv (pool w') \<and> others w w'"
    using paying_core [of w w'] same_scores_inv [OF sc] by (auto simp: paying_def)
  have "same_core (pool w) (pool w') \<and> score_inv (pool w') \<and> others w w'"
  proof (cases a)
    case (Onbuild s)
    then show ?thesis using run onbuild_inv [OF inv sc] onbuild_others by (auto simp: frame_def)
  qed (use run * onreward_paying payment_calm startnewm_calm calm_paying in auto)
  then show "same_core (pool w) (pool w')" and "score_inv (pool w')" and "others w w'" by blast+
qed

definition hddpool_inv :: "pool_db \<Rightarrow> bool" where
  "hddpool_inv db \<longleftrightarrow> pool_inv (pool_ctor db) \<and> score_inv db"

lemma pool_ctor_core: "pool_inv db \<Longrightarrow> pool_inv (pool_ctor db)"
  by (rule pool_inv_core) (auto simp: pool_inv_def users_inv_def same_core_def pool_ctor_def get_or_default_def)

lemma score_inv_ctor [simp]: "score_inv (pool_ctor db) = score_inv db"
  by (simp add: score_inv_def pool_ctor_def scores_inv_def split: option.splits)

lemma ids_room_ctor [simp]: "ids_room (pool_ctor db) = ids_room db"
  by (simp add: ids_room_def m2ex_of_def pool_ctor_def)

theorem hddpool_apply_effect:
  assumes inv: "hddpool_inv (pool w)" and room: "ids_room (pool w)" and acc0: "\<not> is_account c 0"
    and run: "hddpool_apply c a w = Inr w'"
  shows "hddpool_inv (pool w')" and "others w w'"
proof -
  define w0 where "w0 = w\<lparr>pool := pool_ctor (pool w)\<rparr>"
  have i: "pool_inv (pool w0)" "score_inv (pool w0)" "ids_room (pool w0)" "others w w' = others w0 w'"
    using inv room by (simp_all add: w0_def hddpool_inv_def)
  note run' = run [unfolded hddpool_apply_def Let_def, folded w0_def]
  have "pool_inv (pool w') \<and> score_inv (pool w') \<and> others w0 w'"
  proof (cases a)
    case (Pool_user x)
    then show ?thesis using run' pool_user_apply_inv [OF i(1)] pool_user_apply_frame pool_user_apply_scores same_scores_inv [OF i(2)]
      by (auto simp: frame_def)
  next
    case (Pool_miner x)
    then show ?thesis using run' pool_miner_apply_inv [OF i(1,3) acc0] pool_miner_apply_frame pool_miner_apply_scores
        same_scores_inv [OF i(2)] by (auto simp: frame_def)
  next
    case (Pool_change x)
    then show ?thesis using run' pool_change_apply_inv [OF i(1) acc0] pool_change_apply_frame pool_change_apply_scores
        same_scores_inv [OF i(2)] by (auto simp: frame_def)
  next
    case (Pool_param x)
    then have "pool_param_apply c x w0 = Inr w'" using run' by simp
    then show ?thesis using pool_inv_core [OF i(1)] pool_param_apply_frame pool_param_apply_scores same_scores_inv [OF i(2)]
      by (auto simp: others_def)
  next
    case (Pool_reward x)
    then have "pool_reward_apply c x w0 = Inr w'" using run' by simp
    then show ?thesis using pool_inv_core [OF i(1)] pool_reward_apply_effect [OF i(1,2)] by blast
  qed
  then show "hddpool_inv (pool w')" and "others w w'" using pool_ctor_core i(4) by (auto simp: hddpool_inv_def)
qed

end
