(* ===== verification/Contracts.thy ===== *)
theory Contracts
  imports Executor Token Hddlock Hdddeposit Channel Hddpool
begin

text \<open>
  The contracts together: which code runs for which receiver, and the invariant of
  all their tables over every run of the chain.

  A contract runs the actions that are addressed to it; only the channel also looks at
  notifications, those of token transfers.  Accounts other than the five contracts may
  have code of their own, which is an argument: it can write no table of the five.
\<close>

subsection \<open>Dispatch\<close>

definition token_code :: "ctx \<Rightarrow> act \<Rightarrow> world \<Rightarrow> world result" where
  "token_code c a w =
     (if act_account a = token_account then case act_data a of Tok x \<Rightarrow> token_apply c x w | _ \<Rightarrow> Inr w else Inr w)"

definition lock_code :: "ctx \<Rightarrow> act \<Rightarrow> world \<Rightarrow> world result" where
  "lock_code c a w =
     (if act_account a = hdd_lock_account then case act_data a of Lck x \<Rightarrow> hddlock_apply c x w | _ \<Rightarrow> Inr w else Inr w)"

definition deposit_code :: "ctx \<Rightarrow> act \<Rightarrow> world \<Rightarrow> world result" where
  "deposit_code c a w =
     (if act_account a = hdd_deposit_account then case act_data a of Dep x \<Rightarrow> hdddeposit_apply c x w | _ \<Rightarrow> Inr w
      else Inr w)"

text \<open>Constructor and destructor run for an unknown action too.\<close>

definition pool_code :: "ctx \<Rightarrow> act \<Rightarrow> world \<Rightarrow> world result" where
  "pool_code c a w =
     (if act_account a = hdd_pool_account
      then case act_data a of Pol x \<Rightarrow> hddpool_apply c x w | _ \<Rightarrow> Inr (w\<lparr>pool := pool_ctor (pool w)\<rparr>)
      else Inr w)"

definition channel_code :: "ctx \<Rightarrow> act \<Rightarrow> world \<Rightarrow> world result" where
  "channel_code c a w =
     (case act_data a of
        Tok (Transfer f t q m) \<Rightarrow> if act_account a = token_account then transfercore c f t q m w else Inr w
      | Chn x \<Rightarrow> if act_account a = channel_sys then channel_apply c x w else Inr w
      | _ \<Rightarrow> Inr w)"

definition contract_code :: "code \<Rightarrow> code" where
  "contract_code foreign c receiver a w =
     (if receiver = token_account then token_code c a w
      else if receiver = hdd_lock_account then lock_code c a w
      else if receiver = hdd_deposit_account then deposit_code c a w
      else if receiver = hdd_pool_account then pool_code c a w
      else if receiver = channel_sys then channel_code c a w
      else foreign c receiver a w)"

text \<open>Code of another account: the chain lets it write the tables of that account only.\<close>

definition same_tables :: "world \<Rightarrow> world \<Rightarrow> bool" where
  "same_tables w w' \<longleftrightarrow> tok w' = tok w \<and> lck w' = lck w \<and> dep w' = dep w \<and> pool w' = pool w \<and> chn w' = chn w"

definition foreign_ok :: "code \<Rightarrow> bool" where
  "foreign_ok f \<longleftrightarrow> (\<forall>c n a w w'. f c n a w = Inr w' \<longrightarrow> same_tables w w')"

definition no_code :: code where
  "no_code c n a w = Inr w"

lemma no_code_ok: "foreign_ok no_code"
  by (simp add: foreign_ok_def no_code_def same_tables_def)

subsection \<open>The invariant of the system\<close>

definition sys_inv :: "world \<Rightarrow> bool" where
  "sys_inv w \<longleftrightarrow> token_inv (tok w) \<and> lock_inv (lck w) \<and> dep_inv (dep w) \<and> hddpool_inv (pool w) \<and> channel_inv (chn w)"

text \<open>
  The range in which the invariant is kept.  The contracts do not check the range of
  some quantities, as \<open>is_valid\<close> would; grants must be exact in floating point, the gas
  fund must not overflow when it is split, and the table of identifiers has 32 bits.
\<close>

definition args_ok :: "payload \<Rightarrow> channel_db \<Rightarrow> bool" where
  "args_ok d db \<longleftrightarrow>
     (case d of
        Lck (Locktransfer k f t q x m) \<Rightarrow> amount q \<le> max_amount
      | Dep x \<Rightarrow> dep_act_ok x
      | Chn x \<Rightarrow> channel_act_ok x db
      | _ \<Rightarrow> True)"

definition grants_small :: "lock_db \<Rightarrow> bool" where
  "grants_small db \<longleftrightarrow> (\<forall>u. list_all (\<lambda>l. amount (al_quantity l) \<le> 2 ^ 51) (locks_of db u) \<and> grants (locks_of db u) \<le> max_amount)"

definition in_range :: "act \<Rightarrow> world \<Rightarrow> bool" where
  "in_range a w \<longleftrightarrow> args_ok (act_data a) (chn w) \<and> ids_room (pool w) \<and> grants_small (lck w)"

text \<open>What the token contract has checked of a transfer before others are notified of it.\<close>

definition checked :: "act \<Rightarrow> bool" where
  "checked a \<longleftrightarrow> (\<forall>f t q m. act_account a = token_account \<longrightarrow> act_data a = Tok (Transfer f t q m) \<longrightarrow>
     0 < amount q \<and> amount q \<le> max_amount)"

text \<open>No account has the empty name.\<close>

definition chain_ctx :: "ctx \<Rightarrow> bool" where
  "chain_ctx c \<longleftrightarrow> \<not> is_account c 0"

lemma sys_inv_balances: "token_inv (tok w) \<Longrightarrow> balances_sane w"
proof -
  assume inv: "token_inv (tok w)"
  have "0 \<le> amount b \<and> amount b \<le> max_amount" if "map_of (accounts (tok w)) (n, sy) = Some b" for n sy b
    using balance_le_total [OF inv [unfolded token_inv_def] that] supply_range(2) [OF inv [unfolded token_inv_def], of sy]
      token_invD(4) [OF inv [unfolded token_inv_def] that] by (auto simp: balance_ok_def)
  then show ?thesis by (force simp: balances_sane_def)
qed

lemma pools_ok_sane: "pools_ok t \<Longrightarrow> pool_sane t u"
  by (fastforce simp: pools_ok_def pool_ok_def pool_sane_def)

lemma sys_inv_holds: "sys_inv w \<Longrightarrow> grants_small (lck w) \<Longrightarrow> holds_sane w u"
  by (simp add: sys_inv_def holds_sane_def grants_small_def dep_inv_def pools_ok_sane)

lemma keeps_balances:
  assumes "\<And>db. P (w\<lparr>tok := db\<rparr>)"
  shows "keeps P (sub_balance n v w)" "keeps P (sub_balance_yta c n v to w)" "keeps P (add_balance n v w)"
  using assms by (auto simp: keeps_def sub_balance_def sub_balance_yta_def add_balance_def Let_def split: option.splits)

lemma token_apply_tables:
  assumes "token_apply c a w = Inr w'"
  shows "lck w' = lck w \<and> dep w' = dep w \<and> pool w' = pool w \<and> chn w' = chn w \<and> syst w' = syst w \<and> deferred w' = deferred w"
proof (rule keepsD [OF _ assms])
  let ?P = "\<lambda>w'. lck w' = lck w \<and> dep w' = dep w \<and> pool w' = pool w \<and> chn w' = chn w \<and> syst w' = syst w \<and> deferred w' = deferred w"
  have t: "?P (w1\<lparr>tok := db\<rparr>)" if "?P w1" for w1 db using that by simp
  have r: "?P (require_recipient n w1)" if "?P w1" for n w1 using that by (simp add: require_recipient_def)
  show "keeps ?P (token_apply c a w)"
    by (cases a; simp only: token_apply.simps create_def issue_def retire_def transfer_def Let_def;
        intro keeps_intros keeps_rbind [where Q = ?P] keeps_balances t r; simp)
qed

text \<open>Each contract keeps the invariant in the range.\<close>

lemma token_code_inv:
  assumes inv: "sys_inv w" and rng: "in_range a w" and run: "token_code c a w = Inr w'"
  shows "sys_inv w' \<and> checked a"
proof (cases "act_account a = token_account \<and> (\<exists>x. act_data a = Tok x)")
  case False
  then have "w' = w" using run by (auto simp: token_code_def split: if_splits payload.splits)
  then show ?thesis using inv False by (auto simp: checked_def)
next
  case True
  then obtain x where x: "act_data a = Tok x" "act_account a = token_account" by blast
  then have ap: "token_apply c x w = Inr w'" using run by (simp add: token_code_def)
  have g: "grants_small (lck w)" using rng by (simp add: in_range_def)
  have "token_inv (tok w')"
    using inv ap holds_sane_nonneg [OF sys_inv_holds [OF inv g]] by (intro token_apply_inv [OF _ ap]) (simp_all add: sys_inv_def)
  moreover have "checked a"
    using ap x transfer_Inr unfolding checked_def by fastforce
  ultimately show ?thesis using inv token_apply_tables [OF ap] by (simp add: sys_inv_def)
qed

lemma lock_code_inv:
  assumes inv: "sys_inv w" and rng: "in_range a w" and run: "lock_code c a w = Inr w'"
  shows "sys_inv w'"
proof (cases "w' = w")
  case False
  then obtain x where x: "act_data a = Lck x" and ap: "hddlock_apply c x w = Inr w'"
    using run by (auto simp: lock_code_def split: if_splits payload.splits)
  have "lock_inv (lck w')"
    by (rule hddlock_apply_inv [OF _ ap]) (use inv rng x in \<open>auto simp: sys_inv_def in_range_def args_ok_def\<close>)
  then show ?thesis using inv hddlock_apply_frame [OF ap] by (simp add: sys_inv_def)
qed (use inv in simp)

lemma deposit_code_inv:
  assumes inv: "sys_inv w" and rng: "in_range a w" and run: "deposit_code c a w = Inr w'"
  shows "sys_inv w'"
proof (cases "w' = w")
  case False
  then obtain x where x: "act_data a = Dep x" and ap: "hdddeposit_apply c x w = Inr w'"
    using run by (auto simp: deposit_code_def split: if_splits payload.splits)
  have "dep_inv (dep w')"
    by (rule hdddeposit_apply_inv [OF _ _ _ ap]) (use inv rng x sys_inv_balances in \<open>auto simp: sys_inv_def in_range_def args_ok_def\<close>)
  then show ?thesis using inv hdddeposit_apply_frame [OF ap] by (simp add: sys_inv_def)
qed (use inv in simp)

lemma hddpool_inv_ctor: "hddpool_inv db \<Longrightarrow> hddpool_inv (pool_ctor db)"
  by (simp add: hddpool_inv_def pool_ctor_core)

lemma pool_code_inv:
  assumes good: "chain_ctx c" and inv: "sys_inv w" and rng: "in_range a w" and run: "pool_code c a w = Inr w'"
  shows "sys_inv w'"
proof (cases "w' = w \<or> w' = w\<lparr>pool := pool_ctor (pool w)\<rparr>")
  case False
  then obtain x where ap: "hddpool_apply c x w = Inr w'"
    using run by (auto simp: pool_code_def split: if_splits payload.splits)
  have "hddpool_inv (pool w') \<and> others w w'"
    using hddpool_apply_effect [OF _ _ _ ap] inv rng good by (auto simp: sys_inv_def in_range_def chain_ctx_def)
  then show ?thesis using inv by (simp add: sys_inv_def others_def)
qed (use inv hddpool_inv_ctor in \<open>auto simp: sys_inv_def\<close>)

lemma transfercore_effect:
  assumes inv: "channel_inv (chn w)" and q: "0 < amount q" "amount q \<le> max_amount" and run: "transfercore c f t q m w = Inr w'"
  shows "channel_inv (chn w')"
    and "t \<noteq> channel_sys \<Longrightarrow> w' = w"
    and "t = channel_sys \<Longrightarrow> symbol q = CORE_SYMBOL \<and> (\<exists>ty u. book_transfer c f q ty u w = Inr w'
      \<and> channel_total (chn w') = channel_total (chn w) + booked ty q)"
proof -
  have b: "symbol q = CORE_SYMBOL \<and> (\<exists>ty u. book_transfer c f q ty u w = Inr w')" if "t = channel_sys"
    using run that by (auto simp: transfercore_def Let_def split: option.splits)
  have e: "cbalance_ok q" if "t = channel_sys" using b [OF that] q by (simp add: cbalance_ok_def)
  show "t \<noteq> channel_sys \<Longrightarrow> w' = w" using run by (simp add: transfercore_def)
  then show "channel_inv (chn w')"
    using inv b e book_transfer_effect(1) [OF inv] by (cases "t = channel_sys") auto
  show "t = channel_sys \<Longrightarrow> symbol q = CORE_SYMBOL \<and> (\<exists>ty u. book_transfer c f q ty u w = Inr w'
      \<and> channel_total (chn w') = channel_total (chn w) + booked ty q)"
    using b e book_transfer_effect(2) [OF inv] by blast
qed

lemma channel_code_inv:
  assumes inv: "sys_inv w" and rng: "in_range a w" and run: "channel_code c a w = Inr w'" and ok: "checked a"
  shows "sys_inv w'"
proof (cases "act_data a")
  case (Chn x)
  then have ap: "w' = w \<or> channel_apply c x w = Inr w'" using run by (auto simp: channel_code_def split: if_splits)
  have "channel_act_ok x (chn w)" using rng Chn by (simp add: in_range_def args_ok_def)
  then show ?thesis using ap inv channel_apply_effect(1) [of w c x w'] channel_apply_frame [of c x w w'] by (auto simp: sys_inv_def)
next
  case (Tok x)
  show ?thesis
  proof (cases "w' = w")
    case False
    then obtain f t q m where x: "x = Transfer f t q m" "act_account a = token_account" and ap: "transfercore c f t q m w = Inr w'"
      using run Tok by (auto simp: channel_code_def split: if_splits token_act.splits)
    have q: "0 < amount q" "amount q \<le> max_amount" using ok x Tok by (auto simp: checked_def)
    show ?thesis using inv transfercore_effect(1) [OF _ q ap] transfercore_frame [OF ap] by (simp add: sys_inv_def)
  qed (use inv in simp)
qed (use run inv in \<open>auto simp: channel_code_def\<close>)

lemma checked_other: "act_account a \<noteq> token_account \<Longrightarrow> checked a"
  by (simp add: checked_def)

lemma foreign_inv: "foreign_ok f \<Longrightarrow> sys_inv w \<Longrightarrow> f c n a w = Inr w' \<Longrightarrow> sys_inv w'"
  unfolding foreign_ok_def same_tables_def sys_inv_def by metis

lemma contract_code_inv:
  assumes f: "foreign_ok f" and good: "chain_ctx c" and inv: "sys_inv w"
    and run: "guarded in_range (contract_code f) c n a w = Inr w'" and ok: "n = act_account a \<or> checked a"
  shows "sys_inv w' \<and> checked a"
proof -
  have rng: "in_range a w" and r: "contract_code f c n a w = Inr w'" using run by (auto simp: guarded_def split: if_splits)
  have chk: "n \<noteq> token_account \<Longrightarrow> checked a" using ok checked_other [of a] by auto
  show ?thesis
    using r chk token_code_inv [OF inv rng] lock_code_inv [OF inv rng] deposit_code_inv [OF inv rng] pool_code_inv [OF good inv rng]
      channel_code_inv [OF inv rng] foreign_inv [OF f inv]
    by (auto simp: contract_code_def split: if_splits)
qed

lemma contracts_keep:
  assumes "foreign_ok f"
  shows "keeping_chain (guarded in_range (contract_code f)) chain_ctx sys_inv checked"
proof
  fix c w a n w' i ns d as
  show "chain_ctx (c\<lparr>auths := as\<rparr>) = chain_ctx c" by (simp add: chain_ctx_def)
  show "sys_inv (w\<lparr>inlines := i, notified := ns\<rparr>) = sys_inv w" "sys_inv (w\<lparr>deferred := d\<rparr>) = sys_inv w"
    by (simp_all add: sys_inv_def)
  assume "chain_ctx c" "sys_inv w"
  note k = contract_code_inv [OF assms this]
  show "sys_inv w' \<and> checked a" if "guarded in_range (contract_code f) c (act_account a) a w = Inr w'" using k [OF that] by blast
  show "sys_inv w'" if "checked a" "guarded in_range (contract_code f) c n a w = Inr w'" using k [OF that(2)] that(1) by blast
qed

interpretation plain: keeping_chain "guarded in_range (contract_code no_code)" chain_ctx sys_inv checked
  by (rule contracts_keep [OF no_code_ok])

end
