(* ===== verification/System_Contract.thy ===== *)
theory System_Contract
  imports System_Pay Contracts
begin

text \<open>
  \<open>eosio.system\<close> as a whole: its dispatch table (\<open>EOSIO_ABI\<close> in \<open>eosio.system.cpp\<close>) and what its
  actions leave alone.  Among the accounts other than the five storage contracts it is the one
  whose code is known: it writes no table of theirs.
\<close>

subsection \<open>Dispatch\<close>

primrec system_action :: "ctx \<Rightarrow> system_act \<Rightarrow> world \<Rightarrow> world result" where
  "system_action c (Changevotes n) = changevotes c n"
| "system_action c (Voteproducer n p ps) = voteproducer c n p ps"
| "system_action c (Regproducer n k u l) = regproducer c n k u l"
| "system_action c (Unregprod n) = unregprod n"
| "system_action c (Seqproducer n s sq l) = seqproducer c n s sq l"
| "system_action c Reprodlevel = reprodlevel c"
| "system_action c (Setautosche a l1 l2) = setautosche c a l1 l2"
| "system_action c (Regproxy n b) = regproxy n b"
| "system_action c (Rmvproducer n) = rmvproducer c n"
| "system_action c (Buyrambytes p r b) = buyrambytes c p r b"
| "system_action c (Buyram p r q) = buyram c p r q"
| "system_action c (Sellram n b) = sellram c n b"
| "system_action c (Delegatebw f r n u t) = delegatebw c f r n u t"
| "system_action c (Undelegatebw f r n u) = undelegatebw c f r n u"
| "system_action c (Refund n) = refund c n"
| "system_action c (Onblock s p) = onblock c s p"
| "system_action c (Claimrewards n) = claimrewards n"
| "system_action c Rewardprods = rewardprods c"
| "system_action c Startreward = startreward c"
| "system_action c (Setram s) = setram c s"
| "system_action c (Setparams p) = setparams c p"
| "system_action c (Setpriv n p) = setpriv c n p"
| "system_action c (Bidname b n q) = bidname c b n q"
| "system_action c (Newaccount cr n) = newaccount cr n"
| "system_action c Native_other = Inr"

definition system_apply :: "ctx \<Rightarrow> system_act \<Rightarrow> world \<Rightarrow> world result" where
  "system_apply c a w = rbind (system_ctor w) (system_action c a)"

definition system_code :: "ctx \<Rightarrow> act \<Rightarrow> world \<Rightarrow> world result" where
  "system_code c a w =
     (if act_account a = system_account
      then case act_data a of Sys x \<Rightarrow> system_apply c x w | _ \<Rightarrow> system_ctor w
      else Inr w)"

definition with_system :: "code \<Rightarrow> code" where
  "with_system f c receiver a w = (if receiver = system_account then system_code c a w else f c receiver a w)"

subsection \<open>What it leaves alone\<close>

lemma keeps_on_sys:
  "(\<And>db. f (syst w) = Inr db \<Longrightarrow> P (w\<lparr>syst := db\<rparr>)) \<Longrightarrow> keeps P (on_sys f w)"
  "(\<And>db. f (syst w) = Inr db \<Longrightarrow> keeps P (g (w\<lparr>syst := db\<rparr>))) \<Longrightarrow> keeps P (rbind (on_sys f w) g)"
  by (auto simp: keeps_def on_sys_def)

lemma keeps_yta_account: "keeps P r \<Longrightarrow> keeps P (check_yta_account n r)"
  by (simp add: check_yta_account_def keeps_def)

lemma keeps_both_nonneg: "keeps P r \<Longrightarrow> keeps P (both_nonneg m1 m2 a b r)"
  by (auto simp: both_nonneg_def keeps_def)

lemma keeps_transfer:
  "P (w\<lparr>inlines := inlines w @ [mk_act f token_account (Tok (Transfer f t q m))]\<rparr>) \<Longrightarrow> keeps P (send_transfer c f t q m w)"
  "keeps P (g (w\<lparr>inlines := inlines w @ [mk_act f token_account (Tok (Transfer f t q m))]\<rparr>)) \<Longrightarrow>
     keeps P (rbind (send_transfer c f t q m w) g)"
  by (auto simp: keeps_def send_transfer_def send_def split: if_splits)

lemmas sys_intros = keeps_base keeps_world keeps_rbind_world keeps_on_sys keeps_yta_account keeps_both_nonneg keeps_transfer
  keeps_rbind_if keeps_case

lemmas system_defs = changevotes_def voteproducer_def regproducer_def unregprod_def seqproducer_def reprodlevel_def setautosche_def
  regproxy_def rmvproducer_def buyram_def sellram_def delegatebw_def undelegatebw_def refund_def
  onblock_def claimrewards_def startreward_def setram_def setparams_def setpriv_def bidname_def newaccount_def

text \<open>
  A predicate on worlds that does not look at the tables of the system nor at scheduled
  transactions, and under which the actions of a certain kind may be sent; and what holds
  after at most one further account has been notified.
\<close>

definition sys_free :: "(act \<Rightarrow> bool) \<Rightarrow> (world \<Rightarrow> bool) \<Rightarrow> (world \<Rightarrow> bool) \<Rightarrow> bool" where
  "sys_free A P Q \<longleftrightarrow> (\<forall>w. P w \<longrightarrow> (\<forall>db. P (w\<lparr>syst := db\<rparr>)) \<and> (\<forall>d. P (w\<lparr>deferred := d\<rparr>))
     \<and> (\<forall>a. A a \<longrightarrow> P (w\<lparr>inlines := inlines w @ [a]\<rparr>)) \<and> Q w \<and> (\<forall>n. Q (require_recipient n w)))
     \<and> (\<forall>w db. Q w \<longrightarrow> Q (w\<lparr>syst := db\<rparr>))"

lemma sys_freeD:
  "sys_free A P Q \<Longrightarrow> P w \<Longrightarrow> P (w\<lparr>syst := db\<rparr>)" "sys_free A P Q \<Longrightarrow> P w \<Longrightarrow> P (w\<lparr>deferred := d\<rparr>)"
  "sys_free A P Q \<Longrightarrow> P w \<Longrightarrow> A a \<Longrightarrow> P (w\<lparr>inlines := inlines w @ [a]\<rparr>)" "sys_free A P Q \<Longrightarrow> P w \<Longrightarrow> Q w"
  by (simp_all add: sys_free_def)

lemma sys_free_told: "sys_free A P Q \<Longrightarrow> P w \<Longrightarrow> Q (require_recipient n w)" "sys_free A P Q \<Longrightarrow> Q w \<Longrightarrow> Q (w\<lparr>syst := db\<rparr>)"
  by (simp_all add: sys_free_def)

text \<open>The accounts of the system, for which it acts without asking.\<close>

definition own_accounts :: "name set" where
  "own_accounts = {system_account, eosio_ram, eosio_stake, eosio_names, hddbasefound, hdd_pool_account}"

definition may_send :: "ctx \<Rightarrow> (act \<Rightarrow> bool) \<Rightarrow> bool" where
  "may_send c A \<longleftrightarrow> (\<forall>n acc d. n \<in> set (auths c) \<or> n \<in> own_accounts \<longrightarrow> A (mk_act n acc d))"

lemma may_sendD:
  "may_send c A \<Longrightarrow> n \<in> set (auths c) \<Longrightarrow> A (mk_act n acc d)"
  "may_send c A \<Longrightarrow> A (mk_act system_account acc d)" "may_send c A \<Longrightarrow> A (mk_act eosio_ram acc d)"
  "may_send c A \<Longrightarrow> A (mk_act eosio_stake acc d)" "may_send c A \<Longrightarrow> A (mk_act eosio_names acc d)"
  "may_send c A \<Longrightarrow> A (mk_act hddbasefound acc d)" "may_send c A \<Longrightarrow> A (mk_act hdd_pool_account acc d)"
  by (simp_all add: may_send_def own_accounts_def)

lemma update_votes_keeps:
  assumes f: "sys_free A P Q" and w: "P w"
  shows "keeps Q (update_votes c n p ps v w)"
proof -
  have "keeps Q (if p \<noteq> 0 then ensure b m (ensure b' m' (Inr (require_recipient p w))) else ensure b2 m2 (ensure b2' m2' (Inr w)))"
    for b m b' m' b2 m2 b2' m2' by (intro keeps_base keeps_case sys_freeD(4) [OF f] sys_free_told(1) [OF f] w)
  then show ?thesis unfolding update_votes_def Let_def
    by (rule keeps_rbind) (intro keeps_base keeps_any keeps_case sys_free_told(2) [OF f]; assumption)
qed

lemma revote_keeps:
  assumes f: "sys_free A P Q" and w: "P w"
  shows "keeps Q (revote c n v w)"
  unfolding revote_def by (intro keeps_base keeps_case update_votes_keeps [OF f w] sys_freeD(4) [OF f w])

lemma changebw_keeps:
  assumes f: "sys_free A P Q" and s: "may_send c A" and w: "P w"
  shows "keeps Q (changebw c s r n u t w)"
proof -
  have p: "keeps P (change_refund_and_pay c s f' r n u t w)" if "P w" "s \<in> set (auths c)" for f' w
  proof -
    have "P (if b then defer_refund m (cancel_deferred m (w\<lparr>syst := db\<rparr>)) else cancel_deferred m (w\<lparr>syst := db\<rparr>))" for b db m
      using sys_freeD(1,2) [OF f] that(1) by (cases b) (simp_all add: cancel_deferred_def defer_refund_def)
    then show ?thesis unfolding change_refund_and_pay_def Let_def
      by (intro keeps_any keeps_case keeps_transfer keeps_base sys_freeD(3) [OF f] may_sendD [OF s] that(2))
  qed
  have "keeps Q (rbind (change_staked m x (syst w)) (\<lambda>(db, voter). revote c m voter (w\<lparr>syst := db\<rparr>)))" if "P w" for m x w
    using revote_keeps [OF f sys_freeD(1) [OF f that]] by (intro keeps_any) (auto split: prod.splits)
  then have q: "keeps Q (rbind (if b then change_refund_and_pay c s f' r n u t w else Inr w) (\<lambda>w.
      rbind (change_staked m x (syst w)) (\<lambda>(db, voter). revote c m voter (w\<lparr>syst := db\<rparr>))))" if "P w" "s \<in> set (auths c)" for b f' m x w
    using that p by (intro keeps_rbind [where Q = P]) (auto simp: keeps_base)
  show ?thesis unfolding changebw_def Let_def
    by (intro keeps_base keeps_on_sys keeps_yta_account q keeps_any sys_freeD(1-3) [OF f] w)
qed

lemma pay_all_keeps:
  assumes "\<And>p s. R s \<Longrightarrow> keeps R (f p s)" and "R s"
  shows "keeps R (pay_all f ps s)"
  using assms(2)
proof (induction ps arbitrary: s)
  case (Cons p ps)
  then show ?case using keeps_rbind [OF assms(1) Cons.IH] by simp
qed (simp add: keeps_def)

lemma pay_one_keeps:
  assumes f: "sys_free A P Q" and s: "may_send c A" and w: "P (snd s)"
  shows "keeps (\<lambda>s. P (snd s)) (pay_one c m tp b k tw v p s)"
  using w sys_freeD(3) [OF f _ may_sendD(6) [OF s]] unfolding pay_one_def Let_def
  by (cases s) (auto simp: keeps_def send_transfer_def)

lemma rewardprods_keeps:
  assumes f: "sys_free A P Q" and s: "may_send c A" and w: "P w"
  shows "keeps P (rewardprods c w)"
proof -
  have b: "keeps P (fill_buckets c t w)" if "P w" for t w
    unfolding fill_buckets_def Let_def
    by (intro keeps_base keeps_rbind_world keeps_transfer keeps_any sys_freeD(1-3) [OF f] may_sendD [OF s] that)
  have a: "keeps (\<lambda>s. P (snd s)) (pay_all (pay_one c m tp b k tw v) ps s)" if "P (snd s)" for m tp b k tw v ps s
    by (rule pay_all_keeps [where R = "\<lambda>s. P (snd s)", OF pay_one_keeps [OF f \<open>may_send c A\<close>] that])
  have p: "keeps P (pay_producers c x w)" if "P w" for x w
    unfolding pay_producers_def Let_def
    by (rule keeps_rbind [OF a keeps_rbind [OF a]]) (use that in \<open>auto simp: keeps_def intro!: sys_freeD(1) [OF f]\<close>)
  have q: "keeps P (rbind (if u then rbind (new_tokens s t) (\<lambda>n. fill_buckets c n w) else Inr w) (pay_producers c x))" if "P w" for u s t x w
    by (rule keeps_rbind [where Q = P, OF _ p]) (use that in \<open>auto intro!: keeps_any b keeps_base\<close>)
  show ?thesis unfolding rewardprods_def Let_def
    by (intro keeps_base keeps_case keeps_any q w sys_freeD(1-3) [OF f])
qed

lemma system_ctor_keeps:
  assumes f: "sys_free A P Q" and w: "P w"
  shows "keeps P (system_ctor w)"
  unfolding system_ctor_def Let_def by (intro keeps_base keeps_case keeps_any sys_freeD(1-3) [OF f] w)

lemma keeps_weaken: "keeps P r \<Longrightarrow> (\<And>x. P x \<Longrightarrow> Q x) \<Longrightarrow> keeps Q r"
  by (simp add: keeps_def)

lemma system_action_keeps:
  assumes f: "sys_free A P Q" and s: "may_send c A" and w: "P w"
  shows "keeps Q (system_action c a w)"
proof -
  note k = keeps_base keeps_on_sys keeps_yta_account keeps_transfer keeps_world keeps_rbind_world keeps_rbind_if keeps_case
    keeps_any sys_freeD [OF f] w
  have b: "keeps Q (buyram c p r q w)" for p r q
    unfolding buyram_def Let_def by (intro k may_sendD(2-7) [OF s]; rule may_sendD(1) [OF s]; assumption)
  note k' = b changebw_keeps [OF f s w] revote_keeps [OF f w] update_votes_keeps [OF f w]
  have "keeps Q (rewardprods c w)" by (rule keeps_weaken [OF rewardprods_keeps [OF f s w] sys_freeD(4) [OF f]])
  then show ?thesis
    by (cases a; simp only: system_action.simps buyrambytes_def system_defs Let_def)
       (assumption | (intro k' k may_sendD(2-7) [OF s]; rule may_sendD(1) [OF s]; assumption))+
qed

lemma system_code_keeps:
  assumes f: "sys_free A P Q" and w: "P w" and s: "(\<exists>n. act_data a = Sys (Changevotes n)) \<or> may_send c A"
  shows "keeps Q (system_code c a w)"
proof -
  have t: "keeps Q (system_apply c x w)" if d: "act_data a = Sys x" for x
    unfolding system_apply_def using system_ctor_keeps [OF f w]
  proof (rule keeps_rbind)
    fix w
    assume w: "P w"
    show "keeps Q (system_action c x w)"
    proof (cases "may_send c A")
      case False
      then obtain n where "x = Changevotes n" using s d by auto
      then show ?thesis using revote_keeps [OF f w] sys_freeD(4) [OF f w] by (auto simp: changevotes_def intro!: keeps_base keeps_case)
    qed (rule system_action_keeps [OF f _ w])
  qed
  then show ?thesis
    using keeps_weaken [OF system_ctor_keeps [OF f w] sys_freeD(4) [OF f]] sys_freeD(4) [OF f w]
    by (cases "act_data a") (simp_all add: system_code_def keeps_base)
qed

lemma with_system_ok:
  assumes "foreign_ok f"
  shows "foreign_ok (with_system f)"
proof -
  have "same_tables w w'" if "system_code c a w = Inr w'" for c a w w'
  proof (rule keepsD [OF system_code_keeps that])
    show "sys_free (\<lambda>_. True) (same_tables w) (same_tables w)" by (simp add: sys_free_def same_tables_def)
  qed (simp_all add: same_tables_def may_send_def)
  then show ?thesis using assms unfolding foreign_ok_def with_system_def by presburger
qed

interpretation full: keeping_chain "guarded in_range (contract_code (with_system no_code))" chain_ctx sys_inv checked
  by (rule contracts_keep [OF with_system_ok [OF no_code_ok]])

end
