(* ===== verification/Solvency.thy ===== *)
theory Solvency
  imports Contracts
begin

text \<open>
  The channel is solvent: what it owes to its users never grows beyond the tokens it
  holds.  The amounts are booked by one contract and the tokens by another, and the
  payments of the channel are inline actions that run after the booking, so the
  argument is about whole transactions.
\<close>

subsection \<open>Tokens against bookings\<close>

definition core :: u64 where
  "core = sym_name CORE_SYMBOL"

definition slack :: "world \<Rightarrow> int" where
  "slack w = bal (tok w) channel_sys core - channel_total (chn w)"

definition core_of :: "asset \<Rightarrow> int" where
  "core_of q = (if sym_name (symbol q) = core then max 0 (amount q) else 0)"

text \<open>What an action with the authority of the channel takes from its tokens.\<close>

definition pay :: "act \<Rightarrow> int" where
  "pay a = (if channel_sys \<in> set (act_auth a) then
     (case act_data a of
        Tok (Transfer f t q m) \<Rightarrow> if f = channel_sys then core_of q else 0
      | Dep (Paydeppool2 u q) \<Rightarrow> core_of q
      | _ \<Rightarrow> 0) else 0)"

text \<open>What a transfer brings, before the channel is notified of it.\<close>

definition inflow :: "act \<Rightarrow> int" where
  "inflow a = (case act_data a of
     Tok (Transfer f t q m) \<Rightarrow> if act_account a = token_account \<and> t = channel_sys then core_of q else 0
   | _ \<Rightarrow> 0)"

definition held :: "world \<Rightarrow> int" where
  "held w = slack w - sum_list (map pay (inlines w))"

text \<open>The actions for which the channel gives its authority.\<close>

definition proper :: "act \<Rightarrow> bool" where
  "proper a \<longleftrightarrow> channel_sys \<in> set (act_auth a) \<longrightarrow>
     (case act_data a of
        Tok (Transfer f t q m) \<Rightarrow> True
      | Dep (Paydeppool2 u q) \<Rightarrow> True
      | Chn x \<Rightarrow> True
      | Sys (Changevotes u) \<Rightarrow> True
      | _ \<Rightarrow> False)"

definition quiet :: "act \<Rightarrow> bool" where
  "quiet a \<longleftrightarrow> channel_sys \<in> set (act_auth a) \<longrightarrow> (\<exists>x. act_data a = Chn x) \<or> (\<exists>u. act_data a = Sys (Changevotes u))"

lemma quiet_proper: "quiet a \<Longrightarrow> proper a"
  by (auto simp: quiet_def proper_def)

lemma quiet_pay: "quiet a \<Longrightarrow> pay a = 0"
  by (auto simp: quiet_def pay_def)

lemma quiet_mk_act [simp]:
  "quiet (mk_act n acc d) \<longleftrightarrow> n \<noteq> channel_sys \<or> (\<exists>x. d = Chn x) \<or> (\<exists>u. d = Sys (Changevotes u))"
  by (auto simp: quiet_def mk_act_def)

lemma core_of_nonneg [simp]: "0 \<le> core_of q"
  by (simp add: core_of_def)

lemma pay_nonneg [simp]: "0 \<le> pay a"
  by (auto simp: pay_def split: payload.splits token_act.splits deposit_act.splits)

lemma inflow_nonneg [simp]: "0 \<le> inflow a"
  by (auto simp: inflow_def split: payload.splits token_act.splits)

text \<open>Sending quiet actions and notifying accounts, each at most once.\<close>

definition calls :: "world \<Rightarrow> world \<Rightarrow> bool" where
  "calls w w' \<longleftrightarrow> (\<exists>l. inlines w' = inlines w @ l \<and> list_all quiet l)
     \<and> (\<exists>m. notified w' = notified w @ m) \<and> (distinct (notified w) \<longrightarrow> distinct (notified w'))"

lemma calls_refl [simp]: "calls w w"
  by (simp add: calls_def)

lemma calls_upd [simp]:
  "calls w (w'\<lparr>tok := x1\<rparr>) = calls w w'" "calls w (w'\<lparr>lck := x2\<rparr>) = calls w w'" "calls w (w'\<lparr>dep := x3\<rparr>) = calls w w'"
  "calls w (w'\<lparr>pool := x4\<rparr>) = calls w w'" "calls w (w'\<lparr>chn := x5\<rparr>) = calls w w'" "calls w (w'\<lparr>deferred := x6\<rparr>) = calls w w'"
  "calls (w\<lparr>pool := x4\<rparr>) w' = calls w w'"
  by (simp_all add: calls_def)

lemma calls_send: "calls w w' \<Longrightarrow> i = inlines w' @ l \<Longrightarrow> list_all quiet l \<Longrightarrow> calls w (w'\<lparr>inlines := i\<rparr>)"
  by (auto simp: calls_def)

lemma calls_recipient [simp]: "calls w w' \<Longrightarrow> calls w (require_recipient n w')"
  by (auto simp: calls_def require_recipient_def)

lemma calls_trans: "calls a b \<Longrightarrow> calls b d \<Longrightarrow> calls a d"
  by (auto simp: calls_def)

lemma calls_held:
  assumes "calls w w'" and "slack w' = slack w"
  shows "held w' = held w"
proof -
  obtain l where l: "inlines w' = inlines w @ l" "list_all quiet l" using assms(1) by (auto simp: calls_def)
  have "sum_list (map pay l) = 0" using l(2) by (induction l) (auto simp: quiet_pay)
  then show ?thesis using l assms(2) by (simp add: held_def)
qed

lemma calls_proper: "calls w w' \<Longrightarrow> list_all proper (inlines w) \<Longrightarrow> list_all proper (inlines w')"
  by (auto simp: calls_def list_all_iff quiet_proper)

subsection \<open>Contracts that do not touch the channel\<close>

lemma keeps_percentages: "keeps P r \<Longrightarrow> keeps P (check_percentages ps r)"
  by (induction ps) (auto simp: keeps_def)

lemma lock_calls:
  assumes ch: "channel_sys \<notin> set (auths c)" and run: "hddlock_apply c a w = Inr w'"
  shows "calls w w'"
proof (rule keepsD [OF _ run])
  show "keeps (calls w) (hddlock_apply c a w)"
    by (cases a; simp only: hddlock_apply.simps init_def addrule_def locktransfer_def addaccbig_def rmvaccbig_def frozenuser_def Let_def;
        intro keeps_intros keeps_percentages; use ch in \<open>auto intro!: calls_send\<close>)
qed

lemma user_calls:
  assumes ch: "channel_sys \<notin> set (auths c)" and run: "pool_user_apply c a w = Inr w'"
  shows "calls w w'"
proof (rule keepsD [OF _ run])
  show "keeps (calls w) (pool_user_apply c a w)"
    by (cases a; simp only: pool_user_apply.simps user_defs Let_def; intro pool_intros; use ch in \<open>auto simp: acct_simps intro!: calls_send\<close>)
qed

lemma miner_calls:
  assumes ch: "channel_sys \<notin> set (auths c)" and run: "pool_miner_apply c a w = Inr w'"
  shows "calls w w'"
proof (rule keepsD [OF _ run])
  show "keeps (calls w) (pool_miner_apply c a w)"
    by (cases a; simp only: pool_miner_apply.simps miner_defs Let_def; intro pool_intros; use ch in \<open>auto simp: acct_simps intro!: calls_send\<close>)
qed

lemma change_calls:
  assumes ch: "channel_sys \<notin> set (auths c)" and run: "pool_change_apply c a w = Inr w'"
  shows "calls w w'"
proof (rule keepsD [OF _ run])
  show "keeps (calls w) (pool_change_apply c a w)"
    by (cases a; simp only: pool_change_apply.simps change_defs Let_def; intro pool_intros;
        use ch in \<open>auto simp: acct_simps split: option.splits intro!: calls_send\<close>)
qed


lemma rate_calls: "calls w w1 \<Longrightarrow> calc_deposit_rate c w1 = Inr w' \<Longrightarrow> calls w w'"
proof (rule keepsD [of "calls w"])
  show "calls w w1 \<Longrightarrow> keeps (calls w) (calc_deposit_rate c w1)"
    by (simp only: calc_deposit_rate_def Let_def; intro keeps_intros; auto simp: acct_simps intro!: calls_send)
qed

lemma param_calls:
  assumes run: "pool_param_apply c a w = Inr w'"
  shows "calls w w'"
  using run by (cases a) (auto simp: param_defs Let_def elim!: rate_calls [rotated])

lemma issue_calls: "send_issue c x w = Inr w' \<Longrightarrow> calls w w'"
proof (rule keepsD [of "calls w"])
  show "keeps (calls w) (send_issue c x w)"
    by (simp only: send_issue_def; intro keeps_intros; auto simp: acct_simps intro!: calls_send)
qed

lemma destroy_calls: "destroy_fund c g w = Inr (g', w') \<Longrightarrow> calls w w'"
proof -
  have "keeps (\<lambda>(_, w'). calls w w') (destroy_fund c g w)"
    by (simp only: destroy_fund_def Let_def; intro keeps_intros; auto simp: acct_simps intro!: calls_send)
  then show "destroy_fund c g w = Inr (g', w') \<Longrightarrow> calls w w'" by (auto dest: keepsD)
qed

lemma day_calls: "day_issue c b x g w = Inr (g', w') \<Longrightarrow> calls w w'"
proof -
  have "keeps (\<lambda>(_, w'). calls w w') (day_issue c b x g w)"
    by (simp only: day_issue_def Let_def; intro keeps_intros; simp)
       (auto dest!: issue_calls destroy_calls intro: calls_trans)
  then show "day_issue c b x g w = Inr (g', w') \<Longrightarrow> calls w w'" by (auto dest: keepsD)
qed

lemma update_calls: "update_newmodel_params c slot w = Inr (w', r) \<Longrightarrow> calls w w'"
proof -
  have d: "calls w w2" if "new_day c t g w = Inr (g', w2, b)" for t g g' w2 b
  proof -
    have "keeps (\<lambda>(_, w', _). calls w w') (new_day c t g w)"
      by (simp only: new_day_def Let_def; intro keeps_intros; simp) (auto dest!: day_calls)
    then show ?thesis using that by (auto dest: keepsD)
  qed
  have "keeps (\<lambda>(w', _). calls w w') (update_newmodel_params c slot w)"
    by (simp only: update_newmodel_params_def Let_def; intro keeps_intros; simp) (auto dest!: d)
  then show "update_newmodel_params c slot w = Inr (w', r) \<Longrightarrow> calls w w'" by (auto dest: keepsD)
qed

lemma draw_calls: "calls w w1 \<Longrightarrow> draw c look n k rn slot x b w1 = Inr w' \<Longrightarrow> calls w w'"
proof (rule keepsD [of "calls w"])
  show "calls w w1 \<Longrightarrow> keeps (calls w) (draw c look n k rn slot x b w1)"
    by (simp only: draw_def rewardlog_def Let_def; intro keeps_intros; simp)
qed

lemma reward_calls:
  assumes run: "pool_reward_apply c a w = Inr w'"
  shows "calls w w'"
proof (rule keepsD [OF _ run])
  have d: "keeps (calls w) (rewardproc1 c rn slot x b w1)" "keeps (calls w) (rewardproc2 c rn slot x b w1)" if "calls w w1"
    for rn slot x b w1
    using that draw_calls [OF that] by (auto simp: rewardproc1_def rewardproc2_def keeps_def Let_def split: option.splits if_splits)
  show "keeps (calls w) (pool_reward_apply c a w)"
  proof (cases a)
    case (Onreward s)
    show ?thesis unfolding Onreward pool_reward_apply.simps onreward_def
      by (intro pool_intros; auto dest!: update_calls intro: d)
  next
    case Startnewm
    show ?thesis unfolding Startnewm pool_reward_apply.simps startnewm_def Let_def
      by (intro pool_intros; auto dest: issue_calls)
  qed (simp only: pool_reward_apply.simps onbuild_def payrewardnew_def channelfail_def pool_channellog_def Let_def; intro pool_intros;
    auto simp: acct_simps intro!: calls_send)+
qed

lemma pool_calls:
  assumes ch: "channel_sys \<notin> set (auths c)" and run: "hddpool_apply c a w = Inr w'"
  shows "calls w w'"
  using run user_calls [OF ch] miner_calls [OF ch] change_calls [OF ch] param_calls reward_calls
  by (cases a) (fastforce simp: hddpool_apply_def Let_def)+


subsection \<open>Deposits\<close>

text \<open>The channel does not back a miner with a deposit of its own.\<close>

definition backs_none :: "deposit_db \<Rightarrow> bool" where
  "backs_none db \<longleftrightarrow> list_all (\<lambda>(k, m). md_account_name m \<noteq> channel_sys) (miner2deps db)"

lemma backs_noneD: "backs_none db \<Longrightarrow> map_of (miner2deps db) k = Some m \<Longrightarrow> md_account_name m \<noteq> channel_sys"
  by (auto simp: backs_none_def list_all_iff dest!: map_of_SomeD)

lemma votes_calls: "calls w w1 \<Longrightarrow> keeps (calls w) (send_changevotes c u w1)"
  by (auto simp: send_changevotes_def keeps_def send_def intro!: calls_send split: if_splits)

lemma deposit_calls:
  assumes ch: "channel_sys \<notin> set (auths c)" and b: "backs_none (dep w)" and run: "hdddeposit_apply c a w = Inr w'"
  shows "calls w w'"
proof (rule keepsD [OF _ run])
  show "keeps (calls w) (hdddeposit_apply c a w)"
    by (cases a; simp only: hdddeposit_apply.simps deposit_defs Let_def;
        intro keeps_intros keeps_rbind [where Q = "calls w"] votes_calls)
       (use ch backs_noneD [OF b] in \<open>auto simp: acct_simps intro!: calls_send elim!: keepsD [OF votes_calls, rotated]\<close>)
qed

lemma paydeppool2_held:
  assumes run: "paydeppool2 c u q w = Inr w'"
  shows "\<exists>w1. w1 = w\<lparr>inlines := inlines w @ [mk_act channel_sys token_account (Tok (Transfer channel_sys u q ''paydeppool2''))]\<rparr>
    \<and> calls w1 w' \<and> channel_sys \<in> set (auths c)"
proof -
  let ?w1 = "w\<lparr>inlines := inlines w @ [mk_act channel_sys token_account (Tok (Transfer channel_sys u q ''paydeppool2''))]\<rparr>"
  have "keeps (\<lambda>w'. calls ?w1 w' \<and> channel_sys \<in> set (auths c)) (paydeppool2 c u q w)"
    unfolding paydeppool2_def
    by (intro keeps_intros; auto simp: keeps_def elim!: keepsD [OF votes_calls, rotated])
  then show ?thesis using keepsD [OF _ run] by simp
qed

subsection \<open>What each contract does to the channel\<close>

lemma held_send: "held (w\<lparr>inlines := inlines w @ [a]\<rparr>) = held w - pay a"
  by (simp add: held_def slack_def)

text \<open>At most an amount is taken from what the channel holds, and the calls are in order.\<close>

definition moved :: "int \<Rightarrow> world \<Rightarrow> world \<Rightarrow> bool" where
  "moved x w w' \<longleftrightarrow> held w - x \<le> held w' \<and> (list_all proper (inlines w) \<longrightarrow> list_all proper (inlines w'))
     \<and> (\<exists>m. notified w' = notified w @ m) \<and> (distinct (notified w) \<longrightarrow> distinct (notified w'))"

lemma moved_refl: "0 \<le> x \<Longrightarrow> moved x w w"
  by (simp add: moved_def)

lemma calls_moved:
  assumes "calls w w'" and "slack w - x \<le> slack w'"
  shows "moved x w w'"
proof -
  obtain l where l: "inlines w' = inlines w @ l" "list_all quiet l" using assms(1) by (auto simp: calls_def)
  have "sum_list (map pay l) = 0" using l(2) by (induction l) (auto simp: quiet_pay)
  then have "held w - x \<le> held w'" using l(1) assms(2) by (simp add: held_def)
  then show ?thesis using assms(1) calls_proper by (auto simp: moved_def calls_def)
qed

lemma deposit_moved:
  assumes ok: "proper a" and x: "act_data a = Dep x" and b: "backs_none (dep w)"
    and run: "hdddeposit_apply c x w = Inr w'" and au: "auths c = act_auth a"
  shows "moved (pay a) w w'"
proof (cases "\<exists>u q. x = Paydeppool2 u q")
  case True
  then obtain u q where uq: "x = Paydeppool2 u q" by blast
  let ?t = "mk_act channel_sys token_account (Tok (Transfer channel_sys u q ''paydeppool2''))"
  obtain w1 where w1: "w1 = w\<lparr>inlines := inlines w @ [?t]\<rparr>" "calls w1 w'" "channel_sys \<in> set (auths c)"
    using paydeppool2_held [of c u q w w'] run uq by auto
  have p: "pay ?t = pay a" "proper ?t" using w1(3) au x uq by (simp_all add: pay_def proper_def mk_act_def)
  have "slack w' = slack w1" using hdddeposit_apply_frame [OF run] w1(1) by (simp add: slack_def)
  then have "moved 0 w1 w'" using calls_moved [OF w1(2), of 0] by simp
  then show ?thesis using held_send [of w ?t] p w1(1) by (auto simp: moved_def)
next
  case False
  then have "channel_sys \<notin> set (auths c)" using ok x au by (auto simp: proper_def split: deposit_act.splits)
  then show ?thesis using calls_moved [OF deposit_calls [OF _ b run]] hdddeposit_apply_frame [OF run] by (simp add: slack_def)
qed

lemma credit_channel: "credit n sy x b channel_sys core = b channel_sys core + (if n = channel_sys \<and> sy = core then x else 0)"
  by (auto simp: credit_def)

lemma add_balance_calls: "add_balance n v w1 = Inr w2 \<Longrightarrow> calls w w1 \<Longrightarrow> calls w w2"
  using keepsD [OF keeps_balances(3) [of "calls w" w1 n v]] by simp

lemma recipients_calls:
  "transfer c f t q m w = Inr w' \<Longrightarrow> calls w w'" "create c i q w = Inr w' \<Longrightarrow> calls w w'" "retire c q m w = Inr w' \<Longrightarrow> calls w w'"
  "channel_sys \<notin> set (auths c) \<Longrightarrow> issue c t q m w = Inr w' \<Longrightarrow> calls w w'"
proof -
  have t: "calls w (w1\<lparr>tok := db\<rparr>)" if "calls w w1" for w1 db using that by simp
  have "keeps (calls w) (transfer c f t q m w)" "keeps (calls w) (create c i q w)" "keeps (calls w) (retire c q m w)"
    by (simp only: transfer_def create_def retire_def Let_def;
        intro keeps_intros keeps_rbind [where Q = "calls w"] keeps_balances t calls_recipient; simp)+
  then show "transfer c f t q m w = Inr w' \<Longrightarrow> calls w w'" "create c i q w = Inr w' \<Longrightarrow> calls w w'" "retire c q m w = Inr w' \<Longrightarrow> calls w w'"
    by (auto dest: keepsD)
  assume ch: "channel_sys \<notin> set (auths c)"
  have "keeps (calls w) (issue c t q m w)"
    by (simp only: issue_def Let_def; intro keeps_intros; use ch in \<open>auto intro!: calls_send elim!: add_balance_calls\<close>)
  then show "issue c t q m w = Inr w' \<Longrightarrow> calls w w'" by (auto dest: keepsD)
qed

lemma token_moved:
  assumes inv: "sys_inv w" "grants_small (lck w)" and ok: "proper a" and x: "act_data a = Tok x" "act_account a = token_account"
    and run: "token_apply c x w = Inr w'" and au: "auths c = act_auth a"
  shows "moved (pay a - inflow a) w w'"
proof -
  have ti: "token_inv (tok w)" using inv by (simp add: sys_inv_def)
  have chn: "chn w' = chn w" using token_apply_tables [OF run] by simp
  have sl: "slack w' - slack w = bal (tok w') channel_sys core - bal (tok w) channel_sys core" by (simp add: slack_def chn)
  show ?thesis
  proof (cases x)
    case (Transfer f t q m)
    then have r: "transfer c f t q m w = Inr w'" using run by simp
    have q: "f \<noteq> t" "f \<in> set (auths c)" "0 < amount q" using transfer_Inr [OF r] by auto
    have "bal (tok w') = credit t (sym_name (symbol q)) (amount q) (credit f (sym_name (symbol q)) (- amount q) (bal (tok w)))"
      using transfer_books(1) [OF ti r] by (simp add: ledger_of_def spec_transfer_def)
    then have "slack w' - slack w = inflow a - pay a"
      using sl q x Transfer au by (auto simp: credit_channel inflow_def pay_def core_of_def)
    then show ?thesis using calls_moved [OF recipients_calls(1) [OF r]] by simp
  next
    case (Create i m)
    then have "bal (tok w') = bal (tok w)" using create_inv(2) [OF ti] run by (auto simp: ledger_of_def)
    then show ?thesis using Create x run sl calls_moved [OF recipients_calls(2)] by (auto simp: pay_def inflow_def)
  next
    case (Issue t q m)
    then have ch: "channel_sys \<notin> set (auths c)" using ok x au by (auto simp: proper_def)
    have r: "issue c t q m w = Inr w'" using Issue run by simp
    have "0 < amount q" using r by (auto simp: issue_def Let_def)
    then have "slack w \<le> slack w'" using issue_effect(2) [OF ti r] sl
      by (auto simp: ledger_of_def spec_mint_def credit_channel split: if_splits)
    then show ?thesis using Issue x calls_moved [OF recipients_calls(4) [OF ch r]] by (auto simp: pay_def inflow_def)
  next
    case (Retire q m)
    then have ch: "channel_sys \<notin> set (auths c)" using ok x au by (auto simp: proper_def)
    have r: "retire c q m w = Inr w'" using Retire run by simp
    have "slack w' = slack w" using retire_effect(2) [OF ti r] ch sl
      by (auto simp: ledger_of_def spec_mint_def credit_channel split: if_splits)
    then show ?thesis using Retire x calls_moved [OF recipients_calls(3) [OF r]] by (auto simp: pay_def inflow_def)
  qed
qed


lemma core_of_core: "symbol q = CORE_SYMBOL \<Longrightarrow> 0 < amount q \<Longrightarrow> core_of q = amount q"
  by (simp add: core_of_def core_def)

lemma log_quiet: "quiet (mk_act channel_sys channel_sys (Chn x))"
  by simp

lemma mapc_moved:
  assumes inv: "channel_inv (chn w)" and run: "mapc c u q g b w = Inr w'" and r: "amount q \<le> max_amount" "amount g \<le> max_amount"
  shows "moved 0 w w'"
proof -
  have s: "symbol q = CORE_SYMBOL" "symbol g = CORE_SYMBOL" "0 < amount q" "0 < amount g" using run by (auto simp: mapc_def)
  obtain lg where l: "inlines w' = inlines w @ mapc_payments q g b @ [lg]" "quiet lg" "notified w' = notified w"
    using run by (auto simp: mapc_def send_channellog_def mapc_payments_def)
  have p: "sum_list (map pay (mapc_payments q g b)) = amount q + amount g" "list_all proper (mapc_payments q g b)"
    using s core_of_core by (simp_all add: mapc_payments_def pay_def proper_def mk_act_def)
  have "tok w' = tok w" using channel_apply_frame(1) [of c "Mapc u q g b"] run by simp
  then have "held w' = held w" using mapc_effect(2) [OF inv run r] l p(1) by (simp add: held_def slack_def quiet_pay)
  then show ?thesis using l p(2) by (auto simp: moved_def quiet_proper)
qed

lemma channel_calls:
  assumes run: "channel_apply c x w = Inr w'" and x: "\<And>u q g b. x \<noteq> Mapc u q g b"
  shows "calls w w'"
proof (rule keepsD [OF _ run])
  show "keeps (calls w) (channel_apply c x w)"
    using x by (cases x; simp only: channel_apply.simps channel_defs Let_def; intro chn_intros) (auto intro!: calls_send)
qed

lemma channel_moved:
  assumes inv: "sys_inv w" and ok: "channel_act_ok x (chn w)" and run: "channel_apply c x w = Inr w'"
  shows "moved 0 w w'"
proof (cases "\<exists>u q g b. x = Mapc u q g b")
  case True
  then show ?thesis using run ok mapc_moved [of w c] inv by (auto simp: sys_inv_def)
next
  case False
  have "paid_out x = 0" using False by (cases x) auto
  then have "slack w' = slack w"
    using channel_apply_effect(2) [OF _ run ok] channel_apply_frame(1) [OF run] inv by (simp add: sys_inv_def slack_def)
  then show ?thesis using calls_moved [OF channel_calls [OF run]] False by (metis diff_zero order_refl)
qed

lemma transfercore_moved:
  assumes inv: "sys_inv w" and q: "0 < amount q" "amount q \<le> max_amount" and run: "transfercore c f t q m w = Inr w'"
  shows "moved (if t = channel_sys then core_of q else 0) w w'"
proof (cases "t = channel_sys")
  case True
  have ci: "channel_inv (chn w)" using inv by (simp add: sys_inv_def)
  obtain ty u where b: "symbol q = CORE_SYMBOL" "book_transfer c f q ty u w = Inr w'"
      "channel_total (chn w') = channel_total (chn w) + booked ty q"
    using transfercore_effect(3) [OF ci q run True] by blast
  have t: "tok w' = tok w" using transfercore_frame(1) [OF run] .
  let ?d = "mk_act channel_sys hdd_deposit_account (Dep (Paydeppool2 u q))"
  show ?thesis
  proof (cases "ty = 4")
    case 4: True
    then have w': "w' = w\<lparr>inlines := inlines w @ [?d]\<rparr>" using b(2) by (simp add: book_transfer_def)
    have "pay ?d = core_of q" "proper ?d" by (simp_all add: pay_def proper_def mk_act_def)
    then show ?thesis using held_send [of w ?d] w' True by (simp add: moved_def)
  next
    case False
    then have "slack w - core_of q = slack w'" using b q t core_of_core by (simp add: slack_def booked_def)
    moreover have "calls w w'"
      using b(2) False by (auto simp: book_transfer_def on_chn_def add_cbalance_def send_channellog_def split: if_splits option.splits
          intro!: calls_send)
    ultimately show ?thesis using calls_moved [of w w' "core_of q"] True by simp
  qed
next
  case False
  then show ?thesis using transfercore_effect(2) [OF _ q run] inv by (simp add: sys_inv_def moved_refl)
qed


subsection \<open>Whole transactions\<close>

definition in_range_backed :: "act \<Rightarrow> world \<Rightarrow> bool" where
  "in_range_backed a w \<longleftrightarrow> in_range a w \<and> backs_none (dep w)"

text \<open>
  Other code sends no payment with the authority of the channel, neither when it is notified
  of an action nor when it runs an action of its own for which the channel has not signed or
  which only counts its votes again; and the chain notifies an account once.
\<close>

definition foreign_quiet :: "code \<Rightarrow> bool" where
  "foreign_quiet f \<longleftrightarrow> (\<forall>c n a w w'. n \<noteq> act_account a \<or> (proper a \<and> auths c = act_auth a) \<longrightarrow>
     f c n a w = Inr w' \<longrightarrow> calls w w')"

lemma foreign_moved:
  assumes "foreign_ok f" "foreign_quiet f" "f c n a w = Inr w'" and "n \<noteq> act_account a \<or> (proper a \<and> auths c = act_auth a)"
  shows "moved 0 w w'"
proof (rule calls_moved)
  show "calls w w'" using assms(2-4) unfolding foreign_quiet_def by blast
  have "same_tables w w'" using assms(1,3) unfolding foreign_ok_def by blast
  then show "slack w - 0 \<le> slack w'" by (simp add: same_tables_def slack_def)
qed

lemma moved_mono: "moved x w w' \<Longrightarrow> x \<le> y \<Longrightarrow> moved y w w'"
  by (auto simp: moved_def)

lemma inflow_other: "act_account a \<noteq> token_account \<Longrightarrow> inflow a = 0"
  by (auto simp: inflow_def split: payload.splits token_act.splits)

lemma apply_moved:
  assumes inv: "sys_inv w" and rng: "in_range_backed a w" and ok: "proper a" and au: "auths c = act_auth a"
  shows "token_code c a w = Inr w' \<Longrightarrow> act_account a = token_account \<Longrightarrow> moved (pay a - inflow a) w w'"
    and "lock_code c a w = Inr w' \<Longrightarrow> moved 0 w w'"
    and "deposit_code c a w = Inr w' \<Longrightarrow> moved (pay a) w w'"
    and "pool_code c a w = Inr w' \<Longrightarrow> hddpool_inv (pool w) \<Longrightarrow> chain_ctx c \<Longrightarrow> moved 0 w w'"
    and "channel_code c a w = Inr w' \<Longrightarrow> act_account a = channel_sys \<Longrightarrow> moved 0 w w'"
proof -
  have r: "in_range a w" "backs_none (dep w)" "grants_small (lck w)" "ids_room (pool w)"
    using rng by (simp_all add: in_range_backed_def in_range_def)
  show "moved (pay a - inflow a) w w'" if t: "token_code c a w = Inr w'" "act_account a = token_account"
  proof (cases "act_data a")
    case (Tok x)
    then show ?thesis using t token_moved [OF inv r(3) ok Tok t(2) _ au] by (simp add: token_code_def)
  qed (use t in \<open>auto simp: token_code_def inflow_def intro!: moved_refl\<close>)
  show "moved 0 w w'" if t: "lock_code c a w = Inr w'"
  proof (cases "w' = w")
    case False
    then obtain x where x: "act_data a = Lck x" and ap: "hddlock_apply c x w = Inr w'"
      using t by (auto simp: lock_code_def split: if_splits payload.splits)
    have "channel_sys \<notin> set (auths c)" using ok x au by (auto simp: proper_def)
    then show ?thesis using calls_moved [OF lock_calls [OF _ ap]] hddlock_apply_frame [OF ap] by (simp add: slack_def)
  qed (simp add: moved_refl)
  show "moved (pay a) w w'" if t: "deposit_code c a w = Inr w'"
  proof (cases "w' = w")
    case False
    then obtain x where x: "act_data a = Dep x" and ap: "hdddeposit_apply c x w = Inr w'"
      using t by (auto simp: deposit_code_def split: if_splits payload.splits)
    then show ?thesis using deposit_moved [OF ok x r(2) ap au] by simp
  qed (simp add: moved_refl)
  show "moved 0 w w'" if t: "pool_code c a w = Inr w'" "hddpool_inv (pool w)" "chain_ctx c"
  proof (cases "w' = w \<or> w' = w\<lparr>pool := pool_ctor (pool w)\<rparr>")
    case False
    then obtain x where x: "act_data a = Pol x" and ap: "hddpool_apply c x w = Inr w'"
      using t by (auto simp: pool_code_def split: if_splits payload.splits)
    have "channel_sys \<notin> set (auths c)" using ok x au by (auto simp: proper_def)
    moreover have "others w w'" using hddpool_apply_effect(2) [OF t(2) r(4) _ ap] t(3) by (simp add: chain_ctx_def)
    ultimately show ?thesis using calls_moved [OF pool_calls [OF _ ap]] by (simp add: others_def slack_def)
  qed (auto simp: moved_def held_def slack_def)
  show "moved 0 w w'" if t: "channel_code c a w = Inr w'" "act_account a = channel_sys"
  proof (cases "w' = w")
    case False
    then obtain x where x: "act_data a = Chn x" and ap: "channel_apply c x w = Inr w'"
      using t by (auto simp: channel_code_def acct_simps split: if_splits payload.splits token_act.splits)
    then show ?thesis using channel_moved [OF inv _ ap] r(1) by (simp add: in_range_def args_ok_def)
  qed (simp add: moved_refl)
qed

lemma own_moved:
  assumes f: "foreign_ok f" "foreign_quiet f" and good: "chain_ctx c" and inv: "sys_inv w" and ok: "proper a" and au: "auths c = act_auth a"
    and run: "guarded in_range_backed (contract_code f) c (act_account a) a w = Inr w'"
  shows "moved (pay a - inflow a) w w'"
proof -
  have rng: "in_range_backed a w" and r: "contract_code f c (act_account a) a w = Inr w'"
    using run by (auto simp: guarded_def split: if_splits)
  note m = apply_moved [OF inv rng ok au]
  have h: "hddpool_inv (pool w)" using inv by (simp add: sys_inv_def)
  have o: "inflow a = 0" if "act_account a \<noteq> token_account" using inflow_other [OF that] .
  have z: "moved (pay a - inflow a) w w'" if "moved 0 w w'" "act_account a \<noteq> token_account"
    using moved_mono [OF that(1)] o [OF that(2)] by simp
  consider "act_account a = token_account" | "act_account a = hdd_deposit_account" "act_account a \<noteq> token_account"
    | "act_account a \<noteq> token_account" "act_account a \<noteq> hdd_deposit_account" by blast
  then show ?thesis
  proof cases
    case 1
    then show ?thesis using r m(1) by (simp add: contract_code_def)
  next
    case 2
    then have "deposit_code c a w = Inr w'" using r by (simp add: contract_code_def acct_simps)
    then show ?thesis using m(3) o [OF 2(2)] by simp
  next
    case 3
    then have "moved 0 w w'" using r m(2) m(4) [OF _ h good] m(5) foreign_moved [OF f, where a = a and c = c and n = "act_account a"] ok au
      by (auto simp: contract_code_def split: if_splits)
    then show ?thesis using z 3 by blast
  qed
qed

lemma noted_moved:
  assumes f: "foreign_ok f" "foreign_quiet f" and inv: "sys_inv w" and ok: "checked a" and n: "n \<noteq> act_account a"
    and run: "guarded in_range_backed (contract_code f) c n a w = Inr w'"
  shows "moved (if n = channel_sys then inflow a else 0) w w'"
proof -
  have r: "contract_code f c n a w = Inr w'" using run by (auto simp: guarded_def split: if_splits)
  show ?thesis
  proof (cases "w' = w")
    case False
    show ?thesis
    proof (cases "n = channel_sys")
      case True
      then have "channel_code c a w = Inr w'" using r by (simp add: contract_code_def acct_simps)
      then obtain fr t q m where x: "act_data a = Tok (Transfer fr t q m)" "act_account a = token_account"
          and ap: "transfercore c fr t q m w = Inr w'"
        using False n True by (auto simp: channel_code_def split: if_splits payload.splits token_act.splits)
      have q: "0 < amount q" "amount q \<le> max_amount" using ok x by (auto simp: checked_def)
      show ?thesis using transfercore_moved [OF inv q ap] x True by (simp add: inflow_def)
    next
      case other: False
      then have "f c n a w = Inr w'"
        using r False n by (auto simp: contract_code_def token_code_def lock_code_def deposit_code_def pool_code_def split: if_splits)
      then show ?thesis using foreign_moved [OF f] other n by simp
    qed
  qed (simp add: moved_refl)
qed


abbreviation backed_code :: "code \<Rightarrow> code" where
  "backed_code f \<equiv> guarded in_range_backed (contract_code f)"

lemma backed_inv:
  assumes "foreign_ok f" "chain_ctx c" "sys_inv w" "backed_code f c n a w = Inr w'" "n = act_account a \<or> checked a"
  shows "sys_inv w' \<and> checked a"
  by (rule contract_code_inv [OF assms(1-3) _ assms(5)])
     (use assms(4) in \<open>auto simp: guarded_def in_range_backed_def split: if_splits\<close>)

text \<open>The state of the loop over the notified accounts after \<open>i\<close> of them.\<close>

definition loop_inv :: "int \<Rightarrow> act \<Rightarrow> nat \<Rightarrow> world \<Rightarrow> bool" where
  "loop_inv base a i w \<longleftrightarrow> sys_inv w \<and> list_all proper (inlines w) \<and> distinct (notified w)
     \<and> 1 \<le> i \<and> i \<le> length (notified w) \<and> notified w ! 0 = act_account a
     \<and> base \<le> held w - (if channel_sys \<in> set (take i (notified w)) then 0 else inflow a)"

lemma loop_step:
  assumes f: "foreign_ok f" "foreign_quiet f" and good: "chain_ctx c" and l: "loop_inv base a i w" and ok: "checked a"
    and i: "i < length (notified w)" and run: "backed_code f c (notified w ! i) a w = Inr w'"
  shows "loop_inv base a (i + 1) w'"
proof -
  let ?n = "notified w ! i"
  have p: "sys_inv w" "list_all proper (inlines w)" "distinct (notified w)" "1 \<le> i" "notified w ! 0 = act_account a"
      "base \<le> held w - (if channel_sys \<in> set (take i (notified w)) then 0 else inflow a)"
    using l by (auto simp: loop_inv_def)
  have "notified w \<noteq> []" using i by auto
  then have n: "?n \<noteq> act_account a" using p(3-5) i nth_eq_iff_index_eq [OF p(3) i, of 0] by auto
  have m: "moved (if ?n = channel_sys then inflow a else 0) w w'" by (rule noted_moved [OF f p(1) ok n run])
  obtain ms where ms: "notified w' = notified w @ ms" using m by (auto simp: moved_def)
  have t: "take (i + 1) (notified w') = take i (notified w) @ [?n]" using ms i by (simp add: take_Suc_conv_app_nth)
  have "distinct (take i (notified w) @ ?n # drop (Suc i) (notified w))"
    by (subst id_take_nth_drop [OF i, symmetric]) (rule p(3))
  then have "channel_sys \<notin> set (take i (notified w))" if "?n = channel_sys" using that by auto
  then have "base \<le> held w' - (if channel_sys \<in> set (take (i + 1) (notified w')) then 0 else inflow a)"
    using m p(6) unfolding t moved_def by (auto split: if_splits)
  moreover have "sys_inv w'" using backed_inv [OF f(1) good p(1) run] ok by blast
  moreover have "notified w' ! 0 = act_account a" "i + 1 \<le> length (notified w')" using ms p(4,5) i by (auto simp: nth_append)
  ultimately show ?thesis using m p(2,3) by (simp add: loop_inv_def moved_def)
qed

lemma loop_moved:
  assumes f: "foreign_ok f" "foreign_quiet f" and good: "chain_ctx c" and ok: "checked a"
  shows "loop_inv base a i w \<Longrightarrow> run_notified (backed_code f) n i c a w = Inr w' \<Longrightarrow>
    sys_inv w' \<and> list_all proper (inlines w') \<and> base \<le> held w'"
proof (induction n arbitrary: i w)
  case (Suc n)
  show ?case
  proof (cases "i < length (notified w)")
    case True
    then obtain w1 where "backed_code f c (notified w ! i) a w = Inr w1" and r: "run_notified (backed_code f) n (i + 1) c a w1 = Inr w'"
      using Suc.prems(2) by (auto simp: exec_one_def split: if_splits)
    then show ?thesis using Suc.IH [OF loop_step [OF f good Suc.prems(1) ok True] r] by blast
  next
    case False
    then have w': "w' = w" using Suc.prems(2) by simp
    have "base \<le> held w - (if channel_sys \<in> set (take i (notified w)) then 0 else inflow a)"
      using Suc.prems(1) by (simp add: loop_inv_def)
    then have "base \<le> held w" by (rule order_trans) simp
    then show ?thesis using Suc.prems(1) w' by (simp add: loop_inv_def)
  qed
qed simp

definition exec_ok :: "(act \<Rightarrow> world \<Rightarrow> world result) \<Rightarrow> bool" where
  "exec_ok e \<longleftrightarrow> (\<forall>a w w'. sys_inv w \<longrightarrow> proper a \<longrightarrow> e a w = Inr w' \<longrightarrow> sys_inv w' \<and> slack w - pay a \<le> slack w')"

lemma each_moved:
  "exec_ok e \<Longrightarrow> sys_inv w \<Longrightarrow> list_all proper l \<Longrightarrow> each e l w = Inr w' \<Longrightarrow>
     sys_inv w' \<and> slack w - sum_list (map pay l) \<le> slack w'"
proof (induction l arbitrary: w)
  case (Cons a l)
  obtain w1 where "e a w = Inr w1" and r: "each e l w1 = Inr w'" using Cons.prems(4) by auto
  then have s: "sys_inv w1" "slack w - pay a \<le> slack w1" using Cons.prems(1-3) by (auto simp: exec_ok_def)
  then show ?case using Cons.IH [OF Cons.prems(1) s(1) _ r] Cons.prems(3) by simp
qed simp

lemma exec_with_moved:
  assumes f: "foreign_ok f" "foreign_quiet f" and good: "chain_ctx c" and inl: "exec_ok inl"
  shows "exec_ok (exec_with inl (backed_code f) fuel c)"
  unfolding exec_ok_def
proof (intro allI impI)
  fix a w w'
  assume inv: "sys_inv w" and ok: "proper a" and run: "exec_with inl (backed_code f) fuel c a w = Inr w'"
  let ?c = "c\<lparr>auths := act_auth a\<rparr>" and ?w = "w\<lparr>inlines := [], notified := [act_account a]\<rparr>"
  have g: "chain_ctx ?c" using good by (simp add: chain_ctx_def)
  have i: "sys_inv ?w" using inv by (simp add: sys_inv_def)
  obtain w1 where r: "run_notified (backed_code f) fuel 0 ?c a ?w = Inr w1" and e: "each inl (inlines w1) w1 = Inr w'"
    using run by (auto simp: exec_with_def)
  obtain n w2 where o: "backed_code f ?c (act_account a) a ?w = Inr w2" and l: "run_notified (backed_code f) n 1 ?c a w2 = Inr w1"
    using r by (cases fuel) (auto simp: exec_one_def split: if_splits)
  have m: "moved (pay a - inflow a) ?w w2" by (rule own_moved [OF f g i ok _ o]) simp
  have c: "sys_inv w2" "checked a" using backed_inv [OF f(1) g i o] by blast+
  have h: "held ?w = slack w" by (simp add: held_def slack_def)
  have "loop_inv (slack w - pay a) a 1 w2"
    using m c(1) h inflow_nonneg [of a] inflow_other [of a] unfolding loop_inv_def moved_def
    by (auto simp: acct_simps take_Suc)
  then have "sys_inv w1 \<and> list_all proper (inlines w1) \<and> slack w - pay a \<le> held w1"
    using loop_moved [OF f g c(2) _ l] by blast
  then show "sys_inv w' \<and> slack w - pay a \<le> slack w'"
    using each_moved [OF inl _ _ e] by (auto simp: held_def)
qed

lemma exec_moved:
  assumes f: "foreign_ok f" "foreign_quiet f" and good: "chain_ctx c"
  shows "exec_ok (exec d (backed_code f) fuel c)"
proof (induction d)
  case 0
  show ?case unfolding exec.simps by (rule exec_with_moved [OF f good]) (simp add: exec_ok_def)
next
  case (Suc d)
  show ?case unfolding exec.simps by (rule exec_with_moved [OF f good Suc])
qed

lemma unauthorised_proper: "channel_sys \<notin> set (act_auth a) \<Longrightarrow> proper a \<and> pay a = 0"
  by (simp add: proper_def pay_def)

theorem transaction_solvent:
  assumes f: "foreign_ok f" "foreign_quiet f" and good: "chain_ctx c" and inv: "sys_inv w"
    and au: "\<forall>a\<in>set as. channel_sys \<notin> set (act_auth a)" and run: "run_transaction (backed_code f) fuel c as w = Inr w'"
  shows "slack w \<le> slack w'"
proof -
  have "list_all proper as" "sum_list (map pay as) = 0" using au unauthorised_proper
    by (auto simp: list_all_iff intro!: sum_list_nonneg_eq_0_iff [THEN iffD2])
  then show ?thesis using each_moved [OF exec_moved [OF f good] inv] run unfolding run_transaction_def by fastforce
qed

end
