(* ===== verification/System_Calls.thy ===== *)
theory System_Calls
  imports System_Contract Solvency
begin

text \<open>
  What \<open>eosio.system\<close> sends is sent with the authority of the account that signed the action
  or of its own accounts, never with that of the channel.
\<close>

lemma calls_free: "sys_free quiet (calls w) (calls w)"
proof -
  have "calls w (w'\<lparr>syst := db\<rparr>) \<and> calls w (w'\<lparr>deferred := d\<rparr>) \<and> calls w (require_recipient n w')
      \<and> (quiet a \<longrightarrow> calls w (w'\<lparr>inlines := inlines w' @ [a]\<rparr>))" if "calls w w'" for w' db d n a
    using that by (auto simp: calls_def require_recipient_def)
  then show ?thesis unfolding sys_free_def by blast
qed

lemma own_accounts_channel: "channel_sys \<notin> own_accounts"
  by (simp add: own_accounts_def acct_simps eosio_ram_def eosio_names_def name_eval)

lemma with_system_quiet:
  assumes "foreign_quiet f"
  shows "foreign_quiet (with_system f)"
proof -
  have "calls w w'" if r: "system_code c a w = Inr w'" and p: "proper a" "auths c = act_auth a" "act_account a = system_account" for c a w w'
  proof (cases "\<exists>x. act_data a = Sys x")
    case True
    have "(\<exists>n. act_data a = Sys (Changevotes n)) \<or> may_send c quiet"
    proof (cases "channel_sys \<in> set (auths c)")
      case False
      then show ?thesis using own_accounts_channel by (auto simp: may_send_def)
    next
      case sys: True
      obtain x where x: "act_data a = Sys x" using True by blast
      show ?thesis using p(1,2) sys by (cases x) (simp_all add: proper_def x)
    qed
    then show ?thesis using keepsD [OF system_code_keeps [OF calls_free calls_refl] r] by blast
  next
    case False
    then have "system_ctor w = Inr w'" using r p(3) by (auto simp: system_code_def split: payload.splits)
    then show ?thesis using keepsD [OF system_ctor_keeps [OF calls_free calls_refl]] by blast
  qed
  moreover have "w' = w" if "system_code c a w = Inr w'" "system_account \<noteq> act_account a" for c a w w'
    using that by (simp add: system_code_def)
  ultimately show ?thesis
    using assms unfolding foreign_quiet_def with_system_def by (metis calls_refl)
qed

end
