(* ===== verification/Fuel.thy ===== *)
theory Fuel
  imports System_Calls
begin

text \<open>
  The fuel of the executor: if only the six contracts have code, an action notifies at
  most two accounts besides its own and a notification notifies nobody, so a small
  amount of fuel is enough for every action.
\<close>

definition tells :: "nat \<Rightarrow> world \<Rightarrow> world \<Rightarrow> bool" where
  "tells k w w' \<longleftrightarrow> (\<exists>m. notified w' = notified w @ m \<and> length m \<le> k) \<and> (distinct (notified w) \<longrightarrow> distinct (notified w'))"

lemma tells_refl [simp]: "tells k w w"
  by (simp add: tells_def)

lemma tells_upd [simp]:
  "tells k w (w'\<lparr>tok := x1\<rparr>) = tells k w w'" "tells k w (w'\<lparr>lck := x2\<rparr>) = tells k w w'" "tells k w (w'\<lparr>dep := x3\<rparr>) = tells k w w'"
  "tells k w (w'\<lparr>pool := x4\<rparr>) = tells k w w'" "tells k w (w'\<lparr>chn := x5\<rparr>) = tells k w w'" "tells k w (w'\<lparr>deferred := x6\<rparr>) = tells k w w'"
  "tells k w (w'\<lparr>inlines := x7\<rparr>) = tells k w w'" "tells k (w\<lparr>pool := x4\<rparr>) w' = tells k w w'"
  by (simp_all add: tells_def)

lemma tells_recipient: "tells k w w' \<Longrightarrow> tells (Suc k) w (require_recipient n w')"
  by (auto simp: tells_def require_recipient_def)

lemma tells_two [simp]:
  "tells 2 w (require_recipient n w)" "tells 2 w (require_recipient m (require_recipient n w))"
  using tells_recipient [of 0 w w n] tells_recipient [of 1 w "require_recipient n w" m]
  by (auto simp: tells_def numeral_2_eq_2 intro: le_SucI)

lemma tells_mono: "tells k w w' \<Longrightarrow> k \<le> l \<Longrightarrow> tells l w w'"
  by (auto simp: tells_def intro: le_trans)

lemma votes_tells: "tells k w w1 \<Longrightarrow> keeps (tells k w) (send_changevotes c u w1)"
  by (auto simp: send_changevotes_def keeps_def send_def split: if_splits)

lemma deposit_tells: "hdddeposit_apply c a w = Inr w' \<Longrightarrow> tells 2 w w'"
proof (rule keepsD [of "tells 2 w"])
  show "keeps (tells 2 w) (hdddeposit_apply c a w)"
    by (cases a; simp only: hdddeposit_apply.simps deposit_defs Let_def;
        intro keeps_intros keeps_rbind [where Q = "tells 2 w"] votes_tells)
       (auto elim!: keepsD [OF votes_tells, rotated])
qed

lemma lock_tells: "hddlock_apply c a w = Inr w' \<Longrightarrow> tells 2 w w'"
proof (rule keepsD [of "tells 2 w"])
  show "keeps (tells 2 w) (hddlock_apply c a w)"
    by (cases a; simp only: hddlock_apply.simps init_def addrule_def locktransfer_def addaccbig_def rmvaccbig_def frozenuser_def Let_def;
        intro keeps_intros keeps_percentages; auto)
qed

lemma pool_group_tells:
  "pool_user_apply c a1 w = Inr w' \<Longrightarrow> tells 2 w w'" "pool_miner_apply c a2 w = Inr w' \<Longrightarrow> tells 2 w w'"
  "pool_change_apply c a3 w = Inr w' \<Longrightarrow> tells 2 w w'"
proof -
  have "keeps (tells 2 w) (pool_user_apply c a1 w)"
    by (cases a1; simp only: pool_user_apply.simps user_defs Let_def; intro pool_intros; simp)
  moreover have "keeps (tells 2 w) (pool_miner_apply c a2 w)"
    by (cases a2; simp only: pool_miner_apply.simps miner_defs Let_def; intro pool_intros; simp)
  moreover have "keeps (tells 2 w) (pool_change_apply c a3 w)"
    by (cases a3; simp only: pool_change_apply.simps change_defs Let_def; intro pool_intros; simp split: option.splits)
  ultimately show "pool_user_apply c a1 w = Inr w' \<Longrightarrow> tells 2 w w'" "pool_miner_apply c a2 w = Inr w' \<Longrightarrow> tells 2 w w'"
    "pool_change_apply c a3 w = Inr w' \<Longrightarrow> tells 2 w w'" by (auto dest: keepsD)
qed


lemma param_tells: "pool_param_apply c a w = Inr w' \<Longrightarrow> tells 2 w w'"
proof -
  have r: "keeps (tells 2 w) (calc_deposit_rate c w1)" if "tells 2 w w1" for w1
    using that by (simp only: calc_deposit_rate_def Let_def; intro keeps_intros; simp)
  show "pool_param_apply c a w = Inr w' \<Longrightarrow> tells 2 w w'"
    by (cases a) (auto simp: param_defs Let_def elim!: keepsD [OF r, rotated])
qed

lemma update_tells: "update_newmodel_params c slot w = Inr (w', r) \<Longrightarrow> notified w' = notified w"
proof -
  let ?P = "\<lambda>w'. notified w' = notified w"
  have i: "?P w2" if "send_issue c x w1 = Inr w2" "?P w1" for x w1 w2 using that by (auto simp: send_issue_def)
  have d: "?P w2" if "destroy_fund c g w = Inr (g', w2)" for g g' w2
    using that by (auto simp: destroy_fund_def Let_def split: if_splits)
  have "keeps (\<lambda>(_, w'). ?P w') (day_issue c b x g w)" for b x g
    by (simp only: day_issue_def Let_def; intro keeps_intros; simp) (auto dest: i d)
  then have y: "?P w2" if "day_issue c b x g w = Inr (g', w2)" for b x g g' w2 using that by (fastforce dest: keepsD)
  have "keeps (\<lambda>(_, w', _). ?P w') (new_day c t g w)" for t g
    by (simp only: new_day_def Let_def; intro keeps_intros; simp) (auto dest: y)
  then have n: "?P w2" if "new_day c t g w = Inr (g', w2, b)" for t g g' w2 b using that by (fastforce dest: keepsD)
  have "keeps (\<lambda>(w', _). ?P w') (update_newmodel_params c slot w)"
    by (simp only: update_newmodel_params_def Let_def; intro keeps_intros; simp) (auto dest!: n)
  then show "update_newmodel_params c slot w = Inr (w', r) \<Longrightarrow> ?P w'" by (auto dest: keepsD)
qed

lemma draw_tells: "draw c look n k rn slot x b w = Inr w' \<Longrightarrow> notified w' = notified w"
proof (rule keepsD [of "\<lambda>w'. notified w' = notified w"])
  show "keeps (\<lambda>w'. notified w' = notified w) (draw c look n k rn slot x b w)"
    by (simp only: draw_def rewardlog_def Let_def; intro keeps_intros; simp)
qed

lemma reward_tells: "pool_reward_apply c a w = Inr w' \<Longrightarrow> tells 2 w w'"
proof (rule keepsD [of "tells 2 w"])
  have d: "keeps (tells 2 w) (rewardproc1 c rn slot x b w1)" "keeps (tells 2 w) (rewardproc2 c rn slot x b w1)"
    if "notified w1 = notified w" for rn slot x b w1
    using that draw_tells by (fastforce simp: rewardproc1_def rewardproc2_def keeps_def tells_def Let_def split: option.splits if_splits)+
  show "keeps (tells 2 w) (pool_reward_apply c a w)"
  proof (cases a)
    case (Onreward s)
    show ?thesis unfolding Onreward pool_reward_apply.simps onreward_def
      by (intro pool_intros; auto dest!: update_tells intro: d simp: tells_def)
  next
    case Startnewm
    show ?thesis unfolding Startnewm pool_reward_apply.simps startnewm_def Let_def
      by (intro pool_intros; auto simp: send_issue_def tells_def)
  qed (simp only: pool_reward_apply.simps onbuild_def payrewardnew_def channelfail_def pool_channellog_def Let_def; intro pool_intros; simp)+
qed

lemma pool_tells: "hddpool_apply c a w = Inr w' \<Longrightarrow> tells 2 w w'"
  using pool_group_tells param_tells reward_tells by (cases a) (fastforce simp: hddpool_apply_def Let_def)+

lemma token_tells: "token_apply c a w = Inr w' \<Longrightarrow> tells 2 w w'"
proof (rule keepsD [of "tells 2 w"])
  have t: "tells 2 w (w1\<lparr>tok := db\<rparr>)" if "tells 2 w w1" for w1 db using that by simp
  show "keeps (tells 2 w) (token_apply c a w)"
    by (cases a; simp only: token_apply.simps create_def issue_def retire_def transfer_def Let_def;
        intro keeps_intros keeps_rbind [where Q = "tells 2 w"] keeps_balances t; simp)
qed

lemma channel_tells: "channel_apply c a w = Inr w' \<Longrightarrow> tells 2 w w'"
proof (rule keepsD [of "tells 2 w"])
  show "keeps (tells 2 w) (channel_apply c a w)"
    by (cases a; simp only: channel_apply.simps channel_defs Let_def; intro chn_intros; simp)
qed

lemma code_tells:
  "token_code c a w = Inr w' \<Longrightarrow> tells 2 w w'" "lock_code c a w = Inr w' \<Longrightarrow> tells 2 w w'"
  "deposit_code c a w = Inr w' \<Longrightarrow> tells 2 w w'" "pool_code c a w = Inr w' \<Longrightarrow> tells 2 w w'"
  "channel_code c a w = Inr w' \<Longrightarrow> tells 2 w w'"
proof -
  have c: "tells 2 w w'" if "transfercore c f t q m w = Inr w'" for f t q m
    using transfercore_frame(7) [OF that] by (simp add: tells_def)
  show "token_code c a w = Inr w' \<Longrightarrow> tells 2 w w'" "lock_code c a w = Inr w' \<Longrightarrow> tells 2 w w'"
    "deposit_code c a w = Inr w' \<Longrightarrow> tells 2 w w'" "pool_code c a w = Inr w' \<Longrightarrow> tells 2 w w'"
    "channel_code c a w = Inr w' \<Longrightarrow> tells 2 w w'"
    using c by (auto simp: token_code_def lock_code_def deposit_code_def pool_code_def channel_code_def
        split: if_splits payload.splits token_act.splits
        dest: token_tells lock_tells deposit_tells pool_tells channel_tells)
qed

lemma system_tells: "system_code c a w = Inr w' \<Longrightarrow> tells 2 w w'"
proof (rule keepsD [OF system_code_keeps])
  show "sys_free (\<lambda>_. True) (\<lambda>w'. notified w' = notified w) (tells 2 w)"
    by (auto simp: sys_free_def tells_def require_recipient_def)
qed (simp_all add: may_send_def)

text \<open>
  What the rounds need of the code of the remaining accounts: it notifies at most two
  other accounts, and none while it handles a notification.
\<close>

definition foreign_tells :: "code \<Rightarrow> bool" where
  "foreign_tells f \<longleftrightarrow> (\<forall>c n a w w'. f c n a w = Inr w' \<longrightarrow>
     tells 2 w w' \<and> (n \<noteq> act_account a \<longrightarrow> notified w' = notified w))"

lemma no_code_tells: "foreign_tells no_code"
  by (simp add: foreign_tells_def no_code_def)

lemma with_system_tells: "foreign_tells f \<Longrightarrow> foreign_tells (with_system f)"
  using system_tells by (fastforce simp: foreign_tells_def with_system_def system_code_def split: if_splits)

lemma own_tells: "foreign_tells f \<Longrightarrow> contract_code f c n a w = Inr w' \<Longrightarrow> tells 2 w w'"
  using code_tells [of c a w w'] unfolding foreign_tells_def contract_code_def by (metis (no_types, lifting))

lemma noted_tells:
  assumes "foreign_tells f" and "contract_code f c n a w = Inr w'" and "n \<noteq> act_account a"
  shows "notified w' = notified w"
  using assms
  by (auto simp: foreign_tells_def contract_code_def token_code_def lock_code_def deposit_code_def pool_code_def channel_code_def
      transfercore_frame(7) split: if_splits payload.splits token_act.splits)

lemma run_notified_enough:
  "foreign_tells f \<Longrightarrow> 1 \<le> i \<Longrightarrow> distinct (notified w) \<Longrightarrow> notified w \<noteq> [] \<Longrightarrow> notified w ! 0 = act_account a \<Longrightarrow>
     length (notified w) - i < n \<Longrightarrow> length (notified w) - i < n' \<Longrightarrow>
     run_notified (contract_code f) n i c a w = run_notified (contract_code f) n' i c a w"
proof (induction n arbitrary: n' i w)
  case (Suc n)
  obtain k where k: "n' = Suc k" using Suc.prems(7) by (cases n') auto
  show ?case
  proof (cases "i < length (notified w)")
    case True
    have "notified w ! i \<noteq> notified w ! 0" using Suc.prems(2-4) True by (subst nth_eq_iff_index_eq) auto
    then have "notified w ! i \<noteq> act_account a" using Suc.prems(5) by simp
    then have same: "notified w' = notified w" if "exec_one (contract_code f) c (notified w ! i) a w = Inr w'" for w'
      using that noted_tells [OF Suc.prems(1)] by (auto simp: exec_one_def split: if_splits)
    have "run_notified (contract_code f) n (i + 1) c a w' = run_notified (contract_code f) k (i + 1) c a w'"
      if r: "exec_one (contract_code f) c (notified w ! i) a w = Inr w'" for w'
      by (intro Suc.IH) (use Suc.prems(1,3-7) True k in \<open>simp_all add: same [OF r]\<close>)
    then show ?thesis using True k by (cases "exec_one (contract_code f) c (notified w ! i) a w") simp_all
  qed (simp add: k)
qed simp

text \<open>Four rounds are enough for an action: its own account, two others, and the end of the loop.\<close>

lemma run_own_enough:
  assumes f: "foreign_tells f" and "4 \<le> fuel"
  shows "run_notified (contract_code f) fuel 0 c a (w\<lparr>inlines := [], notified := [act_account a]\<rparr>)
    = run_notified (contract_code f) 4 0 c a (w\<lparr>inlines := [], notified := [act_account a]\<rparr>)"
proof -
  let ?w = "w\<lparr>inlines := [], notified := [act_account a]\<rparr>"
  obtain n where n: "fuel = Suc n" "3 \<le> n" using assms(2) by (cases fuel) auto
  have "run_notified (contract_code f) n 1 c a w' = run_notified (contract_code f) 3 1 c a w'"
    if r: "contract_code f c (act_account a) a ?w = Inr w'" for w'
  proof -
    obtain m where "notified w' = act_account a # m" "length m \<le> 2" "distinct (notified w')"
      using own_tells [OF f r] by (auto simp: tells_def)
    then show ?thesis using n(2) by (intro run_notified_enough [OF f]) auto
  qed
  then show ?thesis
    by (cases "contract_code f c (act_account a) a ?w") (simp_all add: n(1) eval_nat_numeral exec_one_def)
qed

lemma exec_enough: "foreign_tells f \<Longrightarrow> 4 \<le> fuel \<Longrightarrow> exec d (contract_code f) fuel c a w = exec d (contract_code f) 4 c a w"
proof (induction d arbitrary: a w)
  case 0
  show ?case unfolding exec.simps exec_with_def run_own_enough [OF 0] ..
next
  case (Suc d)
  then have "exec d (contract_code f) fuel c = exec d (contract_code f) 4 c" by (intro ext) blast
  then show ?case unfolding exec.simps exec_with_def run_own_enough [OF Suc.prems] by simp
qed

theorem run_transaction_enough:
  assumes "foreign_tells f" and "4 \<le> fuel"
  shows "run_transaction (contract_code f) fuel c as w = run_transaction (contract_code f) 4 c as w"
proof -
  have "exec d (contract_code f) fuel c = exec d (contract_code f) 4 c" for d
    by (intro ext exec_enough assms)
  then show ?thesis by (simp add: run_transaction_def)
qed

end
