(* ===== verification/Pool_Props.thy ===== *)
theory Pool_Props
  imports Examples Fuel
begin

text \<open>
  Properties of \<open>hddpool\<close>: the invariant of its tables, the table of identifiers as a
  partial map, the accuracy of the balances that are settled in floating point, the
  guards of prices and ratios, and the draw and the payment of rewards.
\<close>

subsection \<open>The tables of the contract\<close>

definition demo_store :: world where
  "demo_store = demo_world\<lparr>pool := (pool empty_world)\<lparr>
     storepools := [(5, \<lparr>sp_pool_owner = 1, sp_max_space = max_pool_space, sp_space_left = max_pool_space\<rparr>)]\<rparr>\<rparr>"

definition demo_regminer :: pool_act where
  "demo_regminer = Pool_miner (Regminer 9 1 2 5 2 65536000 (yta 100000000) False)"

lemma demo_space_deposit: "space_deposit 100 65536000 = Inr 10000000"
  by (simp add: space_deposit_def float_runs Let_def)

lemma demo_registers: "\<not> isl (hddpool_apply (demo_ctx [1, 2]) demo_regminer demo_store)"
  by (simp add: run_simps acct_simps demo_regminer_def demo_store_def hddpool_apply_def regminer_def regminer_db_def join_owner_def
      new_user_hdd_def pool_ctor_def get_or_default_def insert_miner2_def is_deposit_enough_def demo_space_deposit put_storepool_def
      put_maccount_def put_minerinfo_def chg_total_space_def max_pool_space_def max_miner_space_def min_miner_space_def
      miner2ex_default_def counterstat_default_def on_pool_def empty_world_def)

lemma slots_Nil [simp]: "slots [] = Map.empty"
  by (simp add: slots_def fun_eq_iff)

lemma empty_ids: "ids_inv db" if "miner2s db = []" "gminer2ex db = None"
  using that by (auto simp: ids_inv_def m2ex_of_def miner2ex_default_def free_ids_def get_or_default_def intro!: exI [of _ "[]"])

lemma demo_store_inv: "hddpool_inv (pool demo_store)"
proof -
  let ?db = "pool_ctor (pool demo_store)"
  have e: "userhdds ?db = []" "minerinfos ?db = []" "miners ?db = []" "maccounts ?db = []" "gcounter ?db = None"
      "gusercount ?db = Some 0" "miner2s ?db = []" "gminer2ex ?db = None"
      "storepools ?db = [(5, \<lparr>sp_pool_owner = 1, sp_max_space = max_pool_space, sp_space_left = max_pool_space\<rparr>)]"
    by (simp_all add: demo_store_def pool_ctor_def empty_world_def get_or_default_def)
  have "users_inv ?db" "miners_inv ?db" "ids_agree ?db" "total_inv ?db" "spaces_inv ?db"
    by (simp_all add: e users_inv_def miners_inv_def ids_agree_def total_inv_def spaces_inv_def slots_def space_of_def registered_gb_def
        get_or_default_def counterstat_default_def)
  moreover have "pools_inv ?db" by (simp add: e pools_inv_def pool_row_ok_def pool_load_def twf_def)
  ultimately have "pool_inv ?db" using empty_ids [OF e(7,8)] by (simp add: pool_inv_def)
  moreover have "score_inv (pool demo_store)" by (simp add: demo_store_def score_inv_def empty_world_def)
  ultimately show ?thesis by (simp add: hddpool_inv_def)
qed

lemma demo_store_room: "ids_room (pool demo_store)"
  by (simp add: ids_room_def m2ex_of_def demo_store_def empty_world_def miner2ex_default_def get_or_default_def)

text \<open>
  C4. Every action of hddpool keeps the invariant of its tables, as long as the table of
  identifiers has room: user balances are in range and their profit rate is that of the
  space under production; the space of an owner is that of the active miners, the space
  taken from a store pool is that of its miners and the space of the network that of all;
  identifiers and miners correspond; the reward tables have strictly growing ranges.
\<close>

theorem pool_action_keeps_invariant:
  assumes "hddpool_inv (pool w)" and "ids_room (pool w)" and "\<not> is_account c 0" and "hddpool_apply c a w = Inr w'"
  shows "hddpool_inv (pool w')"
  by (rule hddpool_apply_effect(1) [OF assms])

theorem pool_action_keeps_invariant_witness:
  "\<exists>w'. hddpool_apply (demo_ctx [1, 2]) demo_regminer demo_store = Inr w' \<and> hddpool_inv (pool w')"
proof -
  obtain w' where w': "hddpool_apply (demo_ctx [1, 2]) demo_regminer demo_store = Inr w'" using not_isl_Inr [OF demo_registers] by blast
  have "hddpool_inv (pool w')" by (rule pool_action_keeps_invariant [OF demo_store_inv demo_store_room _ w']) simp
  then show ?thesis using w' by blast
qed

text \<open>
  C12. Taking an identifier for a miner refines the update of a partial map from identifiers
  to miners: the identifier was free, is not zero, and now belongs to the miner; the table
  grows only when no identifier is free.
\<close>

theorem insert_miner2_gives_free_id:
  assumes "ids_inv db" and "minerid \<noteq> 0"
    and "free_ids (miner2s db) = {} \<longrightarrow> unat (mx_max_table_count (m2ex_of db)) + 1 < 2 ^ 32"
  shows "\<exists>t g i. insert_miner2 minerid db = Inr (db\<lparr>miner2s := t, gminer2ex := Some g\<rparr>, i)
    \<and> ids_inv (db\<lparr>miner2s := t, gminer2ex := Some g\<rparr>) \<and> i \<noteq> 0
    \<and> slots (miner2s db) (ucast i) = None \<and> slots t = (slots (miner2s db))(ucast i \<mapsto> minerid)
    \<and> mx_max_table_count g = mx_max_table_count (m2ex_of db) + (if free_ids (miner2s db) = {} then 1 else 0)"
  by (rule insert_miner2_refines [OF assms])

theorem insert_miner2_gives_free_id_witness:
  "\<exists>t g i. insert_miner2 9 (pool empty_world) = Inr ((pool empty_world)\<lparr>miner2s := t, gminer2ex := Some g\<rparr>, i) \<and> slots t (ucast i) = Some 9"
proof -
  have e: "miner2s (pool empty_world) = []" "gminer2ex (pool empty_world) = None" by (simp_all add: empty_world_def)
  have "unat (mx_max_table_count (m2ex_of (pool empty_world))) + 1 < 2 ^ 32"
    by (simp add: m2ex_of_def e miner2ex_default_def get_or_default_def)
  then show ?thesis using insert_miner2_gives_free_id [OF empty_ids [OF e], of 9] by fastforce
qed

definition demo_ids :: pool_db where
  "demo_ids = (pool empty_world)\<lparr>miner2s := [(1, \<lparr>m2_minerid = 9, m2_next_id = 0\<rparr>)],
     gminer2ex := Some \<lparr>mx_next_id = 2, mx_max_table_count = 1, mx_max_miner_count = 1\<rparr>\<rparr>"

lemma demo_ids_inv: "ids_inv demo_ids"
proof -
  have s: "slots (miner2s demo_ids) = [1 \<mapsto> 9]" by (auto simp: demo_ids_def slots_def fun_eq_iff)
  have "free_ids (miner2s demo_ids) = {}" by (auto simp: demo_ids_def free_ids_def split: if_splits)
  moreover have "map_of (miner2s demo_ids) i \<noteq> None \<longleftrightarrow> 1 \<le> i \<and> i \<le> 1" for i by (auto simp: demo_ids_def)
  ultimately show ?thesis
    unfolding ids_inv_def s by (auto simp: demo_ids_def m2ex_of_def get_or_default_def twf_def intro!: exI [of _ "[]"])
qed

text \<open>
  C15. Giving an identifier back refines the removal from the partial map, and never
  shrinks the table.
\<close>

theorem del_miner2_frees_id:
  assumes "ids_inv db" and "slots (miner2s db) i = Some m"
  shows "\<exists>t g. del_miner2 i db = Inr (db\<lparr>miner2s := t, gminer2ex := Some g\<rparr>)
    \<and> ids_inv (db\<lparr>miner2s := t, gminer2ex := Some g\<rparr>) \<and> slots t = (slots (miner2s db))(i := None)
    \<and> mx_max_table_count g = mx_max_table_count (m2ex_of db)"
  by (rule del_miner2_refines [OF assms])

theorem del_miner2_frees_id_witness:
  "\<exists>t g. del_miner2 1 demo_ids = Inr (demo_ids\<lparr>miner2s := t, gminer2ex := Some g\<rparr>) \<and> slots t 1 = None"
proof -
  have "slots (miner2s demo_ids) 1 = Some 9" by (simp add: demo_ids_def slots_def)
  then show ?thesis using del_miner2_frees_id [OF demo_ids_inv] by fastforce
qed


subsection \<open>Balances over time\<close>

text \<open>
  C9. Settling the storage fee never raises the balance, and what is taken differs from the
  exact fee for the elapsed time by less than one unit and a relative error of \<open>2^-50\<close>,
  although the source computes it in floating point.
\<close>

theorem storage_fee_accurate:
  assumes "user_ok row" and "settle_fee now row = Inr row'"
  shows "hdd_storehhdd row' \<le> hdd_storehhdd row
    \<and> \<bar>of_int (hdd_storehhdd row - hdd_storehhdd row') - accrued (elapsed (last_hddstore_time row) now) (hdd_per_cycle_fee row)\<bar>
      \<le> 1 + accrued (elapsed (last_hddstore_time row) now) (hdd_per_cycle_fee row) / 2 ^ 50"
proof -
  obtain b where b: "calculate_fee_balance (hdd_storehhdd row) (hdd_per_cycle_fee row) (last_hddstore_time row) now = Inr b"
      "is_hdd_amount_within_range b" "row' = row\<lparr>hdd_storehhdd := b, last_hddstore_time := now\<rparr>"
    using assms(2) by (auto simp: settle_fee_def)
  show ?thesis using calculate_fee_balance_effect [OF _ _ _ b(1,2)] assms(1) b(3) by (simp add: user_ok_def)
qed

definition demo_user :: userhdd where
  "demo_user = \<lparr>hdd_storehhdd = 1000, hdd_per_cycle_fee = 50, hdd_space_store = 0, last_hddstore_time = 0, hdd_minerhdd = 500,
     hdd_per_cycle_profit = 0, hdd_space_profit = 0, last_hddprofit_time = 0\<rparr>"

lemma cycle_profit_0: "cycle_profit 0 = Inr 0"
  using cycle_profit_effect [of 0] by (auto simp: max_profit_space_def)

lemma demo_user_ok: "user_ok demo_user"
  by (simp add: demo_user_def user_ok_def is_hdd_amount_within_range_def max_hdd_amount_def cycle_profit_0)

lemma demo_settle_fee: "\<not> isl (settle_fee 172800000000 demo_user)"
  by (simp add: settle_fee_def calculate_fee_balance_def demo_user_def f64_of_u64_def float_runs fee_cycle_def Let_def i64_def is_hdd_amount_within_range_def max_hdd_amount_def)

theorem storage_fee_accurate_witness:
  "\<exists>row'. settle_fee 172800000000 demo_user = Inr row' \<and> hdd_storehhdd row' \<le> 1000"
proof -
  obtain row' where r: "settle_fee 172800000000 demo_user = Inr row'" using not_isl_Inr [OF demo_settle_fee] by blast
  then show ?thesis using storage_fee_accurate [OF demo_user_ok r] by (simp add: demo_user_def)
qed

text \<open>
  C10. Settling the profit of a storage account adds nine tenths of the exact profit for the
  time before the deadline to the account and the rest to the ecology fund: nobody loses,
  and the parts are right up to rounding.
\<close>

theorem profit_split_accurate:
  assumes "user_ok row" and "settle_profit now deadline row = Inr (row', eco)"
  shows "\<exists>gain. hdd_minerhdd row' + eco = hdd_minerhdd row + gain \<and> 0 \<le> eco \<and> hdd_minerhdd row \<le> hdd_minerhdd row'
    \<and> \<bar>of_int (hdd_minerhdd row' - hdd_minerhdd row) - 9 / 10 * of_int gain\<bar> \<le> 1 + of_int gain / (2 ^ 50 :: rat)
    \<and> \<bar>of_int gain - accrued (elapsed (last_hddprofit_time row) (profit_until now deadline)) (hdd_per_cycle_profit row)\<bar>
      \<le> 1 + accrued (elapsed (last_hddprofit_time row) (profit_until now deadline)) (hdd_per_cycle_profit row) / 2 ^ 50"
  by (rule settle_profit_split [OF assms])

lemma demo_settle_profit: "\<not> isl (settle_profit 172800000000 0 demo_user)"
proof -
  have "is_hdd_amount_within_range 500" by (simp add: is_hdd_amount_within_range_def max_hdd_amount_def)
  then obtain b where "miner_share 500 500 = Inr b" using miner_share_effect [of 500 500] by auto
  then show ?thesis
    by (simp add: settle_profit_def calculate_profit_balance_def demo_user_def f64_of_u64_def float_runs fee_cycle_def Let_def i64_def
        is_hdd_amount_within_range_def max_hdd_amount_def get_newmodel_start_time_def hddm_latest_stop_time_def)
qed

theorem profit_split_accurate_witness:
  "\<exists>row' eco. settle_profit 172800000000 0 demo_user = Inr (row', eco) \<and> 500 \<le> hdd_minerhdd row' \<and> 0 \<le> eco"
proof -
  obtain row' eco where r: "settle_profit 172800000000 0 demo_user = Inr (row', eco)"
    using not_isl_Inr [OF demo_settle_profit] by (metis surj_pair)
  show ?thesis using profit_split_accurate [OF demo_user_ok r] r by (auto simp: demo_user_def)
qed

text \<open>
  C28. The profit per cycle of a space is computed without error for every space an account
  can have; it is never negative, it is positive from one gigabyte on, and it is the exact
  rate up to rounding.
\<close>

theorem cycle_profit_defined:
  assumes "space \<le> max_profit_space"
  shows "\<exists>p. cycle_profit space = Inr p \<and> 0 \<le> p \<and> p \<le> max_hdd_amount
    \<and> (space = 0 \<longrightarrow> p = 0) \<and> (one_gb \<le> space \<longrightarrow> 0 < p)
    \<and> \<bar>of_int p - of_int (uint space) / 65536 / 365 * 100000000\<bar>
      \<le> 1 + of_int (uint space) / 65536 / 365 * 100000000 / (2 ^ 50 :: rat)"
  by (rule cycle_profit_effect [OF assms])

theorem cycle_profit_defined_witness: "\<exists>p. cycle_profit 65536000 = Inr p \<and> 0 < p"
  using cycle_profit_defined [of 65536000] by (auto simp: max_profit_space_def one_gb_def)


subsection \<open>Storage balances\<close>

definition demo_users :: world where
  "demo_users = demo_world\<lparr>pool := (pool empty_world)\<lparr>userhdds := [(1, demo_user)], gusercount := Some 1,
     gparams := Some \<lparr>hdd_price = 8000, yta_price = 8000, dup_remove_ratio = 10000, dup_remove_dist_ratio = 10000,
       hdd_counter = 900000000\<rparr>\<rparr>\<rparr>"

lemma demo_users_inv: "users_inv (pool demo_users)"
  using demo_user_ok by (simp add: demo_users_def users_inv_def twf_def)

lemmas user_runs = demo_users_def demo_user_def on_pool_def debit_store_def credit_store_def new_user_hdd_def put_user_def
  is_hdd_amount_within_range_def max_hdd_amount_def gparams_get_def get_or_default_def empty_world_def




text \<open>
  C17. Buying storage balance adds the amount to the balances, takes it from the amount that
  is for sale, never more than that, and sends a transfer of the price from the buyer to the
  exchange account.
\<close>

theorem buyhdd_books_and_charges:
  assumes "users_inv (pool w)" and "buyhdd c f r x m w = Inr w'" and "in_i64 (hdd_counter (gparams_get (pool w)))"
  shows "store_total (pool w') = store_total (pool w) + x
    \<and> hdd_counter (gparams_get (pool w')) = hdd_counter (gparams_get (pool w)) - x \<and> 0 \<le> hdd_counter (gparams_get (pool w'))
    \<and> (\<exists>y. buy_price (gparams_get (pool w)) x = Inr y
       \<and> inlines w' = inlines w @ [mk_act f token_account (Tok (Transfer f hddpoolexchg (core_asset y) m))])"
proof -
  note e = buyhdd_effect [OF assms(1,2)]
  have "0 \<le> x" using e(4) by (simp add: min_buy_hdd_amount_def)
  then have "i64 (hdd_counter (gparams_get (pool w)) - x) = hdd_counter (gparams_get (pool w)) - x"
    using e(6) assms(3) by (intro i64_id) (simp add: in_i64_def)
  then show ?thesis using e by (auto simp: gparams_get_def get_or_default_def core_asset_def)
qed

lemma demo_buyhdd: "\<not> isl (buyhdd (demo_ctx [1]) 1 1 200000000 ''x'' demo_users)"
  by (simp add: buyhdd_def buy_price_def user_runs float_runs f64_of_u64_def min_buy_hdd_amount_def max_buy_sell_hdd_amount_def
      run_simps acct_simps)

theorem buyhdd_books_and_charges_witness:
  "\<exists>w'. buyhdd (demo_ctx [1]) 1 1 200000000 ''x'' demo_users = Inr w' \<and> store_total (pool w') = 200001000
     \<and> hdd_counter (gparams_get (pool w')) = 700000000"
proof -
  obtain w' where w': "buyhdd (demo_ctx [1]) 1 1 200000000 ''x'' demo_users = Inr w'" using not_isl_Inr [OF demo_buyhdd] by blast
  have "store_total (pool demo_users) = 1000" "hdd_counter (gparams_get (pool demo_users)) = 900000000"
    by (simp_all add: demo_users_def demo_user_def store_total_def gparams_get_def get_or_default_def)
  then show ?thesis using buyhdd_books_and_charges [OF demo_users_inv w'] w' by (simp add: in_i64_def)
qed

subsection \<open>Actions that always fail\<close>

subsection \<open>Prices and ratios\<close>

text \<open>
  C29. The deposit rate is defined for every price of the token and lies between 0 and 100
  percent, in hundredths of a percent.
\<close>

theorem deposit_rate_bounded: "\<exists>r. rate_of_price p = Inr r \<and> 0 \<le> r \<and> r \<le> 10000"
  by (rule rate_of_price_bounds)


text \<open>
  C21. The account \<open>hddpooladml1\<close> can move the deduplication ratio only within the
  guard: within each of the two time spans the new ratio differs from the guarded one by less
  than one percent more than the permitted percentage.
\<close>

theorem ratio_guard_limits_change:
  assumes "setdrratio c ratio 1 w = Inr w'"
    and "dup_remove_ratio (gparams_get (pool w')) \<noteq> dup_remove_ratio (gparams_get (pool w))"
    and "g = get_or_default (paramguard (pool w)) (guard_default (current_time c))"
    and "uint (last_dup_remove_guard_ratio1 g) \<le> 2 ^ 56" and "uint (last_dup_remove_guard_ratio2 g) \<le> 2 ^ 56"
  shows "(duprmv_ratio_timespan_1 g \<le> (current_time c - last_duprmv_ratio_guard_time1 g) div 1000000
      \<or> \<bar>uint ratio - uint (last_dup_remove_guard_ratio1 g)\<bar> * 100
         < (uint (duprmv_ratio_delta_1 g) + 1) * uint (last_dup_remove_guard_ratio1 g))
    \<and> (duprmv_ratio_timespan_2 g \<le> (current_time c - last_duprmv_ratio_guard_time2 g) div 1000000
      \<or> \<bar>uint ratio - uint (last_dup_remove_guard_ratio2 g)\<bar> * 100
         < (uint (duprmv_ratio_delta_2 g) + 1) * uint (last_dup_remove_guard_ratio2 g))"
proof -
  obtain p' g' where r: "guarded_ratio (current_time c) ratio (gparams_get (pool w)) g = Inr (p', g')"
      and w': "w' = put_params (p', g') w" and q: "ratio \<le> 10000"
    using assms(1,3) by (auto simp: setdrratio_def Let_def)
  have ne: "p' \<noteq> gparams_get (pool w)" using assms(2) w' by (auto simp: put_params_def gparams_get_def get_or_default_def)
  have "uint ratio \<le> 2 ^ 56" using q by (simp add: word_le_def)
  then show ?thesis using guarded_ratio_change(2,3) [OF r ne] guard_window_pass assms(4,5) by blast
qed

definition demo_guard :: hdd_price_guard where
  "demo_guard = guard_default 1600000000000000"

lemma demo_setdrratio:
  "\<exists>w'. setdrratio (demo_ctx [hddpooladml1]) 9500 1 demo_users = Inr w' \<and> dup_remove_ratio (gparams_get (pool w')) = 9500"
  by (simp add: setdrratio_def guarded_ratio_def guard_both_def guard_window_def abs_diff_def udiv_def guard_default_def user_runs
      param_auth_def put_params_def i64_def Let_def)

theorem ratio_guard_limits_change_witness:
  "\<exists>w'. setdrratio (demo_ctx [hddpooladml1]) 9500 1 demo_users = Inr w'
    \<and> \<bar>uint (9500 :: u64) - uint (last_dup_remove_guard_ratio1 demo_guard)\<bar> * 100
       < (uint (duprmv_ratio_delta_1 demo_guard) + 1) * uint (last_dup_remove_guard_ratio1 demo_guard)"
proof -
  obtain w' where w': "setdrratio (demo_ctx [hddpooladml1]) 9500 1 demo_users = Inr w'"
      "dup_remove_ratio (gparams_get (pool w')) = 9500" using demo_setdrratio by blast
  have "dup_remove_ratio (gparams_get (pool w')) \<noteq> dup_remove_ratio (gparams_get (pool demo_users))"
    unfolding w'(2) by (simp add: demo_users_def gparams_get_def get_or_default_def)
  moreover have "demo_guard = get_or_default (paramguard (pool demo_users)) (guard_default (current_time (demo_ctx [hddpooladml1])))"
    by (simp add: demo_guard_def user_runs)
  ultimately show ?thesis using ratio_guard_limits_change [OF w'(1), of demo_guard] w'(1) by (auto simp: demo_guard_def guard_default_def)
qed

subsection \<open>Rewards\<close>

text \<open>
  C8. The binary search over a usable table of at most \<open>2^19 - 1\<close> rows is the linear search: row
  \<open>i\<close> is drawn exactly for the values from the end of the range of the row before it to the end
  of its own, so the chance of a miner is proportional to its range.
\<close>

theorem draw_is_proportional:
  assumes "scores_ok look n" and "unat n < 2 ^ 19" and "1 \<le> i" and "i \<le> n" and "look i = Some r"
    and "(if i = 1 then 0 else rg look (i - 1)) \<le> x" and "x < rg look i"
  shows "pick_miner look (x + 1) n = Some (ms_minerid r)"
  by (rule pick_miner_row [OF assms])

definition demo_scores :: "u64 \<Rightarrow> mscore option" where
  "demo_scores = map_of [(1, \<lparr>ms_minerid = 9, ms_range = 100\<rparr>), (2, \<lparr>ms_minerid = 4, ms_range = 150\<rparr>),
     (3, \<lparr>ms_minerid = 7, ms_range = 400\<rparr>)]"

lemma demo_scores_ok: "scores_ok demo_scores 3"
proof -
  have c: "i = 1 \<or> i = 2 \<or> i = 3" if "1 \<le> i" "i \<le> 3" for i :: u64
  proof -
    have "unat i = 1 \<or> unat i = 2 \<or> unat i = 3" using that by (auto simp: word_le_nat_alt)
    then show ?thesis by (auto simp: word_unat_eq_iff)
  qed
  have "rg demo_scores i < rg demo_scores j" if "1 \<le> i" "i < j" "j \<le> 3" for i j
  proof -
    have "i \<le> 3" "1 \<le> j" using that by order+
    then show ?thesis using c [OF that(1)] c [OF _ that(3)] that(2) by (auto simp: demo_scores_def rg_def)
  qed
  moreover have "\<exists>r. demo_scores i = Some r \<and> ms_minerid r \<noteq> 0 \<and> ms_range r \<noteq> 0" if "1 \<le> i" "i \<le> 3" for i
    using c [OF that] by (auto simp: demo_scores_def)
  ultimately show ?thesis by (auto simp: scores_ok_def)
qed

theorem draw_is_proportional_witness: "pick_miner demo_scores (149 + 1) 3 = Some 4"
  using draw_is_proportional [OF demo_scores_ok, of 2 "\<lparr>ms_minerid = 4, ms_range = 150\<rparr>" 149] by (simp add: demo_scores_def rg_def)

text \<open>
  C13. A draw of a capacity reward from a table in use of at least one and fewer than \<open>2^19\<close>
  rows schedules a payment: with the authority of the contract, a reward in the range of assets
  and an identifier of the slot that no scheduled transaction of the contract has yet, the miner
  whose range contains the drawn value gets a deferred payment of the whole reward.  In larger
  tables the search of the source gives up after 20 rounds and may pay nobody.
\<close>

theorem capacity_draw_pays:
  assumes "score_inv (pool w)" and "gmscore2ex (pool w) = Some g" and "1 \<le> cur_count1 g" and "unat (cur_count1 g) < 2 ^ 19"
    and "hdd_pool_account \<in> set (auths c)" and "- max_amount \<le> reward" and "reward \<le> max_amount"
    and "(hdd_pool_account, ucast slot) \<notin> fst ` set (deferred w)"
  shows "\<exists>i r. i \<le> cur_count1 g \<and> view (mscore1s (pool w)) (cur_scope g) i = Some r \<and> ms_minerid r \<noteq> 0
    \<and> first_reaching (view (mscore1s (pool w)) (cur_scope g))
        (random mod rg (view (mscore1s (pool w)) (cur_scope g)) (cur_count1 g) + 1) i
    \<and> rewardproc1 c random slot reward d w
        = Inr (w\<lparr>deferred := deferred w @ [((hdd_pool_account, ucast slot), scheduled_reward 1 reward (ms_minerid r) d)]\<rparr>)"
proof -
  let ?look = "view (mscore1s (pool w)) (cur_scope g)"
  have ok: "scores_ok ?look (cur_count1 g)" using assms(1,2) by (simp add: score_inv_def scores_inv_def buffers_ok_def)
  have "rewardproc1 c random slot reward d w = draw c ?look (cur_count1 g) 1 random slot reward d w"
    using assms(2) by (simp add: rewardproc1_def view_def [abs_def] cur_scope_def cur_count1_def)
  then show ?thesis using draw_schedules [OF ok assms(3-8), of random 1 d] by auto
qed

definition demo_rewards :: world where
  "demo_rewards = demo_world\<lparr>pool := (pool empty_world)\<lparr>
     mscore1s := [((scopea, 1), \<lparr>ms_minerid = 9, ms_range = 100\<rparr>)],
     gmscore2ex := Some (mscore2ex_default\<lparr>mscore1_s0_count := 1\<rparr>)\<rparr>\<rparr>"

lemma demo_rewards_inv: "score_inv (pool demo_rewards)"
proof -
  have v: "view (mscore1s (pool demo_rewards)) scopea = [1 \<mapsto> \<lparr>ms_minerid = 9, ms_range = 100\<rparr>]"
    by (auto simp: demo_rewards_def view_def fun_eq_iff)
  have g: "gmscore2ex (pool demo_rewards) = Some (mscore2ex_default\<lparr>mscore1_s0_count := 1\<rparr>)" by (simp add: demo_rewards_def)
  have "scores_ok [1 \<mapsto> \<lparr>ms_minerid = 9, ms_range = 100\<rparr>] 1" unfolding scores_ok_def
  proof (intro conjI allI impI)
    fix i :: u64
    assume "1 \<le> i" "i \<le> 1"
    then have "i = 1" by order
    then show "\<exists>r. [1 \<mapsto> \<lparr>ms_minerid = 9, ms_range = 100\<rparr>] i = Some r \<and> ms_minerid r \<noteq> 0 \<and> ms_range r \<noteq> 0" by simp
  next
    fix i j :: u64
    assume "1 \<le> i" "i < j" "j \<le> 1"
    then have False by order
    then show "rg [1 \<mapsto> \<lparr>ms_minerid = 9, ms_range = 100\<rparr>] i < rg [1 \<mapsto> \<lparr>ms_minerid = 9, ms_range = 100\<rparr>] j" ..
  qed
  then show ?thesis using v
    by (simp add: g score_inv_def scores_inv_def buffers_ok_def cur_scope_def cur_count1_def cur_count2_def counts_ok_def mscore2ex_default_def)
qed

theorem capacity_draw_pays_witness:
  "\<exists>m. m \<noteq> 0 \<and> rewardproc1 (demo_ctx [hdd_pool_account]) 12345 7 1000 False demo_rewards
     = Inr (demo_rewards\<lparr>deferred := [((hdd_pool_account, 7), scheduled_reward 1 1000 m False)]\<rparr>)"
proof -
  let ?g = "mscore2ex_default\<lparr>mscore1_s0_count := 1\<rparr>"
  have "gmscore2ex (pool demo_rewards) = Some ?g" "cur_count1 ?g = 1" "deferred demo_rewards = []"
    by (simp_all add: demo_rewards_def cur_count1_def mscore2ex_default_def)
  then show ?thesis
    using capacity_draw_pays [OF demo_rewards_inv, of ?g "demo_ctx [hdd_pool_account]" 1000 7 12345 False]
    by (auto simp: max_amount_def)
qed


text \<open>
  C18. The payment of a reward never pays more than was drawn, the gas is at most the paid
  reward, and it goes through the channel if and only if the fee balance of the owner covers
  the gas; otherwise the failure is logged.
\<close>

theorem reward_payment_bounded:
  assumes "0 \<le> amount q" and "amount q \<le> 2 ^ 53" and "payrewardnew c ty q minerid d w = Inr w'"
  shows "\<exists>row reward gas fee. map_of (miners (pool w)) minerid = Some row \<and> 0 \<le> gas \<and> gas \<le> reward \<and> reward \<le> amount q
    \<and> getfeebalance w (mn_owner row) = Inr fee
    \<and> inlines w' = inlines w @ [mk_act hdd_pool_account hdd_pool_account (Pol (Pool_reward
        (if gas \<le> amount fee then Pool_channellog ty (core_asset reward) minerid (core_asset gas) (mn_owner row)
         else Channelfail ty (core_asset reward) minerid (core_asset gas) (mn_owner row))))]"
  by (rule payrewardnew_effect [OF assms])

definition demo_paid :: world where
  "demo_paid = demo_world\<lparr>pool := (pool empty_world)\<lparr>miners := [(9, new_miner 0 2 1 5 65536000 1)]\<rparr>,
     chn := \<lparr>cbalances = [((2, 2), yta 40)]\<rparr>\<rparr>"

lemma demo_payrewardnew: "\<not> isl (payrewardnew (demo_ctx [hdd_pool_account]) 1 (yta 1000) 9 False demo_paid)"
proof -
  obtain g where "scale_i64 1000 (1 / 10) = Inr g" "0 \<le> g" "g \<le> 1000" using trunc_scaled [of 1000 "1 / 10"] by (auto simp: scale_i64_def)
  then show ?thesis
    by (simp add: payrewardnew_def demo_paid_def new_miner_def getfeebalance_def is_old_miner_def run_simps)
qed

theorem reward_payment_bounded_witness:
  "\<exists>w'. payrewardnew (demo_ctx [hdd_pool_account]) 1 (yta 1000) 9 False demo_paid = Inr w' \<and> length (inlines w') = 1"
proof -
  obtain w' where w': "payrewardnew (demo_ctx [hdd_pool_account]) 1 (yta 1000) 9 False demo_paid = Inr w'"
    using not_isl_Inr [OF demo_payrewardnew] by blast
  show ?thesis using reward_payment_bounded [OF _ _ w'] w' by (auto simp: demo_paid_def)
qed

text \<open>
  C22. The memo under which hddpool pays a reward through the channel is read back by the
  channel: the amount is booked for the owner of the miner, under the type of the reward.
\<close>

theorem reward_memo_round_trip:
  assumes "symbol q = CORE_SYMBOL"
  shows "transfercore c fund_sys channel_sys q (reward_memo ty owner minerid) w = book_transfer c fund_sys q ty owner w"
proof -
  have "CHR '':'' \<notin> set (std_to_string (unat ty))" using std_to_string_digits [of "CHR '':''"] by (auto simp: c_isdigit_def)
  from transfercore_memo [OF assms this] show ?thesis by (simp add: reward_memo_def memo_type_std_to_string)
qed

theorem reward_memo_round_trip_witness:
  "\<exists>w'. transfercore (demo_ctx []) fund_sys channel_sys (yta 25) (reward_memo 2 7 9) demo_world = Inr w'
     \<and> map_of (cbalances (chn w')) (7, 1) = Some (yta 25)"
proof -
  have "transfercore (demo_ctx []) fund_sys channel_sys (yta 25) (reward_memo 2 7 9) demo_world
      = book_transfer (demo_ctx []) fund_sys (yta 25) 2 7 demo_world"
    by (rule reward_memo_round_trip) simp
  then show ?thesis by (simp add: book_transfer_def on_chn_def add_cbalance_def empty_world_def run_simps)
qed

end
