(* ===== verification/System_Props.thy ===== *)
theory System_Props
  imports Channel_Props Pool_Props
begin

text \<open>
  Properties of the contracts together, as the chain runs them: the invariant of all
  tables over blocks of transactions, the solvency of the channel, and the number of
  rounds an action needs.
\<close>

lemma chain_step_guarded: "chain_step good (guarded P code) w w' \<Longrightarrow> chain_step good code w w'"
  by (induction rule: chain_step.induct) (blast intro: chain_step.intros run_transaction_guarded)+

lemma reachable_guarded: "reachable good (guarded P code) w w' \<Longrightarrow> reachable good code w w'"
  unfolding reachable_def by (erule rtranclp_mono [THEN predicate2D, rotated]) (blast intro: chain_step_guarded)

lemma run_transaction_weaken:
  assumes "run_transaction (guarded P code) fuel c as w = Inr w'" and "\<And>a w. P a w \<Longrightarrow> Q a w"
  shows "run_transaction (guarded Q code) fuel c as w = Inr w'"
proof -
  have "guarded P (guarded Q code) = guarded P code" using assms(2) by (auto simp: guarded_def fun_eq_iff)
  then show ?thesis using run_transaction_guarded [of P "guarded Q code"] assms(1) by simp
qed

lemma in_range_backed_in_range: "in_range_backed a w \<Longrightarrow> in_range a w"
  by (simp add: in_range_backed_def)

subsection \<open>A transaction\<close>

text \<open>The deposit contract's account returns a deposit to user 1 through the channel.\<close>

definition core_ledger :: "(name \<times> int) list \<Rightarrow> token_db" where
  "core_ledger bs = \<lparr>accounts = map (\<lambda>(n, x). ((n, sym_name CORE_SYMBOL), yta x)) bs,
     stats = [(sym_name CORE_SYMBOL, \<lparr>st_supply = yta 700, st_max_supply = yta 5000, st_issuer = system_account\<rparr>)]\<rparr>"

definition demo_ledger :: world where
  "demo_ledger = demo_store\<lparr>tok := core_ledger [(store_sys, 700)]\<rparr>"

definition demo_return :: act where
  "demo_return = mk_act store_sys token_account (Tok (Transfer store_sys channel_sys (yta 25) (undeppool2_memo 1)))"

definition told :: "token_db \<Rightarrow> channel_db \<Rightarrow> world" where
  "told t d = demo_ledger\<lparr>tok := t, chn := d, inlines := [], notified := [token_account, store_sys, channel_sys]\<rparr>"

lemma demo_ledger_simps [simp]:
  "tok demo_ledger = core_ledger [(store_sys, 700)]" "lck demo_ledger = lck empty_world" "dep demo_ledger = dep empty_world"
  "chn demo_ledger = chn empty_world" "pool demo_ledger = pool demo_store" "deferred demo_ledger = []"
  by (simp_all add: demo_ledger_def demo_store_def)

lemma demo_memo: "transfercore c store_sys channel_sys (yta 25) (undeppool2_memo 1) w = on_chn (add_cbalance 1 1 (yta 25)) w"
proof -
  have "memo_type ''3'' = 3" by code_simp
  then show ?thesis
    using transfercore_memo [of "yta 25" "''3''" c store_sys 1 "''0''" w] by (simp add: undeppool2_memo_def book_transfer_def)
qed

lemma demo_in_range [simp]:
  "in_range_backed demo_return (demo_ledger\<lparr>inlines := i, notified := n\<rparr>)" "in_range_backed demo_return (told t d)"
  using demo_store_room
  by (simp_all add: told_def in_range_backed_def in_range_def args_ok_def demo_return_def mk_act_def
      grants_small_def locks_of_def grants_def backs_none_def max_amount_def)

lemma demo_paid_run:
  "transfer ((demo_ctx [])\<lparr>auths := [store_sys]\<rparr>) store_sys channel_sys (yta 25) (undeppool2_memo 1)
      (demo_ledger\<lparr>inlines := [], notified := [token_account]\<rparr>)
    = Inr (told (core_ledger [(channel_sys, 25), (store_sys, 675)]) (chn empty_world))"
proof -
  have "length (undeppool2_memo 1) \<le> 256" by code_simp
  then show ?thesis by (simp add: core_ledger_def told_def run_simps acct_simps)
qed

lemma demo_booked:
  "transfercore c store_sys channel_sys (yta 25) (undeppool2_memo 1) (told t (chn empty_world)) = Inr (told t \<lparr>cbalances = [((1, 1), yta 25)]\<rparr>)"
  unfolding demo_memo by (simp add: on_chn_def add_cbalance_def told_def empty_world_def run_simps)

definition demo_returned :: world where
  "demo_returned = told (core_ledger [(channel_sys, 25), (store_sys, 675)]) \<lparr>cbalances = [((1, 1), yta 25)]\<rparr>"

lemma told_notified [simp]: "notified (told t d) = [token_account, store_sys, channel_sys]" "inlines (told t d) = []"
  by (simp_all add: told_def)

lemma demo_code:
  "contract_code no_code ((demo_ctx [])\<lparr>auths := [store_sys]\<rparr>) token_account demo_return (demo_ledger\<lparr>inlines := [], notified := [token_account]\<rparr>)
    = Inr (told (core_ledger [(channel_sys, 25), (store_sys, 675)]) (chn empty_world))"
  "contract_code no_code c store_sys demo_return w = Inr w"
  "contract_code no_code c channel_sys demo_return (told t (chn empty_world)) = Inr (told t \<lparr>cbalances = [((1, 1), yta 25)]\<rparr>)"
  using demo_paid_run demo_booked
  by (simp_all add: contract_code_def token_code_def deposit_code_def channel_code_def no_code_def demo_return_def mk_act_def,
      simp_all add: acct_simps)

lemma demo_run: "run_transaction (backed_code no_code) 4 (demo_ctx []) [demo_return] demo_ledger = Inr demo_returned"
proof -
  have a: "act_auth demo_return = [store_sys]" "act_account demo_return = token_account" by (simp_all add: demo_return_def mk_act_def)
  have n: "store_sys \<noteq> 0" "channel_sys \<noteq> 0" "token_account \<noteq> 0" by (simp_all add: acct_simps)
  show ?thesis
    by (simp add: run_transaction_def default_max_inline_action_depth_def eval_nat_numeral exec_with_def exec_one_def guarded_def
        a n demo_code demo_returned_def)
qed

lemma demo_ledger_inv: "sys_inv demo_ledger"
proof -
  have "token_inv (tok demo_ledger)"
    by (auto simp: token_inv_def token_inv_debt_def core_ledger_def twf_def stats_ok_def balance_ok_def bal_row_def supply_of_def max_amount_def
        split: if_splits)
  moreover have "lock_inv (lck demo_ledger)" "dep_inv (dep demo_ledger)" "channel_inv (chn demo_ledger)"
    by (simp_all add: lock_inv_def dep_inv_def pools_ok_def miners_ok_def channel_inv_def empty_world_def used_def)
  ultimately show ?thesis using demo_store_inv by (simp add: sys_inv_def)
qed

lemma demo_chain_ctx: "chain_ctx (demo_ctx as)"
  by (simp add: chain_ctx_def)

lemma no_code_quiet: "foreign_quiet no_code"
  by (simp add: foreign_quiet_def no_code_def)

text \<open>
  C1. The invariant of the tables of all five contracts holds in every state that the
  chain reaches from a state in which it holds, by any transactions and scheduled
  transactions, with any code in the other accounts, as long as the arguments that the
  contracts do not check are in range.  The restriction to that range only removes runs:
  a state reached under it is reached by the contracts themselves.
\<close>

theorem chain_keeps_system_invariant:
  assumes "foreign_ok f" and "sys_inv w" and "reachable chain_ctx (guarded in_range (contract_code f)) w w'"
  shows "sys_inv w' \<and> reachable chain_ctx (contract_code f) w w'"
  using keeping_chain.reachable_inv [OF contracts_keep [OF assms(1)] assms(3,2)] reachable_guarded [OF assms(3)] by blast

theorem chain_keeps_system_invariant_witness:
  "sys_inv demo_returned \<and> reachable chain_ctx (contract_code no_code) demo_ledger demo_returned"
proof -
  have "run_transaction (guarded in_range (contract_code no_code)) 4 (demo_ctx []) [demo_return] demo_ledger = Inr demo_returned"
    using demo_run in_range_backed_in_range by (rule run_transaction_weaken)
  then have "chain_step chain_ctx (guarded in_range (contract_code no_code)) demo_ledger demo_returned"
    using demo_chain_ctx by (rule chain_step.Transaction [rotated])
  then have "reachable chain_ctx (guarded in_range (contract_code no_code)) demo_ledger demo_returned" unfolding reachable_def by blast
  then show ?thesis by (rule chain_keeps_system_invariant [OF no_code_ok demo_ledger_inv])
qed

text \<open>
  C2. The channel stays solvent: a transaction without the authority of the channel
  itself never lowers the difference between the tokens the channel holds and what it
  owes to its users.  The inline actions and notifications that the contracts exchange
  are part of the transaction.  No miner may be backed by the channel, whose deposit
  would be forfeited at the cost of the users.
\<close>

theorem channel_stays_solvent:
  assumes "foreign_ok f" and "foreign_quiet f" and "chain_ctx c" and "sys_inv w" and "\<forall>a\<in>set as. channel_sys \<notin> set (act_auth a)"
    and "run_transaction (guarded in_range_backed (contract_code f)) fuel c as w = Inr w'"
    and "channel_total (chn w) \<le> bal (tok w) channel_sys core"
  shows "channel_total (chn w') \<le> bal (tok w') channel_sys core \<and> slack w \<le> slack w'"
  using transaction_solvent [OF assms(1-6)] assms(7) by (simp add: slack_def)

theorem channel_stays_solvent_witness:
  "run_transaction (contract_code no_code) 4 (demo_ctx []) [demo_return] demo_ledger = Inr demo_returned
    \<and> channel_total (chn demo_returned) = 25 \<and> channel_total (chn demo_returned) \<le> bal (tok demo_returned) channel_sys core"
proof -
  have a: "\<forall>a\<in>set [demo_return]. channel_sys \<notin> set (act_auth a)" by (simp add: demo_return_def mk_act_def acct_simps)
  have b: "channel_total (chn demo_ledger) \<le> bal (tok demo_ledger) channel_sys core"
    by (simp add: channel_total_def empty_world_def bal_def core_ledger_def acct_simps)
  have "channel_total (chn demo_returned) = 25" by (simp add: channel_total_def demo_returned_def told_def)
  then show ?thesis
    using run_transaction_guarded [OF demo_run] channel_stays_solvent [OF no_code_ok no_code_quiet demo_chain_ctx demo_ledger_inv a demo_run b]
    by blast
qed

text \<open>
  C14. The loops of an action end: with the five contracts and no other code, and with
  the system contract beside them, four rounds of the loop over the notified accounts
  are enough for every action, so a transaction has the same outcome for every larger
  number of rounds and is never cut off by it.
\<close>

theorem transaction_rounds_suffice:
  assumes "4 \<le> fuel"
  shows "run_transaction (contract_code no_code) fuel c as w = run_transaction (contract_code no_code) 4 c as w
    \<and> run_transaction (contract_code (with_system no_code)) fuel c as w = run_transaction (contract_code (with_system no_code)) 4 c as w"
  using run_transaction_enough [OF no_code_tells assms] run_transaction_enough [OF with_system_tells [OF no_code_tells] assms] by blast

theorem transaction_rounds_suffice_witness:
  "run_transaction (contract_code no_code) 1000 (demo_ctx []) [demo_return] demo_ledger = Inr demo_returned"
  using transaction_rounds_suffice [of 1000] run_transaction_guarded [OF demo_run] by simp

end
