(* ===== verification/System_Roster.thy ===== *)
theory System_Roster
  imports System_Contract "HOL-Library.Multiset"
begin

text \<open>
  The lists of producers.  Voting moves votes between producers but leaves the lists and what
  the contract holds in trust alone; the lists are bounded, name no producer twice, and name
  only registered ones; the schedule that is made from them is therefore always accepted as to
  size and names.
\<close>

subsection \<open>What a vote does not change\<close>

definition listing :: "yta_prod_info \<Rightarrow> name \<times> public_key \<times> bool" where
  "listing x = (yp_owner x, yp_producer_key x, yp_is_active x)"

definition registered :: "system_db \<Rightarrow> name \<Rightarrow> (public_key \<times> bool) option" where
  "registered db n = map_option (\<lambda>r. (pi_producer_key r, pi_is_active r)) (map_of (producers db) n)"

definition roster :: "system_db \<Rightarrow> _" where
  "roster db = (registered db, dom (map_of (producersext db)),
     map_option (\<lambda>a. (map listing (prods_l1 a), map listing (prods_l2 a))) (all_prods db))"

definition in_trust :: "system_db \<Rightarrow> _" where
  "in_trust db = (delband db, refunds db, userres db, namebids db, rammarket db, max_ram_size (gs db), total_ram_bytes_reserved (gs db))"

definition holdings :: "system_db \<Rightarrow> _" where
  "holdings db = (roster db, in_trust db)"

lemma gs_upd [simp]:
  "gs (on_gs f db) = f (gs db)" "gs (db\<lparr>voters := x1\<rparr>) = gs db" "gs (db\<lparr>producers := x2\<rparr>) = gs db"
  "gs (db\<lparr>all_prods := x3\<rparr>) = gs db" "gs (db\<lparr>producersext := x4\<rparr>) = gs db" "gs (on_gs2 f2 db) = gs db"
  "gs (db\<lparr>delband := x5\<rparr>) = gs db" "gs (db\<lparr>refunds := x6\<rparr>) = gs db" "gs (db\<lparr>userres := x7\<rparr>) = gs db"
  "gs (db\<lparr>namebids := x8\<rparr>) = gs db" "gs (db\<lparr>rammarket := x9\<rparr>) = gs db" "gs (db\<lparr>gsystem3 := x10\<rparr>) = gs db"
  "gs (db\<lparr>proposed := x11\<rparr>) = gs db" "gs (db\<lparr>gcount := x12\<rparr>) = gs db" "gs (db\<lparr>privileged := x13\<rparr>) = gs db"
  "gs2 (on_gs2 f2 db) = f2 (gs2 db)" "gs2 (on_gs f db) = gs2 db"
  by (simp_all add: gs_def gs2_def on_gs_def on_gs2_def)

lemma on_gs_fields [simp]:
  "producers (on_gs f db) = producers db" "producersext (on_gs f db) = producersext db" "all_prods (on_gs f db) = all_prods db"
  "voters (on_gs f db) = voters db" "delband (on_gs f db) = delband db" "refunds (on_gs f db) = refunds db"
  "userres (on_gs f db) = userres db" "namebids (on_gs f db) = namebids db" "rammarket (on_gs f db) = rammarket db"
  "gsystem3 (on_gs f db) = gsystem3 db" "proposed (on_gs f db) = proposed db"
  by (simp_all add: on_gs_def)

lemma on_gs2_fields [simp]:
  "producers (on_gs2 f db) = producers db" "producersext (on_gs2 f db) = producersext db" "all_prods (on_gs2 f db) = all_prods db"
  "voters (on_gs2 f db) = voters db" "delband (on_gs2 f db) = delband db" "refunds (on_gs2 f db) = refunds db"
  "userres (on_gs2 f db) = userres db" "namebids (on_gs2 f db) = namebids db" "rammarket (on_gs2 f db) = rammarket db"
  "gsystem3 (on_gs2 f db) = gsystem3 db" "proposed (on_gs2 f db) = proposed db"
  by (simp_all add: on_gs2_def)

lemma first_owner_map:
  "(\<And>x. listing (g x) = listing x) \<Longrightarrow> map listing (first_owner p (\<lambda>x. [g x]) xs) = map listing xs"
  by (induction xs) auto

lemma level_change_fields [simp]:
  "producers (level_change p f db) = producers db" "producersext (level_change p f db) = producersext db"
  "in_trust (level_change p f db) = in_trust db"
  by (auto simp: level_change_def in_trust_def split: option.splits)

lemma level_change_roster: "(\<And>x. listing (g x) = listing x) \<Longrightarrow> roster (level_change p (\<lambda>x. [g x]) db) = roster db"
  by (auto simp: level_change_def roster_def registered_def first_owner_map split: option.splits)

lemma update_votes_roster [simp]: "holdings (update_producers_yta_totalvotes p v db) = holdings db"
  by (simp add: update_producers_yta_totalvotes_def holdings_def level_change_roster listing_def)

lemma holdings_votes [simp]:
  "holdings (db\<lparr>voters := v\<rparr>) = holdings db"
  "(\<And>g. max_ram_size (f g) = max_ram_size g \<and> total_ram_bytes_reserved (f g) = total_ram_bytes_reserved g) \<Longrightarrow>
     holdings (on_gs f db) = holdings db"
  by (simp_all add: holdings_def roster_def registered_def in_trust_def fun_eq_iff)

lemma holdings_producer:
  "map_of (producers db) p = Some r \<Longrightarrow> holdings (db\<lparr>producers := tput p (r\<lparr>pi_total_votes := v\<rparr>) (producers db)\<rparr>) = holdings db"
  by (auto simp: holdings_def roster_def registered_def in_trust_def fun_eq_iff)

lemma add_votes_holdings: "add_votes d ps db = Inr db' \<Longrightarrow> holdings db' = holdings db"
  by (induction d ps db rule: add_votes.induct) (fastforce simp: holdings_producer)+

lemma propagate_holdings: "propagate_weight_change d n db = Inr db' \<Longrightarrow> holdings db' = holdings db"
proof (induction d arbitrary: n db db')
  case (Suc d)
  have "keeps (\<lambda>db'. holdings db' = holdings db) (propagate_weight_change (Suc d) n db)"
    unfolding propagate_weight_change.simps Let_def
    by (rule keeps_base keeps_any keeps_case)+ (auto simp: add_votes_holdings dest: Suc.IH split: if_splits)
  then show ?case using Suc.prems by (rule keepsD)
qed simp

lemma apply_deltas_holdings: "apply_deltas v ds db m = Inr (db', m') \<Longrightarrow> holdings db' = holdings db"
  by (induction v ds db m rule: apply_deltas.induct) (auto simp: Let_def holdings_producer split: option.splits if_splits)

lemma undo_votes_holdings: "undo_votes c v db = Inr (db', ds) \<Longrightarrow> holdings db' = holdings db"
  by (auto simp: undo_votes_def Let_def dest: propagate_holdings split: if_splits)

lemma cast_votes_holdings: "cast_votes c p ps v x db ds = Inr (db', ds') \<Longrightarrow> holdings db' = holdings db"
  by (auto simp: cast_votes_def dest: propagate_holdings split: if_splits)

lemma activate_stake_holdings [simp]: "holdings (activate_stake c v db) = holdings db"
  by (simp add: activate_stake_def Let_def)

lemma update_votes_holdings: "update_votes c n p ps v w = Inr w' \<Longrightarrow> holdings (syst w') = holdings (syst w)"
  by (auto simp: update_votes_def Let_def require_recipient_def split: if_splits
      dest!: undo_votes_holdings cast_votes_holdings apply_deltas_holdings)

lemma revote_holdings: "revote c n v w = Inr w' \<Longrightarrow> holdings (syst w') = holdings (syst w)"
  by (auto simp: revote_def dest: update_votes_holdings split: if_splits)

lemma update_votes_inlines: "update_votes c n p ps v w = Inr w' \<Longrightarrow> inlines w' = inlines w"
  by (auto simp: update_votes_def Let_def require_recipient_def split: if_splits)

lemma revote_inlines: "revote c n v w = Inr w' \<Longrightarrow> inlines w' = inlines w"
  by (auto simp: revote_def dest: update_votes_inlines split: if_splits)

subsection \<open>The lists are well formed\<close>

definition lists_ok :: "all_prods_level \<Rightarrow> bool" where
  "lists_ok a \<longleftrightarrow> length (prods_l1 a) \<le> level_one_max \<and> length (prods_l2 a) \<le> level_two_max
     \<and> distinct (map yp_owner (prods_l1 a @ prods_l2 a))"

definition listed_ok :: "system_db \<Rightarrow> yta_prod_info \<Rightarrow> bool" where
  "listed_ok db x \<longleftrightarrow> has_key (producersext db) (yp_owner x) \<and> registered db (yp_owner x) = Some (yp_producer_key x, yp_is_active x)"

definition prods_ok :: "system_db \<Rightarrow> bool" where
  "prods_ok db \<longleftrightarrow> list_all (\<lambda>(n, _). has_key (producers db) n) (producersext db)
     \<and> (case all_prods db of None \<Rightarrow> True | Some a \<Rightarrow> lists_ok a \<and> list_all (listed_ok db) (prods_l1 a @ prods_l2 a))"

fun roster_ok :: "(name \<rightharpoonup> public_key \<times> bool) \<times> name set \<times> ((name \<times> public_key \<times> bool) list \<times> (name \<times> public_key \<times> bool) list) option \<Rightarrow> bool" where
  "roster_ok (reg, ext, None) \<longleftrightarrow> ext \<subseteq> dom reg"
| "roster_ok (reg, ext, Some (l1, l2)) \<longleftrightarrow> ext \<subseteq> dom reg
     \<and> length l1 \<le> level_one_max \<and> length l2 \<le> level_two_max \<and> distinct (map fst (l1 @ l2))
     \<and> (\<forall>x \<in> set (l1 @ l2). fst x \<in> ext \<and> reg (fst x) = Some (snd x))"

lemma ext_registered:
  "list_all (\<lambda>(n, _). has_key (producers db) n) (producersext db) \<longleftrightarrow> dom (map_of (producersext db)) \<subseteq> dom (registered db)"
proof -
  have "dom (registered db) = {n. has_key (producers db) n}" by (auto simp: registered_def has_key_def)
  then show ?thesis by (auto simp: list_all_iff dom_map_of_conv_image_fst)
qed

lemma fst_listing [simp]: "fst (listing x) = yp_owner x" "fst \<circ> listing = yp_owner"
  by (auto simp: listing_def)

lemma prods_ok_roster: "prods_ok db \<longleftrightarrow> roster_ok (roster db)"
proof -
  have "listed_ok db x \<longleftrightarrow> fst (listing x) \<in> dom (map_of (producersext db)) \<and> registered db (fst (listing x)) = Some (snd (listing x))" for x
    by (auto simp: listed_ok_def listing_def has_key_def)
  then show ?thesis unfolding prods_ok_def ext_registered roster_def
    by (cases "all_prods db") (simp_all add: lists_ok_def list_all_iff ball_Un image_image del: fst_listing(1))
qed

text \<open>As no producer is listed twice, a change of its first entry is a change of both lists.\<close>

definition on_owner :: "name \<Rightarrow> (yta_prod_info \<Rightarrow> yta_prod_info list) \<Rightarrow> yta_prod_info list \<Rightarrow> yta_prod_info list" where
  "on_owner p f xs = concat (map (\<lambda>x. if yp_owner x = p then f x else [x]) xs)"

lemma on_owner_absent: "p \<notin> yp_owner ` set xs \<Longrightarrow> on_owner p f xs = xs"
  by (induction xs) (auto simp: on_owner_def)

lemma first_owner_distinct: "distinct (map yp_owner xs) \<Longrightarrow> first_owner p f xs = on_owner p f xs"
  using on_owner_absent by (induction xs) (auto simp: on_owner_def)

lemma level_change_both:
  assumes "all_prods db = Some a" and "lists_ok a"
  shows "all_prods (level_change p f db) = Some (a\<lparr>prods_l1 := on_owner p f (prods_l1 a), prods_l2 := on_owner p f (prods_l2 a)\<rparr>)"
proof -
  have d: "distinct (map yp_owner (prods_l1 a))" "distinct (map yp_owner (prods_l2 a))"
    "yp_owner ` set (prods_l1 a) \<inter> yp_owner ` set (prods_l2 a) = {}"
    using assms(2) by (simp_all add: lists_ok_def)
  show ?thesis
  proof (cases "p \<in> yp_owner ` set (prods_l1 a)")
    case True
    then have "p \<notin> yp_owner ` set (prods_l2 a)" using d(3) by blast
    then show ?thesis using True assms(1) first_owner_distinct [OF d(1)]
      by (simp add: level_change_def on_owner_absent)
  next
    case False
    then show ?thesis using assms(1) first_owner_distinct [OF d(2)]
      by (simp add: level_change_def on_owner_absent)
  qed
qed

lemma on_owner_drop: "map listing (on_owner p (\<lambda>_. []) xs) = filter (\<lambda>x. fst x \<noteq> p) (map listing xs)"
  by (induction xs) (auto simp: on_owner_def)

lemma on_owner_set:
  "map listing (on_owner p (\<lambda>x. [x\<lparr>yp_is_active := b, yp_producer_key := k\<rparr>]) xs)
     = map (\<lambda>x. if fst x = p then (p, k, b) else x) (map listing xs)"
  by (induction xs) (auto simp: on_owner_def listing_def)

abbreviation drop_owner :: "name \<Rightarrow> (name \<times> 'k) list \<Rightarrow> (name \<times> 'k) list" where
  "drop_owner p \<equiv> filter (\<lambda>x. fst x \<noteq> p)"

lemma registered_level_change [simp]: "registered (level_change p f db) = registered db"
  by (simp add: registered_def fun_eq_iff)

lemma prods_ok_lists: "prods_ok db \<Longrightarrow> all_prods db = Some a \<Longrightarrow> lists_ok a"
  by (simp add: prods_ok_def)

lemma roster_rm:
  assumes "\<And>a. all_prods db = Some a \<Longrightarrow> lists_ok a"
  shows "roster (rm_producer_yta p db) = (registered db, dom (map_of (producersext db)),
    map_option (map_prod (drop_owner p) (drop_owner p)) (snd (snd (roster db))))"
proof (cases "all_prods db")
  case None
  then show ?thesis by (simp add: rm_producer_yta_def level_change_def roster_def)
next
  case (Some a)
  then show ?thesis
    using level_change_both [OF Some assms [OF Some]] by (simp add: rm_producer_yta_def roster_def on_owner_drop)
qed

lemma drop_owner_rows:
  assumes "\<forall>x\<in>set xs. fst x \<in> ext \<and> reg (fst x) = Some (snd x)" and "ext - {p} \<subseteq> ext'" and "\<And>n. n \<noteq> p \<Longrightarrow> reg' n = reg n"
  shows "\<forall>x\<in>set (drop_owner p xs). fst x \<in> ext' \<and> reg' (fst x) = Some (snd x)"
proof
  fix x
  assume "x \<in> set (drop_owner p xs)"
  then have "x \<in> set xs" "fst x \<noteq> p" by simp_all
  then have "fst x \<in> ext'" "reg (fst x) = Some (snd x)" using assms(1,2) by auto
  then show "fst x \<in> ext' \<and> reg' (fst x) = Some (snd x)" using assms(3) [OF \<open>fst x \<noteq> p\<close>] by simp
qed

lemma roster_ok_drop:
  assumes "roster_ok (reg, ext, ls)" and "ext - {p} \<subseteq> ext'" and "ext' \<subseteq> dom reg'" and "\<And>n. n \<noteq> p \<Longrightarrow> reg' n = reg n"
  shows "roster_ok (reg', ext', map_option (map_prod (drop_owner p) (drop_owner p)) ls)"
proof (cases ls)
  case (Some l)
  obtain l1 l2 where l: "l = (l1, l2)" by (cases l)
  have r: "length l1 \<le> level_one_max" "length l2 \<le> level_two_max" "distinct (map fst (l1 @ l2))"
    "\<forall>x\<in>set (l1 @ l2). fst x \<in> ext \<and> reg (fst x) = Some (snd x)"
    using assms(1) Some l by simp_all
  have "distinct (map fst (drop_owner p (l1 @ l2)))" using r(3) by (rule distinct_map_filter)
  moreover have "length (drop_owner p l1) \<le> level_one_max" "length (drop_owner p l2) \<le> level_two_max"
    using r(1,2) length_filter_le le_trans by blast+
  ultimately show ?thesis using assms(3) drop_owner_rows [OF r(4) assms(2,4)] Some l by simp
qed (use assms in simp)

lemma roster_ok_add:
  assumes "roster_ok (reg, ext, Some (l1, l2))" and "p \<in> ext" and "reg p = Some k" and "p \<notin> fst ` set (l1 @ l2)"
  shows "length l1 < level_one_max \<Longrightarrow> roster_ok (reg, ext, Some (l1 @ [(p, k)], l2))"
    and "length l2 < level_two_max \<Longrightarrow> roster_ok (reg, ext, Some (l1, l2 @ [(p, k)]))"
  using assms by auto

subsection \<open>Every action keeps them\<close>

lemma prods_ok_frame: "roster db' = roster db \<Longrightarrow> prods_ok db' = prods_ok db"
  by (simp add: prods_ok_roster)

lemma roster_okI: "prods_ok db \<Longrightarrow> roster_ok (registered db, dom (map_of (producersext db)), snd (snd (roster db)))"
  by (simp add: prods_ok_roster roster_def)

text \<open>A producer that is removed: its rows and its entry go, and what the rows said does not matter.\<close>

lemma unlist_ok:
  assumes ok: "prods_ok db" and reg: "\<And>n. n \<noteq> p \<Longrightarrow> registered db' n = registered db n"
    and l: "all_prods db' = all_prods db" and e: "dom (map_of (producersext db')) = dom (map_of (producersext db)) - {p}"
  shows "prods_ok (rm_producer_yta p db')"
proof -
  have "dom (map_of (producersext db)) \<subseteq> dom (registered db)" using ok by (simp add: prods_ok_def ext_registered)
  then have "n \<in> dom (registered db')" if "n \<in> dom (map_of (producersext db'))" for n
  proof -
    have "n \<noteq> p" "n \<in> dom (registered db)" using that e \<open>_ \<subseteq> dom (registered db)\<close> by auto
    then show ?thesis using reg by (simp add: domIff)
  qed
  then have "dom (map_of (producersext db')) \<subseteq> dom (registered db')" by blast
  then have "roster_ok (registered db', dom (map_of (producersext db')), map_option (map_prod (drop_owner p) (drop_owner p)) (snd (snd (roster db))))"
    using e reg by (intro roster_ok_drop [OF roster_okI [OF ok]]) auto
  moreover have "snd (snd (roster db')) = snd (snd (roster db))" using l by (simp add: roster_def)
  moreover have "lists_ok a" if "all_prods db' = Some a" for a using prods_ok_lists [OF ok] that l by simp
  ultimately show ?thesis by (simp only: prods_ok_roster roster_rm)
qed

lemma unlisted:
  assumes "prods_ok db" and "map_of (producersext db) p = None" and "all_prods db = Some a"
  shows "p \<notin> yp_owner ` set (prods_l1 a @ prods_l2 a)"
proof
  assume "p \<in> yp_owner ` set (prods_l1 a @ prods_l2 a)"
  then obtain x where "x \<in> set (prods_l1 a @ prods_l2 a)" "yp_owner x = p" by blast
  then have "listed_ok db x" using assms(1,3) by (simp only: prods_ok_def option.case list_all_iff)
  then show False using assms(2) \<open>yp_owner x = p\<close> by (simp add: listed_ok_def has_key_def)
qed

lemma rm_unlisted:
  assumes "\<And>a. all_prods db = Some a \<Longrightarrow> p \<notin> yp_owner ` set (prods_l1 a @ prods_l2 a)"
  shows "rm_producer_yta p db = db"
  using assms by (cases "all_prods db") (auto simp: rm_producer_yta_def level_change_def)

lemma listing_make [simp]:
  "listing \<lparr>yp_owner = p, yp_total_votes = v, yp_producer_key = k, yp_is_active = b, yp_location = l, yp_is_in_grace = g,
     yp_grace_start_time = t\<rparr> = (p, k, b)"
  by (simp add: listing_def)

lemma registered_upd [simp]: "registered (db\<lparr>all_prods := a\<rparr>) = registered db" "registered (db\<lparr>producersext := x\<rparr>) = registered db"
  by (simp_all add: registered_def fun_eq_iff)

lemma add_producer_ok:
  assumes "prods_ok db" and "add_producer_yta p l db = Inr db'" and "has_key (producersext db) p"
    and "\<forall>a. all_prods db = Some a \<longrightarrow> p \<notin> yp_owner ` set (prods_l1 a @ prods_l2 a)"
  shows "prods_ok db'"
proof -
  define a where "a = get_or_default (all_prods db) all_prods_default"
  have r: "roster_ok (registered db, dom (map_of (producersext db)), Some (map listing (prods_l1 a), map listing (prods_l2 a)))"
    using assms(1) unfolding prods_ok_roster roster_def by (cases "all_prods db") (simp_all add: a_def all_prods_default_def)
  have n: "p \<notin> fst ` set (map listing (prods_l1 a) @ map listing (prods_l2 a))"
    using assms(4) by (cases "all_prods db") (auto simp: a_def all_prods_default_def image_image)
  obtain x where x: "map_of (producers db) p = Some x" using assms(2) by (auto simp: add_producer_yta_def)
  let ?k = "(pi_producer_key x, pi_is_active x)"
  have k: "registered db p = Some ?k" "p \<in> dom (map_of (producersext db))" using x assms(3) by (auto simp: registered_def has_key_def)
  show ?thesis
    using assms(2) x r roster_ok_add [OF r k(2,1) n] unfolding prods_ok_roster
    by (simp add: add_producer_yta_def Let_def flip: a_def del: roster_ok.simps split: if_splits)
       (auto simp: roster_def simp del: roster_ok.simps)
qed

lemma delproducer_ok:
  assumes ok: "prods_ok db" and reg: "\<And>n. n \<noteq> p \<Longrightarrow> registered db' n = registered db n"
    and l: "all_prods db' = all_prods db" and e: "producersext db' = producersext db"
  shows "prods_ok (delproducer p db')"
proof -
  define d where "d = (case map_of (producers db') p of None \<Rightarrow> db'
    | Some r \<Rightarrow> (on_gs (\<lambda>g. g\<lparr>total_unpaid_blocks := total_unpaid_blocks g - pi_unpaid_blocks r,
        total_producer_vote_weight := fsub (total_producer_vote_weight g) (pi_total_votes r)\<rparr>) db')\<lparr>producers := tdel p (producers db')\<rparr>)"
  have d: "all_prods d = all_prods db" "producersext d = producersext db" "\<And>n. n \<noteq> p \<Longrightarrow> registered d n = registered db n"
    using l e reg by (auto simp: d_def registered_def split: option.splits)
  show ?thesis
  proof (cases "map_of (producersext db) p")
    case None
    have "prods_ok (rm_producer_yta p d)"
      by (rule unlist_ok [OF ok d(3,1)]) (use d(2) None in auto)
    then have "prods_ok d" using rm_unlisted unlisted [OF ok None] d(1) by metis
    then show ?thesis using None d(2) by (simp add: delproducer_def Let_def flip: d_def)
  next
    case (Some x)
    let ?d = "(on_gs2 (\<lambda>g. g\<lparr>total_unpaid_base_cnt := total_unpaid_base_cnt g - px_unpaid_base_cnt x\<rparr>) d)\<lparr>producersext := tdel p (producersext d)\<rparr>"
    have "prods_ok (rm_producer_yta p ?d)"
      by (rule unlist_ok [OF ok]) (use d in \<open>auto simp: registered_def\<close>)
    then show ?thesis using Some d(2) by (simp add: delproducer_def Let_def flip: d_def)
  qed
qed

lemma relist_ok:
  assumes ok: "prods_ok db" and x: "map_of (producers db) p = Some x" and l: "all_prods db' = all_prods db"
    and e: "producersext db' = producersext db" and r: "registered db' = (registered db)(p \<mapsto> (k, b))"
  shows "prods_ok (level_change p (\<lambda>x. [x\<lparr>yp_is_active := b, yp_producer_key := k\<rparr>]) db')"
proof -
  let ?f = "map (\<lambda>x. if fst x = p then (p, k, b) else x)"
  let ?lc = "level_change p (\<lambda>x. [x\<lparr>yp_is_active := b, yp_producer_key := k\<rparr>]) db'"
  have lc: "roster ?lc = ((registered db)(p \<mapsto> (k, b)), dom (map_of (producersext db)), map_option (map_prod ?f ?f) (snd (snd (roster db))))"
  proof (cases "all_prods db")
    case None
    then show ?thesis using l e r by (simp add: level_change_def roster_def)
  next
    case (Some a)
    then have "all_prods db' = Some a" using l by simp
    then show ?thesis using level_change_both [OF _ prods_ok_lists [OF ok Some]] Some e r by (simp add: roster_def on_owner_set)
  qed
  have f: "map fst (?f xs) = map fst xs" for xs by (induction xs) auto
  have "roster_ok ((registered db)(p \<mapsto> (k, b)), dom (map_of (producersext db)), map_option (map_prod ?f ?f) ls)"
    if "roster_ok (registered db, dom (map_of (producersext db)), ls)" for ls
    using that f by (cases "(registered db, dom (map_of (producersext db)), ls)" rule: roster_ok.cases) (auto simp flip: map_append simp del: map_map)
  then show ?thesis using roster_okI [OF ok] lc by (simp only: prods_ok_roster)
qed

lemma regproducer_ok:
  assumes ok: "prods_ok (syst w)" and run: "regproducer c p k u l w = Inr w'"
  shows "prods_ok (syst w')"
proof (cases "map_of (producers (syst w)) p")
  case None
  then have w': "producersext (syst w') = producersext (syst w)" "all_prods (syst w') = all_prods (syst w)"
    "registered (syst w') = (registered (syst w))(p \<mapsto> (k, True))"
    using run by (auto simp: regproducer_def require_auth_def registered_def fun_eq_iff Let_def split: if_splits)
  have e: "map_of (producersext (syst w)) p = None"
    using ok None unfolding prods_ok_def ext_registered by (auto simp: registered_def domIff)
  have "prods_ok (rm_producer_yta p (syst w'))" by (rule unlist_ok [OF ok]) (use w' e in auto)
  then show ?thesis using rm_unlisted [of "syst w'" p] unlisted [OF ok e] w'(2) by simp
next
  case (Some x)
  let ?db = "(syst w)\<lparr>producers := tput p (x\<lparr>pi_producer_key := k, pi_is_active := True, pi_url := u, pi_location := l\<rparr>) (producers (syst w))\<rparr>"
  have "syst w' = level_change p (\<lambda>x. [x\<lparr>yp_is_active := True, yp_producer_key := k\<rparr>]) ?db"
    using run Some by (auto simp: regproducer_def require_auth_def change_producer_yta_info_def Let_def split: if_splits)
  then show ?thesis using relist_ok [OF ok Some, of ?db k True] by (simp add: registered_def fun_eq_iff)
qed

lemma rmvproducer_ok:
  assumes ok: "prods_ok (syst w)" and run: "rmvproducer c p w = Inr w'"
  shows "prods_ok (syst w')"
proof -
  obtain x where "syst w' = delproducer p ((syst w)\<lparr>producers := tput p x (producers (syst w))\<rparr>)"
    using run by (auto simp: rmvproducer_def require_auth_def change_producer_yta_info_def Let_def split: if_splits)
  then show ?thesis using delproducer_ok [OF ok] by (auto simp: registered_def)
qed

lemma rm_then_absent:
  assumes "\<And>a. all_prods db = Some a \<Longrightarrow> lists_ok a" and "all_prods (rm_producer_yta p db) = Some a"
  shows "p \<notin> yp_owner ` set (prods_l1 a @ prods_l2 a)"
proof -
  obtain l1 l2 where "map listing (prods_l1 a) = drop_owner p l1" "map listing (prods_l2 a) = drop_owner p l2"
    using roster_rm [of db p] assms by (cases "all_prods db") (auto simp: roster_def)
  then have "map listing (prods_l1 a @ prods_l2 a) = drop_owner p (l1 @ l2)" by simp
  then have "set (map listing (prods_l1 a @ prods_l2 a)) = set (drop_owner p (l1 @ l2))" by presburger
  then have "p \<notin> fst ` set (map listing (prods_l1 a @ prods_l2 a))" by auto
  then show ?thesis by (simp add: image_Un image_image)
qed

lemma seqproducer_ok:
  assumes ok: "prods_ok (syst w)" and run: "seqproducer c p s q l w = Inr w'"
  shows "prods_ok (syst w')"
proof -
  have pr: "registered (syst w) p \<noteq> None"
    using run by (auto simp: seqproducer_def require_auth_def registered_def has_key_def split: if_splits)
  have lk: "lists_ok a" if "all_prods (syst w) = Some a" for a using prods_ok_lists [OF ok that] .
  obtain x where x: "add_producer_yta p l (rm_producer_yta p ((syst w)\<lparr>producersext := tput p x (producersext (syst w))\<rparr>)) = Inr (syst w')"
  proof (cases "map_of (producersext (syst w)) p")
    case None
    have "rm_producer_yta p ((syst w)\<lparr>producersext := y\<rparr>) = (syst w)\<lparr>producersext := y\<rparr>" for y
      by (rule rm_unlisted) (use unlisted [OF ok None] in simp)
    then show ?thesis using None run that by (auto simp: seqproducer_def require_auth_def on_sys_def split: if_splits)
  next
    case (Some y)
    then show ?thesis using run that by (auto simp: seqproducer_def require_auth_def on_sys_def split: if_splits)
  qed
  let ?d = "(syst w)\<lparr>producersext := tput p x (producersext (syst w))\<rparr>"
  have "roster_ok (registered ?d, dom (map_of (producersext ?d)), map_option (map_prod (drop_owner p) (drop_owner p)) (snd (snd (roster ?d))))"
    using roster_ok_drop [OF roster_okI [OF ok], of p "dom (map_of (producersext ?d))" "registered ?d"] ok pr
    unfolding prods_ok_def ext_registered by (simp add: roster_def domIff) blast
  then have "prods_ok (rm_producer_yta p ?d)" using roster_rm [of ?d p] lk by (simp add: prods_ok_roster)
  then show ?thesis using x
  proof (rule add_producer_ok)
    show "has_key (producersext (rm_producer_yta p ?d)) p" by (simp add: has_key_def rm_producer_yta_def)
    show "\<forall>a. all_prods (rm_producer_yta p ?d) = Some a \<longrightarrow> p \<notin> yp_owner ` set (prods_l1 a @ prods_l2 a)"
      using rm_then_absent [of ?d] lk by simp
  qed
qed

subsection \<open>Levels\<close>

text \<open>What the lists need of \<open>std::sort\<close>: it keeps the entries.\<close>

definition sorts :: "ctx \<Rightarrow> bool" where
  "sorts c \<longleftrightarrow> (\<forall>xs. mset (sort_votes c xs) = mset xs)"

lemma sortsD: "sorts c \<Longrightarrow> mset (sort_votes c xs) = mset xs"
  by (simp add: sorts_def)

lemma grace_step_listing: "grace_step ct m x = Inr (Some y, ch) \<Longrightarrow> listing y = listing x"
  by (auto simp: grace_step_def Let_def listing_def split: if_splits)

lemma grace_loop_listing: "grace_loop ct m xs = Inr (ys, ch) \<Longrightarrow> mset (map listing ys) \<subseteq># mset (map listing xs) \<and> length ys \<le> length xs"
proof (induction xs arbitrary: ys ch)
  case (Cons x xs)
  then obtain q ch1 qs ch2 where r: "grace_step ct m x = Inr (q, ch1)" "grace_loop ct m xs = Inr (qs, ch2)"
    "ys = (case q of None \<Rightarrow> qs | Some q \<Rightarrow> q # qs)" by auto
  have "mset (map listing qs) \<subseteq># mset (map listing xs)" "length qs \<le> length xs" using Cons.IH [OF r(2)] by simp_all
  then show ?case using r(1,3) by (cases q) (auto simp: grace_step_listing subset_mset.add_increasing2 intro: subset_mset.order_trans)
qed simp

lemma promote_mset:
  "length l1 \<le> level_one_max \<Longrightarrow>
     keeps (\<lambda>(a, b, ch). mset (a @ b) = mset (l1 @ l2) \<and> length a \<le> level_one_max \<and> length b \<le> length l2) (promote l1 l2)"
proof (induction l2 arbitrary: l1)
  case (Cons p ps)
  have "keeps (\<lambda>(a, b, ch). mset (a @ b) = mset (l1 @ p # ps) \<and> length a \<le> level_one_max \<and> length b \<le> length ps) (promote (l1 @ [p]) ps)"
    if "length l1 < level_one_max" using Cons.IH [of "l1 @ [p]"] that by simp
  then show ?case using Cons.IH [OF Cons.prems] Cons.prems by (force simp: keeps_def)
qed (simp add: keeps_def)

text \<open>Lists made of entries of the old ones, none taken twice, are as good.\<close>

lemma distinct_submset:
  assumes "mset xs \<subseteq># mset ys" and "distinct ys"
  shows "distinct xs"
  unfolding distinct_count_atmost_1
proof
  fix x
  have n: "n = (if b then 1 else 0)" if "n \<le> 1" "0 < n \<longleftrightarrow> b" for n :: nat and b using that by (cases b) simp_all
  have "count (mset ys) x \<le> 1" using assms(2) unfolding distinct_count_atmost_1 by simp
  then have "count (mset xs) x \<le> 1" using mset_subset_eq_count [OF assms(1), of x] by simp
  then show "count (mset xs) x = (if x \<in> set xs then 1 else 0)" by (rule n) simp
qed

lemma roster_ok_sub:
  assumes ok: "roster_ok (reg, ext, Some (l1, l2))" and m: "mset (a @ b) \<subseteq># mset (l1 @ l2)"
    and "length a \<le> level_one_max" and "length b \<le> level_two_max"
  shows "roster_ok (reg, ext, Some (a, b))"
proof -
  have "mset (map fst (a @ b)) \<subseteq># mset (map fst (l1 @ l2))" unfolding mset_map by (rule image_mset_subseteq_mono [OF m])
  then have "distinct (map fst (a @ b))" by (rule distinct_submset) (use ok in simp)
  moreover have "set (a @ b) \<subseteq> set (l1 @ l2)" using set_mset_mono [OF m] by simp
  ultimately show ?thesis using ok assms(3,4) by (simp only: roster_ok.simps) blast
qed

lemma update_producer_level_ok:
  assumes ok: "prods_ok db" and c: "sorts c" and run: "update_producer_level c db = Inr db'"
  shows "prods_ok db'"
proof (cases "all_prods db")
  case None
  then show ?thesis using ok run by (simp add: update_producer_level_def)
next
  case (Some a)
  obtain l1 l2 ch1 ch2 m1 m2 ch3 where r: "grace_loop (current_time c) 50000000000 (prods_l1 a) = Inr (l1, ch1)"
    "grace_loop (current_time c) 20000000000 (prods_l2 a) = Inr (l2, ch2)"
    "(if length l1 < level_one_max then promote l1 (sort_votes c l2) else Inr (l1, l2, False)) = Inr (m1, m2, ch3)"
    "db' = (if ch1 \<or> ch2 \<or> ch3 then db\<lparr>all_prods := Some (a\<lparr>prods_l1 := m1, prods_l2 := m2\<rparr>)\<rparr> else db)"
    using run Some by (auto simp: update_producer_level_def)
  have k: "roster_ok (registered db, dom (map_of (producersext db)), Some (map listing (prods_l1 a), map listing (prods_l2 a)))"
    using roster_okI [OF ok] Some by (simp add: roster_def)
  note g = grace_loop_listing [OF r(1)] grace_loop_listing [OF r(2)]
  have s: "mset (sort_votes c l2) = mset l2" "length (sort_votes c l2) = length l2"
    using sortsD [OF c] mset_eq_length by blast+
  have l: "length l1 \<le> level_one_max" "length l2 \<le> level_two_max" using g k by auto
  have "mset (m1 @ m2) = mset (l1 @ l2) \<and> length m1 \<le> level_one_max \<and> length m2 \<le> length l2"
    using r(3) keepsD [OF promote_mset [OF l(1), of "sort_votes c l2"]] s l(1) by (auto split: if_splits)
  then have m: "mset (m1 @ m2) = mset (l1 @ l2)" "length m1 \<le> level_one_max" "length m2 \<le> level_two_max" using l(2) by simp_all
  have "mset (map listing m1 @ map listing m2) = mset (map listing l1) + mset (map listing l2)"
    using arg_cong [OF m(1), of "image_mset listing"] by simp
  also have "\<dots> \<subseteq># mset (map listing (prods_l1 a) @ map listing (prods_l2 a))" using g by (simp add: subset_mset.add_mono)
  finally have "mset (map listing m1 @ map listing m2) \<subseteq># mset (map listing (prods_l1 a) @ map listing (prods_l2 a))" .
  then have "roster_ok (registered db, dom (map_of (producersext db)), Some (map listing m1, map listing m2))"
    by (rule roster_ok_sub [OF k]) (simp_all add: m)
  then show ?thesis using r(4) ok by (simp add: prods_ok_roster roster_def)
qed

subsection \<open>All actions\<close>

lemma prods_ok_holdings: "holdings db' = holdings db \<Longrightarrow> prods_ok db \<Longrightarrow> prods_ok db'"
  by (simp add: holdings_def prods_ok_roster)

text \<open>The fields that the lists do not depend on.\<close>

lemma registered_frame [simp]:
  "registered (on_gs f db) = registered db" "registered (on_gs2 f2 db) = registered db" "registered (db\<lparr>rammarket := x1\<rparr>) = registered db"
  "registered (db\<lparr>userres := x2\<rparr>) = registered db" "registered (db\<lparr>namebids := x3\<rparr>) = registered db" "registered (db\<lparr>delband := x4\<rparr>) = registered db"
  "registered (db\<lparr>refunds := x5\<rparr>) = registered db" "registered (db\<lparr>gsystem3 := x6\<rparr>) = registered db" "registered (db\<lparr>proposed := x7\<rparr>) = registered db"
  "registered (db\<lparr>privileged := x8\<rparr>) = registered db" "registered (db\<lparr>chain_params := x9\<rparr>) = registered db" "registered (db\<lparr>gcount := x10\<rparr>) = registered db"
  "registered (db\<lparr>voters := x11\<rparr>) = registered db"
  by (simp_all add: registered_def fun_eq_iff)

lemma roster_frame [simp]:
  "roster (on_gs f db) = roster db" "roster (on_gs2 f2 db) = roster db" "roster (db\<lparr>rammarket := x1\<rparr>) = roster db"
  "roster (db\<lparr>userres := x2\<rparr>) = roster db" "roster (db\<lparr>namebids := x3\<rparr>) = roster db" "roster (db\<lparr>delband := x4\<rparr>) = roster db"
  "roster (db\<lparr>refunds := x5\<rparr>) = roster db" "roster (db\<lparr>gsystem3 := x6\<rparr>) = roster db" "roster (db\<lparr>proposed := x7\<rparr>) = roster db"
  "roster (db\<lparr>privileged := x8\<rparr>) = roster db" "roster (db\<lparr>chain_params := x9\<rparr>) = roster db" "roster (db\<lparr>gcount := x10\<rparr>) = roster db"
  "roster (db\<lparr>voters := x11\<rparr>) = roster db"
  by (simp_all add: roster_def)

lemma prods_ok_upd [simp]:
  "prods_ok (on_gs f db) = prods_ok db" "prods_ok (on_gs2 f2 db) = prods_ok db" "prods_ok (db\<lparr>rammarket := x1\<rparr>) = prods_ok db"
  "prods_ok (db\<lparr>userres := x2\<rparr>) = prods_ok db" "prods_ok (db\<lparr>namebids := x3\<rparr>) = prods_ok db" "prods_ok (db\<lparr>delband := x4\<rparr>) = prods_ok db"
  "prods_ok (db\<lparr>refunds := x5\<rparr>) = prods_ok db" "prods_ok (db\<lparr>gsystem3 := x6\<rparr>) = prods_ok db" "prods_ok (db\<lparr>proposed := x7\<rparr>) = prods_ok db"
  "prods_ok (db\<lparr>privileged := x8\<rparr>) = prods_ok db" "prods_ok (db\<lparr>chain_params := x9\<rparr>) = prods_ok db" "prods_ok (db\<lparr>gcount := x10\<rparr>) = prods_ok db"
  "prods_ok (db\<lparr>voters := x11\<rparr>) = prods_ok db"
  by (simp_all add: prods_ok_roster)

abbreviation ok_world :: "world \<Rightarrow> bool" where
  "ok_world w \<equiv> prods_ok (syst w)"

lemma update_votes_ok: "ok_world w \<Longrightarrow> keeps ok_world (update_votes c n p ps v w)"
  using prods_ok_holdings [OF update_votes_holdings] by (simp add: keeps_def)

lemma revote_ok: "ok_world w \<Longrightarrow> keeps ok_world (revote c n v w)"
  using prods_ok_holdings [OF revote_holdings] by (simp add: keeps_def)

lemma change_refund_ok: "prods_ok db \<Longrightarrow> keeps (\<lambda>(db, _). prods_ok db) (change_refund c f n u db)"
  unfolding change_refund_def by (intro keeps_base keeps_case keeps_any keeps_both_nonneg) simp_all

lemma change_refund_and_pay_ok:
  assumes "ok_world w"
  shows "keeps ok_world (change_refund_and_pay c s f r n u t w)"
  unfolding change_refund_and_pay_def Let_def
proof (rule keeps_rbind [where Q = "\<lambda>(db, _). prods_ok db"])
  show "keeps (\<lambda>(db, _). prods_ok db) (if (\<not> t \<and> f = r) \<or> i64 (amount n + amount u) < 0 then change_refund c f n u (syst w) else Inr (syst w, n, u, False))"
    using change_refund_ok [OF assms] assms by (intro keeps_case keeps_base) simp_all
qed (auto simp: cancel_deferred_def defer_refund_def intro!: keeps_any keeps_case keeps_transfer keeps_base)

lemma changebw_ok:
  assumes "ok_world w"
  shows "keeps ok_world (changebw c s r n u t w)"
proof -
  have q: "keeps ok_world (rbind (change_staked m x (syst w)) (\<lambda>(db, voter). revote c m voter (w\<lparr>syst := db\<rparr>)))" if "ok_world w" for m x w
  proof (rule keeps_rbind [where Q = "\<lambda>(db, _). prods_ok db"])
    show "keeps (\<lambda>(db, _). prods_ok db) (change_staked m x (syst w))"
      unfolding change_staked_def Let_def using that by (intro keeps_base) simp
  qed (auto intro!: revote_ok)
  have pq: "keeps ok_world (rbind (if b then change_refund_and_pay c s f r n u t w else Inr w) (\<lambda>w.
      rbind (change_staked m x (syst w)) (\<lambda>(db, voter). revote c m voter (w\<lparr>syst := db\<rparr>))))" if "ok_world w" for b f m x w
    using change_refund_and_pay_ok [OF that] that by (intro keeps_rbind [where Q = ok_world, OF _ q] keeps_case keeps_base)
  have d: "keeps ok_world (on_sys (change_delband f r n u) w)" "keeps ok_world (on_sys (change_totals r n u) w)" if "ok_world w" for f w
    using that by (auto simp: keeps_def on_sys_def change_delband_def change_totals_def both_nonneg_def)
  note e = keeps_rbind [OF d(1) [OF assms] keeps_rbind [OF d(2) pq]]
  show ?thesis unfolding changebw_def Let_def by (rule e keeps_base keeps_yta_account keeps_any)+
qed

lemma pay_one_ok:
  assumes "ok_world (snd s)"
  shows "keeps (\<lambda>s. ok_world (snd s)) (pay_one c m tp b k tw v p s)"
  using assms unfolding pay_one_def Let_def by (cases s) (auto simp: keeps_def send_transfer_def send_def split: if_splits)

lemma rewardprods_ok:
  assumes "ok_world w"
  shows "keeps ok_world (rewardprods c w)"
proof -
  have b: "keeps ok_world (fill_buckets c t w)" if "ok_world w" for t w
    unfolding fill_buckets_def Let_def using that by (intro keeps_rbind_world keeps_transfer keeps_any keeps_base) simp
  have a: "keeps (\<lambda>s. ok_world (snd s)) (pay_all (pay_one c m tp b k tw v) ps s)" if "ok_world (snd s)" for m tp b k tw v ps s
    by (rule pay_all_keeps [where R = "\<lambda>s. ok_world (snd s)", OF pay_one_ok that])
  have p: "keeps ok_world (pay_producers c x w)" if "ok_world w" for x w
    unfolding pay_producers_def Let_def
    by (rule keeps_rbind [OF a keeps_rbind [OF a]]) (use that in \<open>auto simp: keeps_def\<close>)
  have q: "keeps ok_world (rbind (if u then rbind (new_tokens s t) (\<lambda>n. fill_buckets c n w) else Inr w) (pay_producers c x))" if "ok_world w" for u s t x w
    by (rule keeps_rbind [where Q = ok_world, OF _ p]) (use that in \<open>auto intro!: keeps_any b keeps_base\<close>)
  show ?thesis unfolding rewardprods_def Let_def by (rule q keeps_base keeps_case keeps_any | simp add: assms)+
qed

lemma schedule_ok: "prods_ok db \<Longrightarrow> keeps prods_ok (update_elected_producers_yta c t db)"
  by (auto simp: keeps_def update_elected_producers_yta_def set_proposed_producers_def Let_def split: option.splits if_splits)

lemma close_auction_ok [simp]: "prods_ok (close_auction c t db) = prods_ok db"
  by (auto simp: close_auction_def split: option.splits prod.splits)

lemma onblock_ok: "ok_world w \<Longrightarrow> keeps ok_world (onblock c t p w)"
  using keepsD [OF schedule_ok] unfolding onblock_def
  by (intro keeps_base keeps_case keeps_world keeps_on_sys) auto

lemma market_ok:
  assumes "ok_world w"
  shows "keeps ok_world (buyram c p r q w)" "keeps ok_world (sellram c p b w)" "keeps ok_world (setram c z w)" "keeps ok_world (system_ctor w)"
proof -
  show "keeps ok_world (buyram c p r q w)" unfolding buyram_def add_ram_def Let_def
    by (intro keeps_base keeps_yta_account keeps_transfer keeps_rbind_if keeps_any keeps_case) (use assms in simp_all)
  show "keeps ok_world (sellram c p b w)" unfolding sellram_def Let_def
    by (intro keeps_base keeps_yta_account keeps_transfer keeps_rbind_if keeps_any keeps_case) (use assms in simp_all)
  show "keeps ok_world (setram c z w)" unfolding setram_def Let_def by (intro keeps_base) (use assms in simp)
  show "keeps ok_world (system_ctor w)" unfolding system_ctor_def Let_def
    by (intro keeps_base keeps_case keeps_any) (use assms in simp_all)
qed

lemma names_ok:
  assumes "ok_world w"
  shows "keeps ok_world (bidname c b n q w)" "keeps ok_world (newaccount cr n w)"
proof -
  show "keeps ok_world (bidname c b n q w)" unfolding bidname_def Let_def
    by (intro keeps_base keeps_transfer keeps_case keeps_any) (use assms in simp_all)
  show "keeps ok_world (newaccount cr n w)"
    using assms by (auto simp: keeps_def newaccount_def on_sys_def claim_name_def split: if_splits)
qed

lemma producer_actions_ok:
  assumes "ok_world w" and "sorts c"
  shows "keeps ok_world (regproducer c p k u l w)" "keeps ok_world (rmvproducer c p w)" "keeps ok_world (seqproducer c p s q lv w)"
    "keeps ok_world (reprodlevel c w)"
  using regproducer_ok [OF assms(1)] rmvproducer_ok [OF assms(1)] seqproducer_ok [OF assms(1)] update_producer_level_ok [OF assms] assms(1)
  by (auto simp: keeps_def reprodlevel_def require_auth_def on_sys_def split: if_splits)

lemma system_action_ok:
  assumes w: "ok_world w" and c: "sorts c"
  shows "keeps ok_world (system_action c a w)"
proof -
  note k = market_ok [OF w] names_ok [OF w] producer_actions_ok [OF w c] update_votes_ok [OF w] revote_ok [OF w]
    changebw_ok [OF w] rewardprods_ok [OF w] onblock_ok [OF w]
  show ?thesis
    by (cases a; simp only: system_action.simps changevotes_def voteproducer_def unregprod_def setautosche_def regproxy_def
        buyrambytes_def delegatebw_def undelegatebw_def refund_def claimrewards_def startreward_def setparams_def setpriv_def Let_def)
       (rule k keeps_base keeps_case keeps_transfer keeps_any | simp add: w)+
qed

theorem system_apply_ok:
  assumes "prods_ok (syst w)" and "sorts c" and "system_apply c a w = Inr w'"
  shows "prods_ok (syst w')"
proof -
  have "keeps ok_world (system_apply c a w)" unfolding system_apply_def
    using market_ok(4) [OF assms(1)] system_action_ok [OF _ assms(2)] by (rule keeps_rbind)
  then show ?thesis using assms(3) by (rule keepsD)
qed

subsection \<open>The schedule\<close>

lemma listing_schedule: "map (\<lambda>x. fst (fst (schedule_entry x))) xs = map yp_owner xs"
  by (simp add: schedule_entry_def)

lemma top_producers_ok:
  assumes ok: "prods_ok db" and c: "sorts c" and a: "all_prods db = Some a"
  shows "length (top_producers c s a) \<le> 21" and "distinct (map (fst \<circ> fst) (top_producers c s a))"
    and "((n, k), l) \<in> set (top_producers c s a) \<Longrightarrow> \<exists>b. registered db n = Some (k, b)"
proof -
  have l: "lists_ok a" using prods_ok_lists [OF ok a] .
  have m: "mset (sort_votes c (prods_l2 a)) = mset (prods_l2 a)" by (rule sortsD [OF c])
  then have st: "set (sort_votes c (prods_l2 a)) = set (prods_l2 a)" by (rule mset_eq_setD)
  define t where "t = (if max_l2 s > 0 \<and> length (prods_l1 a) < 21
    then take (min (21 - length (prods_l1 a)) (unat (max_l2 s))) (sort_votes c (prods_l2 a)) else [])"
  have top: "top_producers c s a = map schedule_entry (prods_l1 a @ t)" by (simp add: top_producers_def t_def Let_def)
  have ts: "set t \<subseteq> set (prods_l2 a)" using st by (auto simp: t_def dest: in_set_takeD)
  show "length (top_producers c s a) \<le> 21" using l by (auto simp: top t_def lists_ok_def level_one_max_def)
  have "distinct (map yp_owner (sort_votes c (prods_l2 a)))"
  proof -
    have "mset (map yp_owner (sort_votes c (prods_l2 a))) = mset (map yp_owner (prods_l2 a))" using m by simp
    then show ?thesis using l mset_eq_imp_distinct_iff unfolding lists_ok_def by fastforce
  qed
  then have "distinct (map yp_owner t)" by (simp add: t_def take_map [symmetric] distinct_take)
  moreover have "yp_owner ` set (prods_l1 a) \<inter> yp_owner ` set t = {}" using l ts by (fastforce simp: lists_ok_def)
  ultimately have "distinct (map yp_owner (prods_l1 a @ t))" using l by (simp add: lists_ok_def)
  then show "distinct (map (fst \<circ> fst) (top_producers c s a))"
    by (simp only: top map_map comp_def listing_schedule)
  assume "((n, k), l) \<in> set (top_producers c s a)"
  then have "((n, k), l) \<in> schedule_entry ` set (prods_l1 a @ t)" by (simp only: top set_map)
  then obtain x where "x \<in> set (prods_l1 a @ t)" and x2: "schedule_entry x = ((n, k), l)" by (metis imageE)
  then have x: "x \<in> set (prods_l1 a @ prods_l2 a)" using ts by auto
  then have "listed_ok db x" using ok a by (simp only: prods_ok_def option.case list_all_iff)
  then show "\<exists>b. registered db n = Some (k, b)" using x2 by (auto simp: listed_ok_def schedule_entry_def)
qed

lemma sorted_by_name:
  "sorted (map (\<lambda>((n, k), l). (n, l)) xs) \<Longrightarrow> distinct (map (fst \<circ> fst) xs) \<Longrightarrow> sorted_wrt (<) (map fst (map fst xs))"
proof (induction xs)
  case (Cons x xs)
  have "fst (fst x) < fst (fst y)" if "y \<in> set xs" for y
  proof -
    have "(fst (fst x), snd x) \<le> (fst (fst y), snd y)" using Cons.prems(1) that by (force simp: case_prod_beta)
    moreover have "fst (fst x) \<noteq> fst (fst y)" using Cons.prems(2) that by force
    ultimately show ?thesis by (auto simp: less_eq_prod_def)
  qed
  then show ?case using Cons by auto
qed simp

lemma schedule_accepted:
  assumes ok: "prods_ok db" and c: "sorts c"
    and reg: "\<And>n k b. registered db n = Some (k, b) \<Longrightarrow> is_account c n \<and> key_valid c k"
  obtains db' where "update_elected_producers_yta c t db = Inr db'"
    "proposed db' = proposed db \<or> (\<exists>ps. proposed db' = Some ps \<and> length ps \<le> 21 \<and> sorted_wrt (<) (map fst ps)
       \<and> (\<forall>(n, k)\<in>set ps. \<exists>b. registered db n = Some (k, b)))"
proof (cases "all_prods db")
  case None
  then have "update_elected_producers_yta c t db = Inr (on_gs (\<lambda>g. g\<lparr>last_producer_schedule_update := t\<rparr>) db)"
    by (simp add: update_elected_producers_yta_def Let_def)
  then show ?thesis using that by fastforce
next
  case (Some a)
  let ?db = "on_gs (\<lambda>g. g\<lparr>last_producer_schedule_update := t\<rparr>) db"
  let ?s = "get_or_default (gsystem3 db) global3_default"
  let ?key = "\<lambda>((n, k), l). (n, l)"
  define top where "top = top_producers c ?s a"
  define ps where "ps = map fst (sort_key ?key top)"
  note tp = top_producers_ok [OF ok c Some, where s = ?s, folded top_def]
  have l: "length ps \<le> 21" using tp(1) by (simp add: ps_def)
  have ms: "mset (map (fst \<circ> fst) (sort_key ?key top)) = mset (map (fst \<circ> fst) top)" by simp
  have "distinct (map (fst \<circ> fst) (sort_key ?key top))" using tp(2) mset_eq_imp_distinct_iff [OF ms] by blast
  then have st: "sorted_wrt (<) (map fst ps)" unfolding ps_def by (intro sorted_by_name sorted_sort_key)
  have r: "\<exists>b. registered db n = Some (k, b)" if "(n, k) \<in> set ps" for n k using that tp(3) by (force simp: ps_def)
  have "distinct (map fst ps)" using st strict_sorted_iff by blast
  moreover have "list_all (\<lambda>(n, k). is_account c n) ps" "list_all (\<lambda>(n, k). key_valid c k) ps"
    using r reg unfolding list_all_iff by blast+
  ultimately have "set_proposed_producers c ps ?db = (if takes_schedule c ps then Inr (?db\<lparr>proposed := Some ps\<rparr>, True) else Inr (?db, False))"
    using l by (simp add: set_proposed_producers_def max_producers_def)
  then have "update_elected_producers_yta c t db = Inr (if is_schedule ?s \<and> \<not> length (prods_l1 a) < unat (min_l1 ?s) \<and> takes_schedule c ps
      then on_gs (\<lambda>g. g\<lparr>last_producer_schedule_size := of_nat (length top)\<rparr>) (?db\<lparr>proposed := Some ps\<rparr>) else ?db)"
    using Some unfolding update_elected_producers_yta_def Let_def top_def ps_def by simp blast
  then have "\<exists>db'. update_elected_producers_yta c t db = Inr db' \<and> (proposed db' = proposed db \<or> proposed db' = Some ps)" by simp
  then obtain db' where db': "update_elected_producers_yta c t db = Inr db'" "proposed db' = proposed db \<or> proposed db' = Some ps" by blast
  moreover have "\<forall>(n, k)\<in>set ps. \<exists>b. registered db n = Some (k, b)" using r by auto
  ultimately have "proposed db' = proposed db \<or> (\<exists>ps. proposed db' = Some ps \<and> length ps \<le> 21 \<and> sorted_wrt (<) (map fst ps)
       \<and> (\<forall>(n, k)\<in>set ps. \<exists>b. registered db n = Some (k, b)))" using l st by blast
  then show ?thesis by (rule that [OF db'(1)])
qed

subsection \<open>The chain\<close>

text \<open>The storage contracts do not write the tables of the system, and the chain does not let any other code do so.\<close>

lemma pool_groups_others:
  "keeps (others w) (pool_user_apply c a1 w)" "keeps (others w) (pool_miner_apply c a2 w)" "keeps (others w) (pool_change_apply c a3 w)"
  "keeps (others w) (pool_param_apply c a4 w)" "keeps (others w) (pool_reward_apply c a5 w)"
proof -
  show "keeps (others w) (pool_user_apply c a1 w)"
    by (cases a1; simp only: pool_user_apply.simps user_defs Let_def; intro pool_intros; simp)
  show "keeps (others w) (pool_miner_apply c a2 w)"
    by (cases a2; simp only: pool_miner_apply.simps miner_defs Let_def; intro pool_intros; simp)
  show "keeps (others w) (pool_change_apply c a3 w)"
    by (cases a3; simp only: pool_change_apply.simps change_defs Let_def; intro pool_intros; simp split: option.splits)
  show "keeps (others w) (pool_param_apply c a4 w)" using pool_param_apply_frame by (simp add: keeps_def others_def)
  have "paying w w' \<Longrightarrow> others w w'" "frame w w' \<Longrightarrow> others w w'" for w' by (simp_all add: paying_def frame_def)
  then show "keeps (others w) (pool_reward_apply c a5 w)" unfolding keeps_def
    by (cases a5; simp only: pool_reward_apply.simps; blast dest: onbuild_others onreward_paying payment_calm startnewm_calm calm_paying)
qed

lemma pool_syst: "hddpool_apply c a w = Inr w' \<Longrightarrow> syst w' = syst w"
  using keepsD [OF pool_groups_others(1)] keepsD [OF pool_groups_others(2)] keepsD [OF pool_groups_others(3)]
    keepsD [OF pool_groups_others(4)] keepsD [OF pool_groups_others(5)]
  by (cases a) (force simp: hddpool_apply_def Let_def others_def)+

lemma code_syst:
  "token_code c a w = Inr w' \<Longrightarrow> syst w' = syst w" "lock_code c a w = Inr w' \<Longrightarrow> syst w' = syst w"
  "deposit_code c a w = Inr w' \<Longrightarrow> syst w' = syst w" "pool_code c a w = Inr w' \<Longrightarrow> syst w' = syst w"
  "channel_code c a w = Inr w' \<Longrightarrow> syst w' = syst w"
  by (auto simp: token_code_def lock_code_def deposit_code_def pool_code_def channel_code_def
        split: if_splits payload.splits token_act.splits
        dest: token_apply_tables hddlock_apply_frame hdddeposit_apply_frame pool_syst channel_apply_frame(5) transfercore_frame(5))

definition foreign_syst :: "code \<Rightarrow> bool" where
  "foreign_syst f \<longleftrightarrow> (\<forall>c n a w w'. f c n a w = Inr w' \<longrightarrow> syst w' = syst w)"

lemma no_code_syst: "foreign_syst no_code"
  by (simp add: foreign_syst_def no_code_def)

lemma system_code_ok:
  assumes "ok_world w" and "sorts c" and "system_code c a w = Inr w'"
  shows "ok_world w'"
  using assms system_apply_ok [OF assms(1,2)] keepsD [OF market_ok(4) [OF assms(1)]]
  by (auto simp: system_code_def split: if_splits payload.splits)

lemma roster_code_ok:
  assumes "foreign_syst f" and "ok_world w" and "sorts c" and "contract_code (with_system f) c n a w = Inr w'"
  shows "ok_world w'"
proof (cases "n = system_account \<and> system_code c a w = Inr w'")
  case False
  then have "syst w' = syst w"
    using assms(1,4) by (auto simp: contract_code_def with_system_def foreign_syst_def dest: code_syst split: if_splits)
  then show ?thesis using assms(2) by simp
qed (use system_code_ok [OF assms(2,3)] in blast)

lemma roster_chain: "foreign_syst f \<Longrightarrow> keeping_chain (contract_code (with_system f)) sorts ok_world (\<lambda>_. True)"
  by unfold_locales (auto simp: sorts_def intro: roster_code_ok)

interpretation roster: keeping_chain "contract_code (with_system no_code)" sorts ok_world "\<lambda>_. True"
  by (rule roster_chain [OF no_code_syst])

end
