(* ===== verification/Roster_Props.thy ===== *)
theory Roster_Props
  imports System_Roster Examples
begin

text \<open>
  Properties of the lists of producers and of the schedule that the system contract makes
  from them.
\<close>

definition demo_key :: public_key where
  "demo_key = (0, replicate 33 2)"

definition demo_producers :: world where
  "demo_producers = demo_world\<lparr>syst := (syst empty_world)\<lparr>producers :=
     [(5, \<lparr>pi_total_votes = Fin 0, pi_producer_key = demo_key, pi_is_active = True, pi_url = [],
       pi_unpaid_blocks = 0, pi_last_claim_time = 0, pi_location = 1\<rparr>)]\<rparr>\<rparr>"

definition demo_seq :: act where
  "demo_seq = mk_act ytaadminuser system_account (Sys (Seqproducer 5 5 1 1))"

lemma demo_sorts: "sorts (demo_ctx as)"
  by (simp add: sorts_def demo_ctx_def)

lemma demo_producers_ok: "prods_ok (syst demo_producers)"
  by (simp add: prods_ok_def demo_producers_def)

lemma ctor_demo:
  "\<exists>w'. system_ctor (demo_producers\<lparr>inlines := [], notified := ns\<rparr>) = Inr w' \<and> producers (syst w') = producers (syst demo_producers)
     \<and> producersext (syst w') = [] \<and> all_prods (syst w') = None \<and> notified w' = ns \<and> inlines w' = []"
  by (simp add: system_ctor_def get_supply_def demo_producers_def empty_world_def emplace_def has_key_def Let_def)

lemma demo_seq_code:
  "\<exists>w'. system_code ((demo_ctx [])\<lparr>auths := [ytaadminuser]\<rparr>) demo_seq (demo_producers\<lparr>inlines := [], notified := ns\<rparr>) = Inr w'
     \<and> map_option (map yp_owner \<circ> prods_l1) (all_prods (syst w')) = Some [5] \<and> notified w' = ns \<and> inlines w' = []"
proof -
  obtain w where w: "system_ctor (demo_producers\<lparr>inlines := [], notified := ns\<rparr>) = Inr w" "producers (syst w) = producers (syst demo_producers)"
    "producersext (syst w) = []" "all_prods (syst w) = None" "notified w = ns" "inlines w = []" using ctor_demo by blast
  then show ?thesis
    by (simp add: demo_seq_def mk_act_def system_code_def system_apply_def seqproducer_def on_sys_def emplace_def has_key_def
        add_producer_yta_def demo_producers_def level_one_max_def all_prods_default_def Let_def)
qed

lemma demo_seq_run:
  "\<exists>w'. run_transaction (contract_code (with_system no_code)) 4 (demo_ctx []) [demo_seq] demo_producers = Inr w'
     \<and> map_option (map yp_owner \<circ> prods_l1) (all_prods (syst w')) = Some [5]"
proof -
  obtain w where w: "system_code ((demo_ctx [])\<lparr>auths := [ytaadminuser]\<rparr>) demo_seq (demo_producers\<lparr>inlines := [], notified := [system_account]\<rparr>) = Inr w"
    "map_option (map yp_owner \<circ> prods_l1) (all_prods (syst w)) = Some [5]" "notified w = [system_account]" "inlines w = []"
    using demo_seq_code by blast
  have "act_auth demo_seq = [ytaadminuser]" "act_account demo_seq = system_account" by (simp_all add: demo_seq_def mk_act_def)
  moreover have "system_account \<noteq> 0" by (simp add: acct_simps)
  moreover have "contract_code (with_system no_code) c system_account a v = system_code c a v" for c a v
    by (simp add: contract_code_def with_system_def acct_simps)
  ultimately show ?thesis using w
    by (simp add: run_transaction_def default_max_inline_action_depth_def eval_nat_numeral exec_with_def exec_one_def)
qed

text \<open>
  C32. The lists of producers stay well formed in every state that the chain reaches, with
  any code in the other accounts that does not write the tables of the system contract: at
  most 21 producers of level one and 105 of level two, nobody listed twice, and everybody
  listed registered with the key and the activity that the list has.  Whatever keeps the
  entries may stand for the sorting of the lists.
\<close>

theorem chain_keeps_producer_lists:
  assumes "foreign_syst f" and "prods_ok (syst w)" and "reachable sorts (contract_code (with_system f)) w w'"
    and "all_prods (syst w') = Some a"
  shows "length (prods_l1 a) \<le> 21 \<and> length (prods_l2 a) \<le> 105 \<and> distinct (map yp_owner (prods_l1 a @ prods_l2 a))
    \<and> (\<forall>x\<in>set (prods_l1 a @ prods_l2 a). \<exists>r. map_of (producers (syst w')) (yp_owner x) = Some r
          \<and> pi_producer_key r = yp_producer_key x \<and> pi_is_active r = yp_is_active x)"
proof -
  have "prods_ok (syst w')" using keeping_chain.reachable_inv [OF roster_chain [OF assms(1)] assms(3,2)] .
  then show ?thesis using assms(4)
    by (simp add: prods_ok_def lists_ok_def listed_ok_def registered_def list_all_iff level_one_max_def level_two_max_def)
qed

theorem chain_keeps_producer_lists_witness:
  "\<exists>w' a. reachable sorts (contract_code (with_system no_code)) demo_producers w' \<and> all_prods (syst w') = Some a
     \<and> map yp_owner (prods_l1 a) = [5] \<and> length (prods_l2 a) \<le> 105 \<and> (\<forall>x\<in>set (prods_l1 a). has_key (producers (syst w')) (yp_owner x))"
proof -
  obtain w' a where w: "run_transaction (contract_code (with_system no_code)) 4 (demo_ctx []) [demo_seq] demo_producers = Inr w'"
    "all_prods (syst w') = Some a" "map yp_owner (prods_l1 a) = [5]" using demo_seq_run by auto
  have r: "reachable sorts (contract_code (with_system no_code)) demo_producers w'"
    unfolding reachable_def using chain_step.Transaction [of sorts, OF demo_sorts w(1)] by blast
  have "length (prods_l2 a) \<le> 105 \<and> (\<forall>x\<in>set (prods_l1 a). has_key (producers (syst w')) (yp_owner x))"
    using chain_keeps_producer_lists [OF no_code_syst demo_producers_ok r w(2)] by (auto simp: has_key_def)
  then show ?thesis using r w(2,3) by (elim conjE) (intro exI conjI; assumption)
qed

text \<open>
  C33. Making the schedule never aborts where the lists of producers are well formed and the
  registered producers are accounts with valid keys: the schedule is kept, or replaced by
  one of at most 21 registered producers with their keys, in the order of their names and
  nobody in it twice, which is what the chain asks of it.
\<close>

theorem schedule_always_accepted:
  assumes "prods_ok db" and "sorts c" and "\<And>n r. map_of (producers db) n = Some r \<Longrightarrow> is_account c n \<and> key_valid c (pi_producer_key r)"
  shows "\<exists>db'. update_elected_producers_yta c t db = Inr db'
    \<and> (proposed db' = proposed db \<or> (\<exists>ps. proposed db' = Some ps \<and> length ps \<le> 21 \<and> sorted_wrt (<) (map fst ps)
         \<and> (\<forall>(n, k)\<in>set ps. map_option pi_producer_key (map_of (producers db) n) = Some k)))"
proof -
  have "is_account c n \<and> key_valid c k" if "registered db n = Some (k, b)" for n k b using that assms(3) by (auto simp: registered_def)
  with assms(1,2) obtain db' where db': "update_elected_producers_yta c t db = Inr db'"
    "proposed db' = proposed db \<or> (\<exists>ps. proposed db' = Some ps \<and> length ps \<le> 21 \<and> sorted_wrt (<) (map fst ps)
       \<and> (\<forall>(n, k)\<in>set ps. \<exists>b. registered db n = Some (k, b)))" using schedule_accepted [of db c t] by blast
  moreover have "(\<exists>b. registered db n = Some (k, b)) \<Longrightarrow> map_option pi_producer_key (map_of (producers db) n) = Some k" for n k
    by (auto simp: registered_def)
  ultimately show ?thesis by blast
qed

definition demo_schedule :: system_db where
  "demo_schedule = (syst demo_producers)\<lparr>gsystem3 := Some \<lparr>is_schedule = True, min_l1 = 1, max_l2 = 2\<rparr>,
     producersext := [(5, \<lparr>px_seq_num = 1, px_level = 1, px_unpaid_base_cnt = 0, px_unpaid_amount = 0, px_shadow = 5\<rparr>)],
     all_prods := Some \<lparr>prods_l1 = [\<lparr>yp_owner = 5, yp_total_votes = Fin 0, yp_producer_key = demo_key, yp_is_active = True,
       yp_location = 1, yp_is_in_grace = False, yp_grace_start_time = 0\<rparr>], prods_l2 = []\<rparr>\<rparr>"

lemma demo_scheduled: "update_elected_producers_yta (demo_ctx []) t demo_schedule = Inr db' \<Longrightarrow> proposed db' = Some [(5, demo_key)]"
  by (auto simp: update_elected_producers_yta_def Let_def demo_schedule_def top_producers_def set_proposed_producers_def max_producers_def
      schedule_entry_def demo_ctx_def split: if_splits)

theorem schedule_always_accepted_witness:
  "\<exists>db'. update_elected_producers_yta (demo_ctx []) 0 demo_schedule = Inr db' \<and> proposed demo_schedule = None
     \<and> proposed db' = Some [(5, demo_key)]"
proof -
  have "prods_ok demo_schedule"
    by (simp add: prods_ok_def demo_schedule_def demo_producers_def lists_ok_def listed_ok_def registered_def has_key_def
        level_one_max_def level_two_max_def)
  moreover have "is_account (demo_ctx []) n \<and> key_valid (demo_ctx []) (pi_producer_key r)" if "map_of (producers demo_schedule) n = Some r" for n r
    using that by (auto simp: demo_schedule_def demo_producers_def demo_ctx_def split: if_splits)
  ultimately have "\<exists>db'. update_elected_producers_yta (demo_ctx []) 0 demo_schedule = Inr db'"
    using schedule_always_accepted [OF _ demo_sorts] by blast
  moreover have "proposed demo_schedule = None" by (simp add: demo_schedule_def demo_producers_def empty_world_def)
  ultimately show ?thesis using demo_scheduled by blast
qed

end
