(* ===== verification/Spec2Isabelle.thy ===== *)
theory Spec2Isabelle
  imports Ledger_Props Channel_Props Pool_Props System_Props Roster_Props
begin

text \<open>
  A model of the storage contracts and the system contract of the YTA chain and of the way
  the chain runs them, with the theorems that make them correct.

  \<^bold>\<open>The program.\<close> The repository is a fork of EOSIO.  What is its own are
  five contracts under \<open>src/contracts\<close> that work on one another's tables.
  \<open>eosio.token\<close> is the ledger of tokens; the fork lets it refuse a transfer of what
  a user has deposited or what is still locked.  \<open>hddlock\<close> keeps lock rules and the
  grants under them.  \<open>hdddeposit\<close> keeps two deposit pools of each user and the
  part of them that backs each storage miner.  \<open>hddpool\<close> keeps storage balances
  that grow and shrink with time, the miners, the store pools, the prices, and the rewards that
  are drawn for miners.  \<open>channel.sys\<close> keeps the balances of users that move tokens
  to another chain.  They interact by reading the tables of one another, by inline actions, by
  notifications of token transfers, whose memos carry arguments, and by deferred transactions.
  \<open>eosio.system\<close>, which the fork has changed, registers and schedules block
  producers and pays them, counts votes, and keeps stakes, name auctions and the market for RAM.
  It moves tokens by inline transfers, and the storage contracts read who votes and who produces
  from it.

  \<^bold>\<open>Conventions.\<close> A contract is a record of tables; a table is an
  association list in the order of the keys.  An action is a function from the context, its
  arguments and the world to a result: an error, for every assertion, missing authority and
  failure of the chain, or the next world.  Amounts are integers with the wrap-around of 64 bits
  written out (\<open>i64\<close>); unsigned integers are words.  Doubles are rationals with
  infinities and NaN, and every operation rounds as IEEE 754 demands.  An inline action and a
  notification are entries of two lists of the world, a deferred transaction of a third.

  \<^bold>\<open>Theories and sources.\<close>
  \<^item> \<open>Prelude\<close>: results, 64-bit integers, words.  \<open>Float64\<close>: the double intrinsics of
    \<open>libraries/chain/wasm_interface.cpp\<close>; \<open>Float_Bounds\<close>: error bounds of their compositions.
  \<^item> \<open>Names\<close>: \<open>eosiolib/types.hpp\<close>.  \<open>Asset\<close>: \<open>eosiolib/symbol.hpp\<close> and \<open>asset.hpp\<close>.  \<open>Tables\<close>:
    what \<open>multi_index.hpp\<close> and \<open>singleton.hpp\<close> do to the rows.
  \<^item> \<open>Chain_State\<close>: the rows and tables of the contracts (their \<open>.hpp\<close> files), the actions
    with their parameters, the world, the context, and the intrinsics of
    \<open>apply_context.cpp\<close>.  \<open>Contract_Reads\<close>: the functions of the headers by which a contract
    reads another, such as \<open>hddlock::get_lock_asset\<close> and \<open>hdddeposit::get_deposit\<close>.
  \<^item> \<open>Frames\<close>: a calculus for what an action leaves alone.
  \<^item> \<open>Token\<close>, \<open>Hddlock\<close>, \<open>Hdddeposit\<close>, \<open>Channel\<close>: the contracts of these names, with \<open>Memo\<close> for
    the parsing and printing of memos.
  \<^item> \<open>Hddpool_Account\<close>, \<open>Hddpool_Miner\<close>, \<open>Hddpool_Params\<close>, \<open>Hddpool_Reward\<close>: the actions of
    \<open>hddpool.cpp\<close> on users, miners and store pools, prices, and rewards; \<open>Hddpool\<close>: its
    dispatch.  \<open>Hddpool_Inv\<close> and \<open>Hddpool_Score\<close>: the invariants.
  \<^item> \<open>System_Rows\<close>, \<open>System_Market\<close>, \<open>System_Voting\<close>, \<open>System_Stake\<close>, \<open>System_Pay\<close>: the tables of
    \<open>eosio.system.hpp\<close>, and the actions of \<open>exchange_state.cpp\<close> with the RAM part of
    \<open>delegate_bandwidth.cpp\<close>, of \<open>voting.cpp\<close>, of the rest of \<open>delegate_bandwidth.cpp\<close>, and of
    \<open>producer_pay.cpp\<close> and \<open>eosio.system.cpp\<close>.  \<open>System_Contract\<close>, \<open>System_Calls\<close>: its dispatch,
    what it leaves alone and what it sends.  \<open>System_Roster\<close>: the lists of producers.
  \<^item> \<open>Executor\<close>: \<open>apply_context::exec\<close>, \<open>transaction_context::exec\<close> and the step of a
    scheduled transaction in \<open>controller.cpp\<close>, for any code of the accounts.  \<open>Contracts\<close>:
    the dispatchers of the five contracts and their common invariant.
  \<^item> \<open>Solvency\<close>, \<open>Fuel\<close>: two properties of whole transactions.
  \<^item> \<open>Examples\<close>: small states on which actions are run by simplification.

  \<^bold>\<open>What is shown.\<close>
  \<^item> \<open>Ledger_Props\<close>: the balances of a token add up to its supply under every action;
    transfer and issue refine an abstract ledger; a transfer leaves what the contract holds
    back for deposits and locked grants (\<open>hold_of\<close>) covered; the accounting of deposits; the
    bounds of the locked part.
  \<^item> \<open>Channel_Props\<close>: the channel changes its balances by what it pays; memos are read as
    they are written; the split of the gas fund.
  \<^item> \<open>Pool_Props\<close>: the invariant of the tables of \<open>hddpool\<close> under every action; the table of
    identifiers is a partial map with a list of free entries; fees and profits computed in
    floating point are exact up to rounding; prices and ratios move within their guards; the
    binary search for a rewarded miner is the linear one, and a reward is paid.
  \<^item> \<open>System_Props\<close>: all invariants hold together in every reachable state of the chain; the
    channel holds what it owes; the loops of an action end.
  \<^item> \<open>Roster_Props\<close>: the lists of producers are bounded, name nobody twice and agree with the
    registration in every reachable state; the schedule made from them is accepted.

  The laws between components are locales.  \<open>Executor\<close> states what the code of an
  account has to keep for a transaction and for the chain to keep it
  (\<open>keeping_code\<close>, \<open>keeping_chain\<close>); \<open>Contracts\<close> and
  \<open>System_Roster\<close> interpret them on the dispatchers.

  \<^bold>\<open>Bounds.\<close> The loop over notified accounts has fuel, which stands for the
  time limit of a transaction; four rounds are enough for the five contracts, alone or with the
  system contract (\<open>Fuel\<close>).  Inline actions have the maximum depth of the chain's
  configuration.  The binary search stops after 20 rounds as the code does, which is enough for
  fewer than \<open>2^19\<close> rows.

  \<^bold>\<open>Hypotheses.\<close> The invariants need that some arguments which the code does
  not check are in range (\<open>in_range\<close>): grants of \<open>hddlock\<close> within the
  range of assets and exact as doubles, quantities of \<open>hdddeposit\<close> and
  \<open>mapc\<close> within the range of assets, a gas fund of at most \<open>2^56\<close>, and
  fewer than \<open>2^32\<close> identifiers.  \<open>hddlock\<close> accepts grants beyond that
  range, whose sum can wrap around to a negative hold; the ledger of \<open>eosio.token\<close>
  adds up all the same, and only what needs a hold that is not negative says so.  Code of other
  accounts is an argument of the model: it writes no table of the five contracts, which the
  system contract is shown to satisfy.  The function \<open>pow\<close> of the C library, which
  is linked from a submodule, is a parameter of the context, as are the order in which
  \<open>std::sort\<close> leaves producers, the accounts that exist, the keys that are valid,
  and the inline actions that the permissions of the chain allow.

  \<^bold>\<open>Not modelled.\<close> RAM payers and billing, console output, the serialisation
  of actions and rows, and secondary indices, of which the contracts make no decision.  The
  expiry of scheduled transactions is a step that may happen at any time.  The limits that the
  system contract hands to the chain with \<open>set_resource_limits\<close>, which no contract
  reads, and \<open>update_elected_producers\<close> of \<open>voting.cpp\<close>, which nothing
  calls.  The sign of a zero and the payload of a NaN.  The chain itself below an action:
  consensus, fork choice, permissions, resource limits, the virtual machine, and the plugins and
  programs around it, which are those of EOSIO or input and output.
\<close>

end
